(* ===== verification/Edge_Prelude.thy ===== *)
theory Edge_Prelude
  imports Main "HOL-Library.Word"
begin

unbundle bit_operations_syntax

section \<open>Shared vocabulary of the development\<close>

text \<open>
  The machine integers of the source as words, \<open>Result\<close> as a sum with the error on the
  left, little-endian byte strings, and arrays of 64-bit words read as sets of slot
  numbers.  Every component imports this theory.

  \<open>usize\<close> is 64 bits wide on the two platforms the source names (aarch64 and x86\_64) and
  is modelled as \<open>nat\<close> where it counts objects that fit in memory; where the source
  checks for overflow the check is written out.
\<close>

type_synonym u8 = "8 word"
type_synonym u16 = "16 word"
type_synonym u32 = "32 word"
type_synonym u64 = "64 word"
type_synonym bytes = "u8 list"

named_theorems wire_simps \<open>length and round-trip facts of the byte encodings\<close>
named_theorems inv_intros \<open>operations that keep the invariant of their component\<close>

subsection \<open>Results\<close>

text \<open>The operator \<open>?\<close> of the source: stop at the first error.\<close>

fun rbind :: "'e + 'a \<Rightarrow> ('a \<Rightarrow> 'e + 'b) \<Rightarrow> 'e + 'b" where
  "rbind (Inl e) f = Inl e"
| "rbind (Inr x) f = f x"

fun ok_or :: "'a option \<Rightarrow> 'e \<Rightarrow> 'e + 'a" where
  "ok_or None e = Inl e"
| "ok_or (Some x) e = Inr x"

lemma rbind_Inr_iff [simp]:
  "rbind r f = Inr y \<longleftrightarrow> (\<exists>x. r = Inr x \<and> f x = Inr y)"
  by (cases r) auto

lemma rbind_Inl_iff:
  "rbind r f = Inl e \<longleftrightarrow> r = Inl e \<or> (\<exists>x. r = Inr x \<and> f x = Inl e)"
  by (cases r) auto

lemma ok_or_Inr_iff [simp]: "ok_or o' e = Inr x \<longleftrightarrow> o' = Some x"
  by (cases o') auto

lemma ok_or_Inl_iff [simp]: "ok_or o' e = Inl e' \<longleftrightarrow> o' = None \<and> e' = e"
  by (cases o') auto

subsection \<open>Little-endian bytes\<close>

text \<open>
  \<open>to_le_bytes\<close> and \<open>from_le_bytes\<close> of the standard library.  The deployed platforms are
  little-endian, so \<open>to_ne_bytes\<close> and \<open>from_ne_bytes\<close> are the same functions.
\<close>

definition to_le_bytes :: "'a::len word \<Rightarrow> bytes" where
  "to_le_bytes w = map (\<lambda>i. ucast (drop_bit (8 * i) w)) [0..<LENGTH('a) div 8]"

primrec from_le_bytes :: "bytes \<Rightarrow> 'a::len word" where
  "from_le_bytes [] = 0"
| "from_le_bytes (b # bs) = ucast b OR push_bit 8 (from_le_bytes bs)"

lemma bit_from_le_bytes_low:
  "n < 8 \<Longrightarrow> bit (from_le_bytes (b # bs) :: 'a::len word) n \<longleftrightarrow> n < LENGTH('a) \<and> bit b n"
  by (simp only: from_le_bytes.simps bit_or_iff bit_push_bit_iff bit_unsigned_iff possible_bit_word)
    simp

lemma bit_from_le_bytes_high:
  "bit (from_le_bytes (b # bs) :: 'a::len word) (m + 8) \<longleftrightarrow>
     m + 8 < LENGTH('a) \<and> bit (from_le_bytes bs :: 'a word) m"
  using bit_imp_le_length [of b "m + 8"]
  by (simp only: from_le_bytes.simps bit_or_iff bit_push_bit_iff bit_unsigned_iff possible_bit_word)
    auto

lemma bit_from_le_bytes:
  "bit (from_le_bytes bs :: 'a::len word) n \<longleftrightarrow>
     n < LENGTH('a) \<and> n div 8 < length bs \<and> bit (bs ! (n div 8)) (n mod 8)"
proof (induction bs arbitrary: n)
  case Nil
  then show ?case by simp
next
  case (Cons b bs)
  show ?case
  proof (cases "n < 8")
    case True
    then show ?thesis by (simp only: bit_from_le_bytes_low) simp
  next
    case False
    then obtain m where n: "n = m + 8" by (metis add.commute le_Suc_ex not_le)
    then have "n div 8 = Suc (m div 8)" and "n mod 8 = m mod 8" by simp_all
    then show ?thesis using Cons [of m] unfolding n bit_from_le_bytes_high by auto
  qed
qed

lemma length_to_le_bytes: "length (to_le_bytes (w :: 'a::len word)) = LENGTH('a) div 8"
  by (simp add: to_le_bytes_def)

lemma nth_to_le_bytes:
  "i < LENGTH('a) div 8 \<Longrightarrow> to_le_bytes (w :: 'a::len word) ! i = ucast (drop_bit (8 * i) w)"
  by (simp add: to_le_bytes_def)

lemma bit_nth_to_le_bytes:
  "i < LENGTH('a) div 8 \<Longrightarrow> k < 8 \<Longrightarrow>
     bit (to_le_bytes (w :: 'a::len word) ! i) k \<longleftrightarrow> bit w (8 * i + k)"
  by (simp only: nth_to_le_bytes bit_unsigned_iff bit_drop_bit_eq) simp

lemma from_to_le_bytes_dvd:
  fixes w :: "'a::len word"
  assumes "8 dvd LENGTH('a)"
  shows "from_le_bytes (to_le_bytes w) = w"
proof (rule bit_word_eqI)
  fix n assume n: "n < LENGTH('a)"
  have *: "n div 8 < LENGTH('a) div 8"
    using n dvd_div_mult_self [OF assms] by (metis less_mult_imp_div_less)
  then have "bit (to_le_bytes w ! (n div 8)) (n mod 8) = bit w (8 * (n div 8) + n mod 8)"
    by (rule bit_nth_to_le_bytes) simp
  then have "bit (to_le_bytes w ! (n div 8)) (n mod 8) = bit w n"
    by (simp only: mult_div_mod_eq)
  with n * show "bit (from_le_bytes (to_le_bytes w) :: 'a word) n = bit w n"
    by (simp only: bit_from_le_bytes length_to_le_bytes) simp
qed

lemma to_from_le_bytes_dvd:
  assumes "8 dvd LENGTH('a::len)" and len: "length bs = LENGTH('a) div 8"
  shows "to_le_bytes (from_le_bytes bs :: 'a word) = bs"
proof (rule nth_equalityI)
  show "length (to_le_bytes (from_le_bytes bs :: 'a word)) = length bs"
    by (simp only: length_to_le_bytes len)
  fix i assume "i < length (to_le_bytes (from_le_bytes bs :: 'a word))"
  then have i: "i < LENGTH('a) div 8" by (simp only: length_to_le_bytes)
  show "to_le_bytes (from_le_bytes bs :: 'a word) ! i = bs ! i"
  proof (rule bit_word_eqI)
    fix k assume "k < LENGTH(8)"
    then have k: "k < 8" by simp
    have "8 * i + k < 8 * (LENGTH('a) div 8)" using i k by linarith
    then have "8 * i + k < LENGTH('a)" using assms(1) by simp
    moreover have "(8 * i + k) div 8 = i" and "(8 * i + k) mod 8 = k" using k by simp_all
    ultimately show "bit (to_le_bytes (from_le_bytes bs :: 'a word) ! i) k = bit (bs ! i) k"
      using i k len by (simp only: bit_nth_to_le_bytes bit_from_le_bytes) simp
  qed
qed

lemma from_to_le_bytes_u32 [simp, wire_simps]: "from_le_bytes (to_le_bytes w) = (w :: u32)"
  by (rule from_to_le_bytes_dvd) simp

lemma from_to_le_bytes_u64 [simp, wire_simps]: "from_le_bytes (to_le_bytes w) = (w :: u64)"
  by (rule from_to_le_bytes_dvd) simp

lemma length_to_le_bytes_u32 [simp, wire_simps]: "length (to_le_bytes (w :: u32)) = 4"
  by (simp add: length_to_le_bytes)

lemma length_to_le_bytes_u64 [simp, wire_simps]: "length (to_le_bytes (w :: u64)) = 8"
  by (simp add: length_to_le_bytes)

lemma to_from_le_bytes_u32 [wire_simps]:
  "length bs = 4 \<Longrightarrow> to_le_bytes (from_le_bytes bs :: u32) = bs"
  by (rule to_from_le_bytes_dvd) simp_all

lemma to_from_le_bytes_u64 [wire_simps]:
  "length bs = 8 \<Longrightarrow> to_le_bytes (from_le_bytes bs :: u64) = bs"
  by (rule to_from_le_bytes_dvd) simp_all

subsection \<open>Single bits\<close>

lemma and_bit_mask_iff [simp]: "w AND push_bit i 1 \<noteq> 0 \<longleftrightarrow> bit w i"
  for w :: "'a::len word"
  by (simp add: and_exp_eq_0_iff_not_bit)

lemma bit_or_mask:
  fixes w :: "'a::len word"
  shows "bit (w OR push_bit i 1) j \<longleftrightarrow> bit w j \<or> (j = i \<and> i < LENGTH('a))"
  by (auto simp: bit_simps)

lemma bit_and_not_mask:
  fixes w :: "'a::len word"
  shows "bit (w AND NOT (push_bit i 1)) j \<longleftrightarrow> bit w j \<and> j \<noteq> i"
  by (auto simp: bit_simps dest: bit_imp_le_length)

lemma even_word_iff: "w AND 1 = 0 \<longleftrightarrow> even (w :: 'a::len word)"
  by (simp add: and_one_eq even_iff_mod_2_eq_zero)

subsection \<open>Word arrays as sets of slots\<close>

text \<open>
  The allocator bitmap, the dirty words of a writer and the subscription bitmap address
  slot \<open>s\<close> as bit \<open>s mod 64\<close> of word \<open>s div 64\<close>.
\<close>

definition test_slot_bit :: "u64 list \<Rightarrow> nat \<Rightarrow> bool" where
  "test_slot_bit ws s \<longleftrightarrow> ws ! (s div 64) AND push_bit (s mod 64) 1 \<noteq> 0"

definition set_slot_bit :: "u64 list \<Rightarrow> nat \<Rightarrow> u64 list" where
  "set_slot_bit ws s = ws[s div 64 := ws ! (s div 64) OR push_bit (s mod 64) 1]"

definition clear_slot_bit :: "u64 list \<Rightarrow> nat \<Rightarrow> u64 list" where
  "clear_slot_bit ws s = ws[s div 64 := ws ! (s div 64) AND NOT (push_bit (s mod 64) 1)]"

definition slot_bits :: "u64 list \<Rightarrow> nat set" where
  "slot_bits ws = {s. s div 64 < length ws \<and> bit (ws ! (s div 64)) (s mod 64)}"

lemma length_set_slot_bit [simp]: "length (set_slot_bit ws s) = length ws"
  by (simp add: set_slot_bit_def)

lemma length_clear_slot_bit [simp]: "length (clear_slot_bit ws s) = length ws"
  by (simp add: clear_slot_bit_def)

lemma test_slot_bit_iff:
  "s div 64 < length ws \<Longrightarrow> test_slot_bit ws s \<longleftrightarrow> s \<in> slot_bits ws"
  unfolding test_slot_bit_def slot_bits_def and_bit_mask_iff by simp

lemma slot_eqI: "s div 64 = t div 64 \<Longrightarrow> s mod 64 = t mod 64 \<Longrightarrow> s = (t :: nat)"
  by (metis div_mult_mod_eq)

lemma slot_bits_set [simp]:
  "s div 64 < length ws \<Longrightarrow> slot_bits (set_slot_bit ws s) = insert s (slot_bits ws)"
  unfolding slot_bits_def set_slot_bit_def
  by (auto simp: nth_list_update bit_or_mask simp del: push_bit_of_1 dest: slot_eqI split: if_splits)

lemma slot_bits_clear [simp]:
  "s div 64 < length ws \<Longrightarrow> slot_bits (clear_slot_bit ws s) = slot_bits ws - {s}"
  unfolding slot_bits_def clear_slot_bit_def
  by (auto simp: nth_list_update bit_and_not_mask simp del: push_bit_of_1 dest: slot_eqI split: if_splits)

lemma slot_bits_replicate_0 [simp]: "slot_bits (replicate n 0) = {}"
  by (auto simp: slot_bits_def)

lemma slot_bits_bound: "s \<in> slot_bits ws \<Longrightarrow> s < 64 * length ws"
  by (auto simp: slot_bits_def div_less_iff_less_mult mult.commute)

lemma finite_slot_bits [simp]: "finite (slot_bits ws)"
  by (rule finite_subset [of _ "{..<64 * length ws}"]) (auto dest: slot_bits_bound)

text \<open>\<open>div_ceil\<close> of the standard library.\<close>

definition div_ceil :: "nat \<Rightarrow> nat \<Rightarrow> nat" where
  "div_ceil a b = (if a mod b = 0 then a div b else a div b + 1)"

lemma div_ceil_64_bound: "s < n \<Longrightarrow> s div 64 < div_ceil n 64"
  unfolding div_ceil_def by (auto split: if_splits)

subsection \<open>Counters kept in \<open>u32\<close>\<close>

lemma unat_u32_bound: "unat (w :: u32) < 2 ^ 32"
  using unsigned_less [of w] by simp

lemma unat_add_u32: "unat (w :: u32) + n < 2 ^ 32 \<Longrightarrow> unat (w + word_of_nat n) = unat w + n"
  by (simp add: unat_word_ariths unat_of_nat)

lemma unat_of_nat_u32: "n < 2 ^ 32 \<Longrightarrow> unat (word_of_nat n :: u32) = n"
  by (simp add: unat_of_nat)

lemma unat_sub_u32: "n \<le> unat (w :: u32) \<Longrightarrow> unat (w - word_of_nat n) = unat w - n"
  using unat_of_nat_u32 [of n] unat_u32_bound [of w] by (simp add: unat_sub word_le_nat_alt)

end
