(* ===== verification/F64_Bits.thy ===== *)
theory F64_Bits
  imports Edge_Prelude
begin

section \<open>IEEE 754 binary64 values as bit patterns\<close>

text \<open>
  The source moves \<open>f64\<close> values between memory cells with \<open>to_bits\<close> and \<open>from_bits\<close>, which
  are the identity on the 64-bit pattern, and classifies them with \<open>is_nan\<close> and
  \<open>is_finite\<close>.  The model of an \<open>f64\<close> is its pattern; the two predicates read the exponent
  and fraction fields.
\<close>

type_synonym f64 = u64

definition f64_exponent_mask :: u64 where
  "f64_exponent_mask = 0x7FF0000000000000"

definition f64_fraction_mask :: u64 where
  "f64_fraction_mask = 0x000FFFFFFFFFFFFF"

definition f64_is_nan :: "f64 \<Rightarrow> bool" where
  "f64_is_nan b \<longleftrightarrow>
     b AND f64_exponent_mask = f64_exponent_mask \<and> b AND f64_fraction_mask \<noteq> 0"

definition f64_is_finite :: "f64 \<Rightarrow> bool" where
  "f64_is_finite b \<longleftrightarrow> b AND f64_exponent_mask \<noteq> f64_exponent_mask"

lemma finite_not_nan: "f64_is_finite b \<Longrightarrow> \<not> f64_is_nan b"
  by (simp add: f64_is_finite_def f64_is_nan_def)

lemmas f64_class_defs = f64_is_nan_def f64_is_finite_def f64_exponent_mask_def f64_fraction_mask_def

lemma f64_zero_finite [simp]: "f64_is_finite 0"
  by (simp add: f64_class_defs)

end
