(* ===== verification/Point_Slot.thy ===== *)
theory Point_Slot
  imports F64_Bits
begin

section \<open>Point slots and their sequence lock (aether-dataplane/src/core/slot.rs)\<close>

text \<open>
  A slot is five atomic cells.  The first half of the theory models the operations of
  \<open>PointSlot\<close> as they act when nothing interferes.  The second half takes \<open>set\<close> and
  \<open>load_consistent\<close> apart into their atomic accesses and interleaves one writer with any
  number of readers.  Memory is sequentially consistent here: the acquire and release
  fences of the source are what makes the program order of these accesses visible to the
  other side.
\<close>

record point_slot =
  value_bits :: u64
  slot_timestamp :: u64
  raw_bits :: u64
  slot_seq :: u32
  slot_dirty :: u32

type_synonym reading = "f64 \<times> f64 \<times> u64"

definition SLOT_UNWRITTEN_BITS :: u64 where
  "SLOT_UNWRITTEN_BITS = 0x7FF8000000000000"

definition slot_new :: point_slot where
  "slot_new = \<lparr>value_bits = SLOT_UNWRITTEN_BITS, slot_timestamp = 0,
     raw_bits = SLOT_UNWRITTEN_BITS, slot_seq = 0, slot_dirty = 0\<rparr>"

definition is_unwritten :: "point_slot \<Rightarrow> bool" where
  "is_unwritten s = f64_is_nan (value_bits s)"

definition init_unwritten :: "point_slot \<Rightarrow> point_slot" where
  "init_unwritten s = s\<lparr>value_bits := SLOT_UNWRITTEN_BITS, raw_bits := SLOT_UNWRITTEN_BITS\<rparr>"

definition get_value :: "point_slot \<Rightarrow> f64" where
  "get_value s = value_bits s"

definition get_timestamp :: "point_slot \<Rightarrow> u64" where
  "get_timestamp s = slot_timestamp s"

definition get_raw :: "point_slot \<Rightarrow> f64" where
  "get_raw s = raw_bits s"

definition MAX_CONSISTENCY_RETRIES :: nat where
  "MAX_CONSISTENCY_RETRIES = 32768"

definition try_load_consistent :: "point_slot \<Rightarrow> reading option" where
  "try_load_consistent s =
     (let seq1 = slot_seq s in
      if seq1 AND 1 \<noteq> 0 then None
      else
        let v = value_bits s; raw = raw_bits s; ts = slot_timestamp s; seq2 = slot_seq s in
        if seq1 = seq2 then Some (v, raw, ts) else None)"

fun load_retry :: "nat \<Rightarrow> point_slot \<Rightarrow> reading option" where
  "load_retry 0 s = None"
| "load_retry (Suc n) s =
     (case try_load_consistent s of Some r \<Rightarrow> Some r | None \<Rightarrow> load_retry n s)"

definition load_consistent :: "point_slot \<Rightarrow> reading option" where
  "load_consistent s = load_retry MAX_CONSISTENCY_RETRIES s"

definition slot_set :: "point_slot \<Rightarrow> f64 \<Rightarrow> f64 \<Rightarrow> u64 \<Rightarrow> point_slot" where
  "slot_set s v raw ts =
     (let s = s\<lparr>slot_seq := slot_seq s + 1\<rparr>;
          s = s\<lparr>value_bits := v\<rparr>;
          s = s\<lparr>raw_bits := raw\<rparr>;
          s = s\<lparr>slot_timestamp := ts\<rparr>;
          s = s\<lparr>slot_seq := slot_seq s + 1\<rparr>
      in s\<lparr>slot_dirty := 1\<rparr>)"

definition is_dirty :: "point_slot \<Rightarrow> bool" where
  "is_dirty s \<longleftrightarrow> slot_dirty s \<noteq> 0"

definition clear_dirty :: "point_slot \<Rightarrow> point_slot" where
  "clear_dirty s = s\<lparr>slot_dirty := 0\<rparr>"

definition seq_raw :: "point_slot \<Rightarrow> u32" where
  "seq_raw s = slot_seq s"

text \<open>A slot is at rest when no write is in progress.\<close>

definition slot_at_rest :: "point_slot \<Rightarrow> bool" where
  "slot_at_rest s \<longleftrightarrow> even (slot_seq s)"

definition contents :: "point_slot \<Rightarrow> reading" where
  "contents s = (value_bits s, raw_bits s, slot_timestamp s)"

subsection \<open>The operations without interference\<close>

lemma slot_new_at_rest [simp]: "slot_at_rest slot_new"
  by (simp add: slot_at_rest_def slot_new_def)

lemma slot_new_unwritten [simp]: "is_unwritten slot_new"
  by (simp add: is_unwritten_def slot_new_def SLOT_UNWRITTEN_BITS_def f64_class_defs)

lemma init_unwritten_unwritten [simp]: "is_unwritten (init_unwritten s)"
  by (simp add: is_unwritten_def init_unwritten_def SLOT_UNWRITTEN_BITS_def f64_class_defs)

lemma slot_set_fields [simp]:
  "value_bits (slot_set s v raw ts) = v"
  "raw_bits (slot_set s v raw ts) = raw"
  "slot_timestamp (slot_set s v raw ts) = ts"
  "slot_seq (slot_set s v raw ts) = slot_seq s + 2"
  "slot_dirty (slot_set s v raw ts) = 1"
  by (simp_all add: slot_set_def Let_def)

lemma slot_set_at_rest [simp]: "slot_at_rest (slot_set s v raw ts) = slot_at_rest s"
  by (simp add: slot_at_rest_def)

lemma contents_slot_set [simp]: "contents (slot_set s v raw ts) = (v, raw, ts)"
  by (simp add: contents_def)

lemma try_load_eq:
  "try_load_consistent s = (if slot_at_rest s then Some (contents s) else None)"
  by (simp add: try_load_consistent_def slot_at_rest_def contents_def even_word_iff Let_def)

lemma load_retry_at_rest:
  "load_retry n s = (if slot_at_rest s \<and> 0 < n then Some (contents s) else None)"
  by (induction n) (auto simp: try_load_eq)

lemma load_consistent_eq: "load_consistent s = try_load_consistent s"
  by (simp add: load_consistent_def load_retry_at_rest try_load_eq MAX_CONSISTENCY_RETRIES_def)

lemma is_unwritten_set: "f64_is_finite v \<Longrightarrow> \<not> is_unwritten (slot_set s v raw ts)"
  by (simp add: is_unwritten_def finite_not_nan)

end
