(* ===== verification/Slot_Seqlock.thy ===== *)
theory Slot_Seqlock
  imports Point_Slot
begin

section \<open>The sequence lock under interleaving (slot.rs, set and load_consistent)\<close>

text \<open>
  One atomic access of the source is one step.  The writer's program counter holds the
  arguments of the \<open>set\<close> call in progress; a reader's holds what it has loaded so far and the
  attempts \<open>load_consistent\<close> has left (a bare \<open>try_load_consistent\<close> has none).  Two
  components are ghosts that no step reads: \<open>ticks\<close> counts the increments of the sequence
  cell without wrap-around, and \<open>committed\<close> is the triple of the last completed \<open>set\<close>.
\<close>

datatype writer_pc =
    W_Idle
  | W_Begun f64 f64 u64
  | W_Value f64 f64 u64
  | W_Raw f64 f64 u64
  | W_Stamp f64 f64 u64
  | W_Ended

datatype reader_pc =
    R_Idle
  | R_Try nat
  | R_Seq nat nat u32
  | R_Value nat nat u32 f64
  | R_Raw nat nat u32 f64 f64
  | R_Stamp nat nat u32 f64 f64 u64
  | R_Done "reading option"

record seqlock =
  cell :: point_slot
  writer :: writer_pc
  readers :: "nat \<Rightarrow> reader_pc"
  ticks :: nat
  committed :: reading

text \<open>A failed attempt goes round the loop of \<open>load_consistent\<close> or gives up with \<open>None\<close>.\<close>

fun attempt_failed :: "nat \<Rightarrow> reader_pc" where
  "attempt_failed 0 = R_Done None"
| "attempt_failed (Suc k) = R_Try k"

text \<open>One step of reader \<open>i\<close>: the next access of \<open>try_load_consistent\<close>.\<close>

fun reader_next :: "point_slot \<Rightarrow> nat \<Rightarrow> reader_pc \<Rightarrow> reader_pc" where
  "reader_next c n R_Idle = R_Idle"
| "reader_next c n (R_Try k) =
     (if slot_seq c AND 1 \<noteq> 0 then attempt_failed k else R_Seq k n (slot_seq c))"
| "reader_next c n (R_Seq k b s1) = R_Value k b s1 (value_bits c)"
| "reader_next c n (R_Value k b s1 v) = R_Raw k b s1 v (raw_bits c)"
| "reader_next c n (R_Raw k b s1 v raw) = R_Stamp k b s1 v raw (slot_timestamp c)"
| "reader_next c n (R_Stamp k b s1 v raw ts) =
     (if s1 = slot_seq c then R_Done (Some (v, raw, ts)) else attempt_failed k)"
| "reader_next c n (R_Done r) = R_Done r"

inductive seqlock_step :: "seqlock \<Rightarrow> seqlock \<Rightarrow> bool" where
  set_begin: "writer s = W_Idle \<Longrightarrow>
    seqlock_step s (s\<lparr>cell := (cell s)\<lparr>slot_seq := slot_seq (cell s) + 1\<rparr>,
      writer := W_Begun v raw ts, ticks := Suc (ticks s)\<rparr>)"
| set_value: "writer s = W_Begun v raw ts \<Longrightarrow>
    seqlock_step s (s\<lparr>cell := (cell s)\<lparr>value_bits := v\<rparr>, writer := W_Value v raw ts\<rparr>)"
| set_raw: "writer s = W_Value v raw ts \<Longrightarrow>
    seqlock_step s (s\<lparr>cell := (cell s)\<lparr>raw_bits := raw\<rparr>, writer := W_Raw v raw ts\<rparr>)"
| set_stamp: "writer s = W_Raw v raw ts \<Longrightarrow>
    seqlock_step s (s\<lparr>cell := (cell s)\<lparr>slot_timestamp := ts\<rparr>, writer := W_Stamp v raw ts\<rparr>)"
| set_end: "writer s = W_Stamp v raw ts \<Longrightarrow>
    seqlock_step s (s\<lparr>cell := (cell s)\<lparr>slot_seq := slot_seq (cell s) + 1\<rparr>,
      writer := W_Ended, ticks := Suc (ticks s), committed := (v, raw, ts)\<rparr>)"
| set_dirty: "writer s = W_Ended \<Longrightarrow>
    seqlock_step s (s\<lparr>cell := (cell s)\<lparr>slot_dirty := 1\<rparr>, writer := W_Idle\<rparr>)"
| dirty_cleared: "seqlock_step s (s\<lparr>cell := clear_dirty (cell s)\<rparr>)"
| load_start: "readers s i \<in> {R_Idle} \<union> range R_Done \<Longrightarrow>
    seqlock_step s (s\<lparr>readers := (readers s)(i := R_Try k)\<rparr>)"
| load_step:
    "seqlock_step s (s\<lparr>readers := (readers s)(i := reader_next (cell s) (ticks s) (readers s i))\<rparr>)"

inductive_cases seqlock_stepE: "seqlock_step s s'"

definition seqlock_init :: seqlock where
  "seqlock_init = \<lparr>cell = slot_new, writer = W_Idle, readers = (\<lambda>_. R_Idle), ticks = 0,
     committed = contents slot_new\<rparr>"

inductive seqlock_reachable :: "seqlock \<Rightarrow> bool" where
  init: "seqlock_reachable seqlock_init"
| step: "seqlock_reachable s \<Longrightarrow> seqlock_step s s' \<Longrightarrow> seqlock_reachable s'"

subsection \<open>The invariant\<close>

fun writer_ok :: "seqlock \<Rightarrow> writer_pc \<Rightarrow> bool" where
  "writer_ok s W_Idle \<longleftrightarrow> even (ticks s) \<and> contents (cell s) = committed s"
| "writer_ok s (W_Begun v raw ts) \<longleftrightarrow> odd (ticks s)"
| "writer_ok s (W_Value v raw ts) \<longleftrightarrow> odd (ticks s) \<and> value_bits (cell s) = v"
| "writer_ok s (W_Raw v raw ts) \<longleftrightarrow>
     odd (ticks s) \<and> value_bits (cell s) = v \<and> raw_bits (cell s) = raw"
| "writer_ok s (W_Stamp v raw ts) \<longleftrightarrow> odd (ticks s) \<and> contents (cell s) = (v, raw, ts)"
| "writer_ok s W_Ended \<longleftrightarrow> even (ticks s) \<and> contents (cell s) = committed s"

text \<open>
  What a reader holds is current as long as the sequence has not moved since its first
  load (tick \<open>b\<close>).
\<close>

fun reader_ok :: "point_slot \<Rightarrow> nat \<Rightarrow> reader_pc \<Rightarrow> bool" where
  "reader_ok c n (R_Seq k b s1) \<longleftrightarrow> even b \<and> b \<le> n \<and> s1 = word_of_nat b"
| "reader_ok c n (R_Value k b s1 v) \<longleftrightarrow>
     even b \<and> b \<le> n \<and> s1 = word_of_nat b \<and> (b = n \<longrightarrow> v = value_bits c)"
| "reader_ok c n (R_Raw k b s1 v raw) \<longleftrightarrow>
     even b \<and> b \<le> n \<and> s1 = word_of_nat b \<and> (b = n \<longrightarrow> v = value_bits c \<and> raw = raw_bits c)"
| "reader_ok c n (R_Stamp k b s1 v raw ts) \<longleftrightarrow>
     even b \<and> b \<le> n \<and> s1 = word_of_nat b \<and> (b = n \<longrightarrow> (v, raw, ts) = contents c)"
| "reader_ok c n _ \<longleftrightarrow> True"

definition seqlock_inv :: "seqlock \<Rightarrow> bool" where
  "seqlock_inv s \<longleftrightarrow>
     slot_seq (cell s) = word_of_nat (ticks s) \<and> writer_ok s (writer s) \<and>
     (\<forall>i. reader_ok (cell s) (ticks s) (readers s i))"

lemma even_u32_of_nat [simp]: "even (word_of_nat n :: u32) = even n"
  by transfer (simp add: even_take_bit_eq)

lemma even_word_and_1: "(w :: u32) AND 1 = 0 \<longleftrightarrow> even w"
  by (simp add: even_word_iff)

lemma seqlock_inv_init: "seqlock_inv seqlock_init"
  by (simp add: seqlock_inv_def seqlock_init_def slot_new_def)

lemma reader_ok_tick: "reader_ok c n pc \<Longrightarrow> reader_ok c' (Suc n) pc"
  by (cases pc) auto

lemma reader_ok_odd: "reader_ok c n pc \<Longrightarrow> odd n \<Longrightarrow> reader_ok c' n pc"
  by (cases pc) auto

lemma reader_ok_dirty [simp]: "reader_ok (c\<lparr>slot_dirty := d\<rparr>) n pc = reader_ok c n pc"
  by (cases pc) (auto simp: contents_def)

lemma reader_ok_failed [simp]: "reader_ok c n (attempt_failed k)"
  by (cases k) auto

lemma reader_next_ok:
  assumes "reader_ok c n pc" and "slot_seq c = word_of_nat n"
  shows "reader_ok c n (reader_next c n pc)"
  using assms by (cases pc) (auto simp: even_word_and_1 contents_def)

lemma writer_ok_readers [simp]: "writer_ok (s\<lparr>readers := rs\<rparr>) pc = writer_ok s pc"
  by (cases pc) auto

lemma writer_ok_dirty [simp]:
  "writer_ok (s\<lparr>cell := (cell s)\<lparr>slot_dirty := d\<rparr>\<rparr>) pc = writer_ok s pc"
  by (cases pc) (auto simp: contents_def)

lemma seqlock_inv_step:
  assumes "seqlock_step s s'" and "seqlock_inv s"
  shows "seqlock_inv s'"
  using assms
proof (cases rule: seqlock_step.cases)
  case (load_step i)
  then show ?thesis
    using assms(2) by (auto simp: seqlock_inv_def reader_next_ok)
qed (use assms(2) in
      \<open>auto simp: seqlock_inv_def contents_def clear_dirty_def
         intro: reader_ok_tick reader_ok_odd\<close>)

lemma seqlock_reachable_inv: "seqlock_reachable s \<Longrightarrow> seqlock_inv s"
  by (induction rule: seqlock_reachable.induct) (auto intro: seqlock_inv_init seqlock_inv_step)

subsection \<open>Complete calls are the operations of the slot\<close>

lemma reachable_steps:
  assumes "seqlock_step\<^sup>*\<^sup>* s s'" and "seqlock_reachable s"
  shows "seqlock_reachable s'"
  using assms by (induction rule: rtranclp_induct) (auto intro: seqlock_reachable.step)

definition after_set :: "seqlock \<Rightarrow> f64 \<Rightarrow> f64 \<Rightarrow> u64 \<Rightarrow> seqlock" where
  "after_set s v raw ts = s\<lparr>cell := slot_set (cell s) v raw ts, ticks := ticks s + 2,
     committed := (v, raw, ts)\<rparr>"

lemma set_run:
  assumes "writer s = W_Idle"
  shows "seqlock_step\<^sup>*\<^sup>* s (after_set s v raw ts)"
proof -
  let ?s1 = "s\<lparr>cell := (cell s)\<lparr>slot_seq := slot_seq (cell s) + 1\<rparr>, writer := W_Begun v raw ts,
    ticks := Suc (ticks s)\<rparr>"
  let ?s2 = "?s1\<lparr>cell := (cell ?s1)\<lparr>value_bits := v\<rparr>, writer := W_Value v raw ts\<rparr>"
  let ?s3 = "?s2\<lparr>cell := (cell ?s2)\<lparr>raw_bits := raw\<rparr>, writer := W_Raw v raw ts\<rparr>"
  let ?s4 = "?s3\<lparr>cell := (cell ?s3)\<lparr>slot_timestamp := ts\<rparr>, writer := W_Stamp v raw ts\<rparr>"
  let ?s5 = "?s4\<lparr>cell := (cell ?s4)\<lparr>slot_seq := slot_seq (cell ?s4) + 1\<rparr>, writer := W_Ended,
    ticks := Suc (ticks ?s4), committed := (v, raw, ts)\<rparr>"
  let ?s6 = "?s5\<lparr>cell := (cell ?s5)\<lparr>slot_dirty := 1\<rparr>, writer := W_Idle\<rparr>"
  have "seqlock_step s ?s1" by (rule set_begin) (rule assms)
  moreover have "seqlock_step ?s1 ?s2" by (rule set_value) simp
  moreover have "seqlock_step ?s2 ?s3" by (rule set_raw) simp
  moreover have "seqlock_step ?s3 ?s4" by (rule set_stamp) simp
  moreover have "seqlock_step ?s4 ?s5" by (rule set_end) simp
  moreover have "seqlock_step ?s5 ?s6" by (rule set_dirty) simp
  ultimately have "seqlock_step\<^sup>*\<^sup>* s ?s6"
    by (meson rtranclp.rtrancl_into_rtrancl rtranclp.rtrancl_refl)
  moreover have "?s6 = after_set s v raw ts"
    using assms by (simp add: after_set_def slot_set_def Let_def)
  ultimately show ?thesis by simp
qed

definition load_steps :: "seqlock \<Rightarrow> nat \<Rightarrow> nat \<Rightarrow> seqlock" where
  "load_steps s i m =
     s\<lparr>readers := (readers s)(i := ((reader_next (cell s) (ticks s)) ^^ m) (readers s i))\<rparr>"

lemma funpow_small:
  "(f ^^ 2) x = f (f x)" "(f ^^ 4) x = f (f (f (f x)))" "(f ^^ 5) x = f (f (f (f (f x))))"
  by (simp_all add: numeral_eq_Suc)

lemma load_steps_run: "seqlock_step\<^sup>*\<^sup>* s (load_steps s i m)"
proof (induction m)
  case 0
  then show ?case by (simp add: load_steps_def)
next
  case (Suc m)
  have "seqlock_step (load_steps s i m) (load_steps s i (Suc m))"
    using load_step [of "load_steps s i m" i] by (simp add: load_steps_def)
  with Suc show ?case by (rule rtranclp.rtrancl_into_rtrancl)
qed

lemma load_run_at_rest:
  assumes "slot_at_rest (cell s)" and "readers s i = R_Try k"
  shows "readers (load_steps s i 5) i = R_Done (try_load_consistent (cell s))"
  using assms
  by (simp add: load_steps_def funpow_small try_load_eq slot_at_rest_def even_word_and_1
        contents_def)

lemma repeated_set_run:
  assumes "seqlock_reachable s" and "writer s = W_Idle"
  shows "\<exists>s'. seqlock_reachable s' \<and> writer s' = W_Idle \<and> readers s' = readers s \<and>
    ticks s' = ticks s + 2 * Suc n \<and> contents (cell s') = (v, raw, ts) \<and>
    committed s' = (v, raw, ts)"
proof (induction n)
  case 0
  then show ?case
    using assms set_run [of s v raw ts] reachable_steps [of s "after_set s v raw ts"]
    by (intro exI [of _ "after_set s v raw ts"]) (simp add: after_set_def)
next
  case (Suc n)
  then obtain s' where s': "seqlock_reachable s'" "writer s' = W_Idle" "readers s' = readers s"
    "ticks s' = ticks s + 2 * Suc n" by blast
  then show ?case
    using set_run [of s' v raw ts] reachable_steps [of s' "after_set s' v raw ts"]
    by (intro exI [of _ "after_set s' v raw ts"]) (simp add: after_set_def)
qed

text \<open>A state in which reader 0 is about to make its first access.\<close>

definition first_load :: seqlock where
  "first_load = seqlock_init\<lparr>readers := (readers seqlock_init)(0 := R_Try 0)\<rparr>"

lemma first_load_reachable: "seqlock_reachable first_load"
  unfolding first_load_def
  by (rule seqlock_reachable.step [OF seqlock_reachable.init load_start])
    (simp add: seqlock_init_def)

lemmas first_load_simps = load_steps_def first_load_def seqlock_init_def slot_new_def funpow_small

subsection \<open>What a successful read returns\<close>

lemma tick_unchanged:
  assumes "(word_of_nat b :: u32) = word_of_nat n" and "b \<le> n" and "n - b < 2 ^ 32"
  shows "b = n"
proof -
  have "n mod 2 ^ 32 = b mod 2 ^ 32"
    using arg_cong [OF assms(1), of unat] by (simp add: unat_of_nat)
  then have "2 ^ 32 dvd n - b"
    using assms(2) by (simp add: mod_eq_dvd_iff_nat)
  then show ?thesis
    using assms(2,3) by (cases "n - b = 0") (auto dest: nat_dvd_not_less)
qed

lemma successful_load_current:
  assumes "seqlock_inv s" and "readers s i = R_Stamp k b s1 v raw ts"
    and "ticks s - b < 2 ^ 32" and "s1 = slot_seq (cell s)"
  shows "(v, raw, ts) = committed s \<and> even (ticks s) \<and> b = ticks s"
proof -
  have ok: "reader_ok (cell s) (ticks s) (R_Stamp k b s1 v raw ts)"
    using assms(1,2) unfolding seqlock_inv_def by metis
  with assms have "b = ticks s"
    by (intro tick_unchanged) (auto simp: seqlock_inv_def)
  with ok assms(1) show ?thesis
    by (cases "writer s") (auto simp: seqlock_inv_def)
qed

text \<open>
  C1: a read is never torn.  Whenever a reader's last access turns its attempt into a
  result, and the sequence cell has been incremented fewer than \<open>2 ^ 32\<close> times since that
  attempt began, the result is the triple of the last completed \<open>set\<close> at that moment and no
  write was in progress.
\<close>

theorem seqlock_read_is_committed:
  assumes "seqlock_reachable s"
    and "readers s i = R_Stamp k b s1 v raw ts" and "ticks s - b < 2 ^ 32"
    and "reader_next (cell s) (ticks s) (readers s i) = R_Done (Some r)"
  shows "r = committed s \<and> r = contents (cell s) \<and> even (ticks s)"
proof -
  have "s1 = slot_seq (cell s) \<and> r = (v, raw, ts)"
    using assms(2,4) by (cases k) (auto split: if_splits)
  with successful_load_current [OF seqlock_reachable_inv [OF assms(1)] assms(2,3)]
    seqlock_reachable_inv [OF assms(1)]
  show ?thesis by (cases "writer s") (auto simp: seqlock_inv_def)
qed

theorem seqlock_read_is_committed_witness:
  "\<exists>r. readers (load_steps first_load 0 5) 0 = R_Done (Some r) \<and>
     r = committed (load_steps first_load 0 4)"
  using seqlock_read_is_committed
      [OF reachable_steps [OF load_steps_run first_load_reachable, of 0 4],
        of 0 0 0 0 SLOT_UNWRITTEN_BITS SLOT_UNWRITTEN_BITS 0
          "(SLOT_UNWRITTEN_BITS, SLOT_UNWRITTEN_BITS, 0)"]
  by (simp add: first_load_simps)

text \<open>
  C2: the bound in the previous property is exact.  With \<open>2 ^ 31\<close> complete writes inside one
  attempt the 32-bit sequence returns to its starting value and the reader accepts a
  triple that mixes two writes.
\<close>

theorem seqlock_wrap_accepts_torn_read:
  "\<exists>s k b s1 v raw ts. seqlock_reachable s \<and> readers s 0 = R_Stamp k b s1 v raw ts \<and>
     ticks s - b = 2 ^ 32 \<and> committed s = (1, 1, 1) \<and>
     reader_next (cell s) (ticks s) (readers s 0) = R_Done (Some (SLOT_UNWRITTEN_BITS, 1, 1))"
proof -
  let ?b = "load_steps first_load 0 2"
  note b = reachable_steps [OF load_steps_run first_load_reachable, of 0 2]
  have b':  "writer ?b = W_Idle" "ticks ?b = 0"
    "readers ?b 0 = R_Value 0 0 0 SLOT_UNWRITTEN_BITS"
    by (simp_all add: first_load_simps)
  obtain c where c: "seqlock_reachable c" "readers c = readers ?b" "ticks c = 2 ^ 32"
    "contents (cell c) = (1, 1, 1)" "committed c = (1, 1, 1)"
    using repeated_set_run [OF b b'(1), of "2 ^ 31 - 1" 1 1 1] b'(2) by auto
  have "slot_seq (cell c) = 0"
    using seqlock_reachable_inv [OF c(1)] c(3) by (simp add: seqlock_inv_def)
  with c b'(3) show ?thesis
    using reachable_steps [OF load_steps_run c(1), of 0 2]
    by (intro exI [of _ "load_steps c 0 2"] exI [of _ 0] exI [of _ "0::u32"] exI [of _ SLOT_UNWRITTEN_BITS]
          exI [of _ "1::u64"])
      (simp add: load_steps_def funpow_small contents_def)
qed

text \<open>
  C3: progress.  A reader about to attempt a load while no write is in progress, and that
  is not interrupted, returns the last committed triple after five accesses.
\<close>

theorem seqlock_undisturbed_load_completes:
  assumes "seqlock_reachable s" and "writer s = W_Idle" and "readers s i = R_Try k"
  shows "seqlock_step\<^sup>*\<^sup>* s (load_steps s i 5) \<and>
    readers (load_steps s i 5) i = R_Done (Some (committed s))"
proof -
  have "slot_at_rest (cell s) \<and> contents (cell s) = committed s"
    using seqlock_reachable_inv [OF assms(1)] assms(2)
    by (simp add: seqlock_inv_def slot_at_rest_def)
  then show ?thesis
    using load_steps_run load_run_at_rest [OF _ assms(3)] by (simp add: try_load_eq)
qed

theorem seqlock_undisturbed_load_completes_witness:
  "readers (load_steps first_load 0 5) 0 = R_Done (Some (contents slot_new))"
  using seqlock_undisturbed_load_completes [OF first_load_reachable, of 0 0]
  by (simp add: first_load_def seqlock_init_def)

end
