(* ===== verification/Slot_Bitmap.thy ===== *)
theory Slot_Bitmap
  imports Edge_Prelude
begin

section \<open>The slot allocator (aether-dataplane/src/core/bitmap.rs)\<close>

text \<open>
  \<open>SlotBitmap\<close> owns its words and counts in \<open>usize\<close>; \<open>SlotBitmapView\<close> works on a header and
  words in shared memory and counts in \<open>u32\<close>.  Both are modelled as built with overflow
  checks and debug assertions: a failing \<open>debug_assert!\<close> or an underflowing subtraction is
  the outer \<open>None\<close>.  The atomic \<open>fetch_add\<close> and \<open>fetch_sub\<close> of the view wrap.  What both promise
  is the locale \<open>slot_allocator\<close>; the view is also shown to refine the owned bitmap.
\<close>

record slot_bitmap =
  sb_total :: nat
  sb_allocated :: nat
  sb_hint :: nat
  sb_words :: "u64 list"

record bitmap_header =
  total_slots :: u32
  allocated_count :: u32
  first_free_hint :: u32

record bitmap_view =
  view_header :: bitmap_header
  view_words :: "u64 list"

record slot_allocation =
  base_slot :: nat
  block_count :: nat

record bitmap_stats =
  stats_total :: nat
  stats_allocated :: nat
  stats_free :: nat
  stats_pct :: nat

definition header_init :: "u32 \<Rightarrow> bitmap_header" where
  "header_init tot = \<lparr>total_slots = tot, allocated_count = 0, first_free_hint = 0\<rparr>"

definition bitmap_data_size :: "nat \<Rightarrow> nat" where
  "bitmap_data_size tot = div_ceil tot 64 * 8"

definition total_bitmap_size :: "nat \<Rightarrow> nat" where
  "total_bitmap_size tot = 64 + bitmap_data_size tot"

definition checked_sub :: "nat \<Rightarrow> nat \<Rightarrow> nat option" where
  "checked_sub a b = (if b \<le> a then Some (a - b) else None)"

text \<open>
  The loop of \<open>find_contiguous_free\<close>, over the slots still to visit, with its counters
  \<open>consecutive\<close> and \<open>block_start\<close>.
\<close>

fun scan_free :: "(nat \<Rightarrow> bool) \<Rightarrow> nat \<Rightarrow> nat \<Rightarrow> nat \<Rightarrow> nat list \<Rightarrow> nat option" where
  "scan_free allocated count consecutive block_start [] = None"
| "scan_free allocated count consecutive block_start (slot # slots) =
     (if allocated slot then scan_free allocated count 0 (slot + 1) slots
      else if consecutive + 1 \<ge> count then Some block_start
      else scan_free allocated count (consecutive + 1) block_start slots)"

subsection \<open>The owned bitmap\<close>

definition sb_new :: "nat \<Rightarrow> slot_bitmap" where
  "sb_new tot = \<lparr>sb_total = tot, sb_allocated = 0, sb_hint = 0,
     sb_words = replicate (div_ceil tot 64) 0\<rparr>"

definition sb_free_count :: "slot_bitmap \<Rightarrow> nat option" where
  "sb_free_count b = checked_sub (sb_total b) (sb_allocated b)"

definition sb_is_allocated :: "slot_bitmap \<Rightarrow> nat \<Rightarrow> bool" where
  "sb_is_allocated b slot = (if slot \<ge> sb_total b then False else test_slot_bit (sb_words b) slot)"

definition sb_find_contiguous_free :: "slot_bitmap \<Rightarrow> nat \<Rightarrow> nat \<Rightarrow> nat option" where
  "sb_find_contiguous_free b start count =
     scan_free (sb_is_allocated b) count 0 start [start..<sb_total b]"

definition sb_mark_allocated :: "slot_bitmap \<Rightarrow> nat \<Rightarrow> nat \<Rightarrow> slot_bitmap" where
  "sb_mark_allocated b base count =
     (let b = b\<lparr>sb_words := foldl set_slot_bit (sb_words b) [base..<base + count],
                sb_allocated := sb_allocated b + count\<rparr>;
          next_hint = base + count
      in if next_hint < sb_total b then b\<lparr>sb_hint := next_hint\<rparr> else b)"

definition sb_alloc_contiguous ::
    "slot_bitmap \<Rightarrow> nat \<Rightarrow> (slot_allocation option \<times> slot_bitmap) option" where
  "sb_alloc_contiguous b count =
     (if count = 0 then Some (None, b)
      else case sb_free_count b of
        None \<Rightarrow> None
      | Some free \<Rightarrow>
          if count > free then Some (None, b)
          else
            let start_pos = min (sb_hint b) (sb_total b - count) in
            case sb_find_contiguous_free b start_pos count of
              Some base \<Rightarrow>
                Some (Some \<lparr>base_slot = base, block_count = count\<rparr>, sb_mark_allocated b base count)
            | None \<Rightarrow>
                if start_pos > 0 then
                  (case sb_find_contiguous_free b 0 count of
                     Some base \<Rightarrow> Some (Some \<lparr>base_slot = base, block_count = count\<rparr>,
                                     sb_mark_allocated b base count)
                   | None \<Rightarrow> Some (None, b))
                else Some (None, b))"

definition sb_free :: "slot_bitmap \<Rightarrow> nat \<Rightarrow> nat \<Rightarrow> slot_bitmap option" where
  "sb_free b base count =
     (if \<not> base + count \<le> sb_total b then None
      else
        let words = foldl clear_slot_bit (sb_words b) [base..<base + count] in
        case checked_sub (sb_allocated b) count of
          None \<Rightarrow> None
        | Some allocated \<Rightarrow>
            let b = b\<lparr>sb_words := words, sb_allocated := allocated\<rparr> in
            Some (if base < sb_hint b then b\<lparr>sb_hint := base\<rparr> else b))"

definition utilization :: "nat \<Rightarrow> nat \<Rightarrow> nat" where
  "utilization allocated tot = (if tot > 0 then (allocated * 100) div tot else 0)"

definition sb_stats :: "slot_bitmap \<Rightarrow> bitmap_stats option" where
  "sb_stats b =
     (case sb_free_count b of
        None \<Rightarrow> None
      | Some free \<Rightarrow> Some \<lparr>stats_total = sb_total b, stats_allocated = sb_allocated b,
          stats_free = free, stats_pct = utilization (sb_allocated b) (sb_total b)\<rparr>)"

subsection \<open>The view on shared memory\<close>

definition view_total :: "bitmap_view \<Rightarrow> nat" where
  "view_total v = unat (total_slots (view_header v))"

definition view_allocated :: "bitmap_view \<Rightarrow> nat" where
  "view_allocated v = unat (allocated_count (view_header v))"

text \<open>\<open>from_raw\<close> takes as many words from the mapping as the header calls for.\<close>

definition view_from_raw :: "bitmap_header \<Rightarrow> u64 list \<Rightarrow> bitmap_view option" where
  "view_from_raw h memory =
     (let word_count = div_ceil (unat (total_slots h)) 64 in
      if word_count \<le> length memory
      then Some \<lparr>view_header = h, view_words = take word_count memory\<rparr> else None)"

definition view_free_count :: "bitmap_view \<Rightarrow> nat option" where
  "view_free_count v = checked_sub (view_total v) (view_allocated v)"

definition view_is_allocated :: "bitmap_view \<Rightarrow> nat \<Rightarrow> bool" where
  "view_is_allocated v slot =
     (if slot \<ge> view_total v then False else test_slot_bit (view_words v) slot)"

definition view_find_contiguous_free :: "bitmap_view \<Rightarrow> nat \<Rightarrow> nat \<Rightarrow> nat option" where
  "view_find_contiguous_free v start count =
     scan_free (view_is_allocated v) count 0 start [start..<view_total v]"

definition view_mark_allocated :: "bitmap_view \<Rightarrow> nat \<Rightarrow> nat \<Rightarrow> bitmap_view" where
  "view_mark_allocated v base count =
     (let h = view_header v;
          words = foldl set_slot_bit (view_words v) [base..<base + count];
          h = h\<lparr>allocated_count := allocated_count h + word_of_nat count\<rparr>;
          next_hint = base + count;
          h = (if next_hint < view_total v then h\<lparr>first_free_hint := word_of_nat next_hint\<rparr> else h)
      in v\<lparr>view_header := h, view_words := words\<rparr>)"

definition view_alloc_contiguous ::
    "bitmap_view \<Rightarrow> nat \<Rightarrow> (slot_allocation option \<times> bitmap_view) option" where
  "view_alloc_contiguous v count =
     (if count = 0 then Some (None, v)
      else
        let tot = view_total v in
        case checked_sub tot (view_allocated v) of
          None \<Rightarrow> None
        | Some free \<Rightarrow>
            if count > free then Some (None, v)
            else
              let hint = unat (first_free_hint (view_header v));
                  start_pos = min hint (tot - count) in
              case view_find_contiguous_free v start_pos count of
                Some base \<Rightarrow> Some (Some \<lparr>base_slot = base, block_count = count\<rparr>,
                                view_mark_allocated v base count)
              | None \<Rightarrow>
                  if start_pos > 0 then
                    (case view_find_contiguous_free v 0 count of
                       Some base \<Rightarrow> Some (Some \<lparr>base_slot = base, block_count = count\<rparr>,
                                       view_mark_allocated v base count)
                     | None \<Rightarrow> Some (None, v))
                  else Some (None, v))"

fun view_free_loop :: "u64 list \<Rightarrow> nat list \<Rightarrow> u64 list option" where
  "view_free_loop words [] = Some words"
| "view_free_loop words (slot # slots) =
     (if \<not> test_slot_bit words slot then None
      else view_free_loop (clear_slot_bit words slot) slots)"

definition view_free :: "bitmap_view \<Rightarrow> nat \<Rightarrow> nat \<Rightarrow> bitmap_view option" where
  "view_free v base count =
     (if \<not> base + count \<le> view_total v then None
      else case view_free_loop (view_words v) [base..<base + count] of
        None \<Rightarrow> None
      | Some words \<Rightarrow>
          let h = view_header v;
              h = h\<lparr>allocated_count := allocated_count h - word_of_nat count\<rparr>;
              current_hint = unat (first_free_hint h);
              h = (if base < current_hint then h\<lparr>first_free_hint := word_of_nat base\<rparr> else h)
          in Some (v\<lparr>view_header := h, view_words := words\<rparr>))"

definition view_init_all_free :: "bitmap_view \<Rightarrow> bitmap_view" where
  "view_init_all_free v =
     v\<lparr>view_words := map (\<lambda>_. 0) (view_words v),
       view_header := (view_header v)\<lparr>allocated_count := 0, first_free_hint := 0\<rparr>\<rparr>"

definition view_stats :: "bitmap_view \<Rightarrow> bitmap_stats option" where
  "view_stats v =
     (case checked_sub (view_total v) (view_allocated v) of
        None \<Rightarrow> None
      | Some free \<Rightarrow> Some \<lparr>stats_total = view_total v, stats_allocated = view_allocated v,
          stats_free = free, stats_pct = utilization (view_allocated v) (view_total v)\<rparr>)"

subsection \<open>The search loop\<close>

definition free_block :: "(nat \<Rightarrow> bool) \<Rightarrow> nat \<Rightarrow> nat \<Rightarrow> bool" where
  "free_block allocated count b \<longleftrightarrow> (\<forall>j. b \<le> j \<and> j < b + count \<longrightarrow> \<not> allocated j)"

lemma free_block_0 [simp]: "free_block allocated 0 b"
  by (auto simp: free_block_def)

lemma free_block_no_taken:
  "allocated slot \<Longrightarrow> b \<le> slot \<Longrightarrow> free_block allocated count b \<Longrightarrow> b + count \<le> slot"
  unfolding free_block_def by (meson linorder_not_less)

lemma scan_free_spec:
  assumes "block_start + consecutive = slot" and "consecutive < count" and "slot \<le> limit"
    and "free_block allocated consecutive block_start"
  shows "case scan_free allocated count consecutive block_start [slot..<limit] of
      Some b \<Rightarrow> block_start \<le> b \<and> b + count \<le> limit \<and> free_block allocated count b \<and>
        (\<forall>b'. block_start \<le> b' \<and> b' < b \<longrightarrow> \<not> free_block allocated count b')
    | None \<Rightarrow> \<forall>b'. block_start \<le> b' \<and> b' + count \<le> limit \<longrightarrow> \<not> free_block allocated count b'"
  using assms
proof (induction "limit - slot" arbitrary: slot consecutive block_start)
  case 0
  then show ?case by auto
next
  case (Suc n)
  then have upt: "[slot..<limit] = slot # [Suc slot..<limit]" and n: "n = limit - Suc slot"
    by (auto simp: upt_rec)
  consider (taken) "allocated slot" | (found) "\<not> allocated slot" "count \<le> consecutive + 1"
    | (go) "\<not> allocated slot" "consecutive + 1 < count" by linarith
  then show ?case
  proof cases
    case taken
    have "case scan_free allocated count 0 (Suc slot) [Suc slot..<limit] of
        Some b \<Rightarrow> Suc slot \<le> b \<and> b + count \<le> limit \<and> free_block allocated count b \<and>
          (\<forall>b'. Suc slot \<le> b' \<and> b' < b \<longrightarrow> \<not> free_block allocated count b')
      | None \<Rightarrow> \<forall>b'. Suc slot \<le> b' \<and> b' + count \<le> limit \<longrightarrow> \<not> free_block allocated count b'"
      using Suc.prems Suc.hyps(2) n by (intro Suc.hyps(1)) (auto simp: free_block_def)
    moreover have "\<not> free_block allocated count b'" if "block_start \<le> b'" "b' < Suc slot" for b'
      using free_block_no_taken [of allocated slot b' count] taken that Suc.prems(1,2) by linarith
    ultimately show ?thesis
      using taken Suc.prems(1) by (auto simp: upt split: option.splits) (meson not_less)+
  next
    case found
    then have c: "count = Suc consecutive" using Suc.prems(2) by simp
    have "free_block allocated (Suc consecutive) block_start"
      using found(1) Suc.prems(1,4) by (auto simp: free_block_def less_Suc_eq)
    then show ?thesis
      using found Suc.prems Suc.hyps(2) by (auto simp: upt c)
  next
    case go
    have "free_block allocated (Suc consecutive) block_start"
      using go(1) Suc.prems(1,4) by (auto simp: free_block_def less_Suc_eq)
    then show ?thesis
      using go Suc.prems Suc.hyps(2) n Suc.hyps(1) [of "Suc slot" block_start "Suc consecutive"]
      by (simp add: upt)
  qed
qed

lemma scan_free_SomeD:
  assumes "scan_free allocated count 0 start [start..<limit] = Some b"
    and "0 < count" and "start \<le> limit"
  shows "start \<le> b" and "b + count \<le> limit" and "free_block allocated count b"
  using scan_free_spec [of start 0 start count limit allocated] assms by auto

lemma scan_free_NoneD:
  assumes "scan_free allocated count 0 start [start..<limit] = None"
    and "0 < count" and "start \<le> limit" and "start \<le> b" and "b + count \<le> limit"
  shows "\<not> free_block allocated count b"
  using scan_free_spec [of start 0 start count limit allocated] assms by auto

lemma slot_bits_foldl_set:
  "\<forall>s\<in>set ss. s div 64 < length ws \<Longrightarrow>
     slot_bits (foldl set_slot_bit ws ss) = slot_bits ws \<union> set ss"
  by (induction ss arbitrary: ws) auto

lemma slot_bits_foldl_clear:
  "\<forall>s\<in>set ss. s div 64 < length ws \<Longrightarrow>
     slot_bits (foldl clear_slot_bit ws ss) = slot_bits ws - set ss"
  by (induction ss arbitrary: ws) auto

lemma length_foldl_set [simp]: "length (foldl set_slot_bit ws ss) = length ws"
  by (induction ss arbitrary: ws) auto

lemma length_foldl_clear [simp]: "length (foldl clear_slot_bit ws ss) = length ws"
  by (induction ss arbitrary: ws) auto

subsection \<open>The invariant of the owned bitmap\<close>

definition sb_slots :: "slot_bitmap \<Rightarrow> nat set" where
  "sb_slots b = slot_bits (sb_words b)"

definition sb_wf :: "slot_bitmap \<Rightarrow> bool" where
  "sb_wf b \<longleftrightarrow> length (sb_words b) = div_ceil (sb_total b) 64 \<and> sb_slots b \<subseteq> {..<sb_total b} \<and>
     sb_allocated b = card (sb_slots b) \<and> sb_hint b \<le> sb_total b"

lemma finite_sb_slots [simp]: "finite (sb_slots b)"
  by (simp add: sb_slots_def)

lemma sb_new_wf [simp]: "sb_wf (sb_new n)" and sb_new_slots [simp]: "sb_slots (sb_new n) = {}"
  and sb_new_total [simp]: "sb_total (sb_new n) = n"
  by (simp_all add: sb_wf_def sb_new_def sb_slots_def)

lemma sb_slots_le: "sb_wf b \<Longrightarrow> sb_allocated b \<le> sb_total b"
  using card_mono [of "{..<sb_total b}" "sb_slots b"] by (simp add: sb_wf_def)

lemma sb_free_count_wf [simp]: "sb_wf b \<Longrightarrow> sb_free_count b = Some (sb_total b - card (sb_slots b))"
  using sb_slots_le [of b] by (simp add: sb_free_count_def checked_sub_def sb_wf_def)

lemma sb_is_allocated_iff: "sb_wf b \<Longrightarrow> sb_is_allocated b s \<longleftrightarrow> s \<in> sb_slots b"
  by (auto simp: sb_is_allocated_def sb_wf_def test_slot_bit_iff div_ceil_64_bound sb_slots_def)

lemma sb_mark_fields [simp]:
  "sb_total (sb_mark_allocated b base count) = sb_total b"
  "sb_allocated (sb_mark_allocated b base count) = sb_allocated b + count"
  "length (sb_words (sb_mark_allocated b base count)) = length (sb_words b)"
  by (simp_all add: sb_mark_allocated_def Let_def)

lemma block_words:
  assumes "sb_wf b" and "base + count \<le> sb_total b"
  shows "\<forall>s\<in>set [base..<base + count]. s div 64 < length (sb_words b)"
  using assms by (auto simp: sb_wf_def div_ceil_64_bound)

lemma sb_mark_slots:
  assumes "sb_wf b" and "base + count \<le> sb_total b"
  shows "sb_slots (sb_mark_allocated b base count) = sb_slots b \<union> {base..<base + count}"
  using slot_bits_foldl_set [OF block_words [OF assms]]
  by (simp add: sb_slots_def sb_mark_allocated_def Let_def)

lemma sb_mark_wf [inv_intros]:
  assumes "sb_wf b" and "base + count \<le> sb_total b" and "sb_slots b \<inter> {base..<base + count} = {}"
  shows "sb_wf (sb_mark_allocated b base count)"
proof -
  have "card (sb_slots b \<union> {base..<base + count}) = sb_allocated b + count"
    using assms by (simp add: card_Un_disjoint sb_wf_def)
  then show ?thesis
    using assms sb_mark_slots [OF assms(1,2)]
    by (auto simp: sb_wf_def) (auto simp: sb_mark_allocated_def Let_def)
qed

definition block :: "slot_allocation \<Rightarrow> nat set" where
  "block a = {base_slot a..<base_slot a + block_count a}"

definition fits :: "nat set \<Rightarrow> nat \<Rightarrow> nat \<Rightarrow> bool" where
  "fits used cap n \<longleftrightarrow> (\<exists>b. b + n \<le> cap \<and> used \<inter> {b..<b + n} = {})"

lemma free_block_sb_iff:
  "sb_wf b \<Longrightarrow> free_block (sb_is_allocated b) n base \<longleftrightarrow> sb_slots b \<inter> {base..<base + n} = {}"
  by (auto simp: free_block_def sb_is_allocated_iff)

lemma fits_le_free:
  assumes "fits (sb_slots b) (sb_total b) n" and "sb_wf b"
  shows "n \<le> sb_total b - card (sb_slots b)"
proof -
  obtain base where base: "base + n \<le> sb_total b" "sb_slots b \<inter> {base..<base + n} = {}"
    using assms(1) by (auto simp: fits_def)
  have "card (sb_slots b \<union> {base..<base + n}) \<le> card {..<sb_total b}"
    using assms(2) base(1) by (intro card_mono) (auto simp: sb_wf_def)
  then show ?thesis
    using base(2) by (simp add: card_Un_disjoint)
qed

lemma sb_find_SomeD:
  assumes "sb_find_contiguous_free b start n = Some base" and "sb_wf b" and "0 < n"
    and "start \<le> sb_total b"
  shows "start \<le> base" and "base + n \<le> sb_total b" and "sb_slots b \<inter> {base..<base + n} = {}"
  using scan_free_SomeD [OF assms(1) [unfolded sb_find_contiguous_free_def] assms(3,4)] assms(2)
  by (simp_all add: free_block_sb_iff)

lemma sb_find_0_NoneD:
  assumes "sb_find_contiguous_free b 0 n = None" and "sb_wf b" and "0 < n"
  shows "\<not> fits (sb_slots b) (sb_total b) n"
  using scan_free_NoneD [OF assms(1) [unfolded sb_find_contiguous_free_def] assms(3)] assms(2)
  by (auto simp: fits_def free_block_sb_iff)

lemma sb_alloc_cases:
  assumes "sb_wf b"
  obtains (full) "sb_alloc_contiguous b n = Some (None, b)"
      and "n = 0 \<or> \<not> fits (sb_slots b) (sb_total b) n"
  | (got) base where "sb_alloc_contiguous b n =
        Some (Some \<lparr>base_slot = base, block_count = n\<rparr>, sb_mark_allocated b base n)"
      and "0 < n" and "base + n \<le> sb_total b" and "sb_slots b \<inter> {base..<base + n} = {}"
proof -
  let ?start = "min (sb_hint b) (sb_total b - n)"
  consider "n = 0" | "0 < n" "sb_total b - card (sb_slots b) < n"
    | (first) base where "0 < n" "n \<le> sb_total b - card (sb_slots b)"
        "sb_find_contiguous_free b ?start n = Some base"
    | (wrap) base where "0 < n" "n \<le> sb_total b - card (sb_slots b)" "0 < ?start"
        "sb_find_contiguous_free b ?start n = None" "sb_find_contiguous_free b 0 n = Some base"
    | (none) "0 < n" "n \<le> sb_total b - card (sb_slots b)"
        "sb_find_contiguous_free b ?start n = None" "sb_find_contiguous_free b 0 n = None"
    by (cases "sb_find_contiguous_free b ?start n"; cases "sb_find_contiguous_free b 0 n";
        cases "0 < ?start"; auto simp: not_less) (meson not_le neq0_conv)+
  then show ?thesis
  proof cases
    case first
    with sb_find_SomeD [OF first(3) assms first(1)] show ?thesis
      using assms by (intro got [of base]) (simp_all add: sb_alloc_contiguous_def Let_def)
  next
    case wrap
    with sb_find_SomeD [OF wrap(5) assms wrap(1)] show ?thesis
      using assms by (intro got [of base]) (simp_all add: sb_alloc_contiguous_def Let_def)
  next
    case none
    with sb_find_0_NoneD [OF none(4) assms none(1)] show ?thesis
      using assms by (intro full) (simp_all add: sb_alloc_contiguous_def Let_def)
  qed (use full assms fits_le_free [OF _ assms, of n] in
        \<open>auto simp: sb_alloc_contiguous_def\<close>)
qed

lemma sb_free_spec:
  assumes "sb_wf b" and "{base..<base + n} \<subseteq> sb_slots b" and "base + n \<le> sb_total b"
  shows "\<exists>b'. sb_free b base n = Some b' \<and> sb_wf b' \<and> sb_total b' = sb_total b \<and>
    sb_slots b' = sb_slots b - {base..<base + n}"
proof -
  let ?w = "foldl clear_slot_bit (sb_words b) [base..<base + n]"
  have w: "slot_bits ?w = sb_slots b - {base..<base + n}"
    using slot_bits_foldl_clear [OF block_words [OF assms(1,3)]] by (simp add: sb_slots_def)
  have "n \<le> card (sb_slots b)"
    using card_mono [OF finite_sb_slots assms(2)] by simp
  moreover have "card (slot_bits ?w) = card (sb_slots b) - n"
    using assms(2) by (simp add: w card_Diff_subset)
  ultimately show ?thesis
    using assms w by (auto simp: sb_free_def checked_sub_def Let_def sb_wf_def sb_slots_def)
qed

subsection \<open>The contract of an allocator and its clients\<close>

datatype alloc_op = Alloc nat | Release nat

text \<open>
  A client holds the allocations it was given.  \<open>Release i\<close> returns the \<open>i\<close>-th one; a client
  that has no such allocation does nothing.
\<close>

fun ledger_step ::
    "('b \<Rightarrow> nat \<Rightarrow> (slot_allocation option \<times> 'b) option) \<Rightarrow> ('b \<Rightarrow> nat \<Rightarrow> nat \<Rightarrow> 'b option) \<Rightarrow>
     alloc_op \<Rightarrow> 'b \<times> slot_allocation list \<Rightarrow> ('b \<times> slot_allocation list) option" where
  "ledger_step alloc free (Alloc n) (b, live) =
     (case alloc b n of
        None \<Rightarrow> None
      | Some (None, b') \<Rightarrow> Some (b', live)
      | Some (Some a, b') \<Rightarrow> Some (b', a # live))"
| "ledger_step alloc free (Release i) (b, live) =
     (if i < length live then
        (case free b (base_slot (live ! i)) (block_count (live ! i)) of
           None \<Rightarrow> None
         | Some b' \<Rightarrow> Some (b', take i live @ drop (Suc i) live))
      else Some (b, live))"

fun ledger_run ::
    "('b \<Rightarrow> nat \<Rightarrow> (slot_allocation option \<times> 'b) option) \<Rightarrow> ('b \<Rightarrow> nat \<Rightarrow> nat \<Rightarrow> 'b option) \<Rightarrow>
     alloc_op list \<Rightarrow> 'b \<times> slot_allocation list \<Rightarrow> ('b \<times> slot_allocation list) option" where
  "ledger_run alloc free [] st = Some st"
| "ledger_run alloc free (p # ps) st =
     (case ledger_step alloc free p st of
        None \<Rightarrow> None | Some st' \<Rightarrow> ledger_run alloc free ps st')"

fun disjoint_blocks :: "slot_allocation list \<Rightarrow> bool" where
  "disjoint_blocks [] \<longleftrightarrow> True"
| "disjoint_blocks (a # as) \<longleftrightarrow> block a \<inter> (\<Union>x\<in>set as. block x) = {} \<and> disjoint_blocks as"

lemma disjoint_blocks_remove:
  "disjoint_blocks (xs @ a # ys) \<Longrightarrow>
     disjoint_blocks (xs @ ys) \<and> block a \<inter> (\<Union>x\<in>set (xs @ ys). block x) = {}"
  by (induction xs) (auto 0 3)

locale slot_allocator =
  fixes alloc :: "'b \<Rightarrow> nat \<Rightarrow> (slot_allocation option \<times> 'b) option"
    and free :: "'b \<Rightarrow> nat \<Rightarrow> nat \<Rightarrow> 'b option"
    and slots :: "'b \<Rightarrow> nat set"
    and capacity :: "'b \<Rightarrow> nat"
    and ok :: "'b \<Rightarrow> bool"
  assumes alloc_total: "ok b \<Longrightarrow> \<exists>r. alloc b n = Some r"
    and alloc_None: "ok b \<Longrightarrow> alloc b n = Some (None, b') \<Longrightarrow>
      b' = b \<and> (n = 0 \<or> \<not> fits (slots b) (capacity b) n)"
    and alloc_Some: "ok b \<Longrightarrow> alloc b n = Some (Some a, b') \<Longrightarrow>
      block_count a = n \<and> 0 < n \<and> base_slot a + n \<le> capacity b \<and> slots b \<inter> block a = {} \<and>
      slots b' = slots b \<union> block a \<and> capacity b' = capacity b \<and> ok b'"
    and free_block_ok: "ok b \<Longrightarrow> {base..<base + n} \<subseteq> slots b \<Longrightarrow> base + n \<le> capacity b \<Longrightarrow>
      \<exists>b'. free b base n = Some b' \<and> slots b' = slots b - {base..<base + n} \<and>
        capacity b' = capacity b \<and> ok b'"
begin

definition ledger_ok :: "nat \<Rightarrow> 'b \<times> slot_allocation list \<Rightarrow> bool" where
  "ledger_ok cap st \<longleftrightarrow> ok (fst st) \<and> capacity (fst st) = cap \<and> disjoint_blocks (snd st) \<and>
     slots (fst st) = (\<Union>a\<in>set (snd st). block a) \<and>
     (\<forall>a\<in>set (snd st). 0 < block_count a \<and> base_slot a + block_count a \<le> cap)"

lemma alloc_iff_fits:
  assumes "ok b"
  shows "(\<exists>a b'. alloc b n = Some (Some a, b')) \<longleftrightarrow> 0 < n \<and> fits (slots b) (capacity b) n"
proof -
  obtain r b' where "alloc b n = Some (r, b')" using alloc_total [OF assms] by fast
  then show ?thesis
    using alloc_None [OF assms, of n b'] alloc_Some [OF assms, of n _ b']
    by (cases r) (auto simp: fits_def block_def)
qed

lemma ledger_step_ok:
  assumes "ledger_ok cap (b, live)"
  shows "\<exists>st'. ledger_step alloc free p (b, live) = Some st' \<and> ledger_ok cap st'"
proof (cases p)
  case (Alloc n)
  obtain r b' where "alloc b n = Some (r, b')"
    using alloc_total [of b n] assms by (auto simp: ledger_ok_def)
  then show ?thesis
    using assms Alloc alloc_None [of b n b'] alloc_Some [of b n _ b']
    by (cases r) (auto simp: ledger_ok_def)
next
  case (Release i)
  show ?thesis
  proof (cases "i < length live")
    case True
    define a where "a = live ! i"
    then have live: "live = take i live @ a # drop (Suc i) live"
      using True by (simp add: id_take_nth_drop)
    let ?rest = "take i live @ drop (Suc i) live"
    have rest: "set live = insert a (set ?rest)" "disjoint_blocks ?rest"
        "block a \<inter> (\<Union>x\<in>set ?rest. block x) = {}"
      using disjoint_blocks_remove [of "take i live" a "drop (Suc i) live"] live assms
      by (auto simp: ledger_ok_def) (metis Un_iff insert_iff set_append list.simps(15))+
    then obtain b' where b': "free b (base_slot a) (block_count a) = Some b'"
        "slots b' = slots b - block a" "capacity b' = cap" "ok b'"
      using free_block_ok [of b "base_slot a" "block_count a"] assms
      by (auto simp: ledger_ok_def block_def)
    then have "ledger_ok cap (b', ?rest)"
      using assms rest unfolding ledger_ok_def by auto
    then show ?thesis
      using Release True b'(1) by (simp add: a_def)
  qed (use Release assms in simp)
qed

lemma ledger_run_ok:
  "ledger_ok cap st \<Longrightarrow> \<exists>st'. ledger_run alloc free ps st = Some st' \<and> ledger_ok cap st'"
proof (induction ps arbitrary: st)
  case (Cons p ps)
  then show ?case
    using ledger_step_ok [of cap "fst st" "snd st" p] by fastforce
qed simp

lemma ledger_run_disjoint:
  assumes "ok b" and "slots b = {}"
  shows "\<exists>b' live. ledger_run alloc free ps (b, []) = Some (b', live) \<and> disjoint_blocks live \<and>
    slots b' = (\<Union>a\<in>set live. block a) \<and> (\<forall>a\<in>set live. base_slot a + block_count a \<le> capacity b)"
  using ledger_run_ok [of "capacity b" "(b, [])" ps] assms by (auto simp: ledger_ok_def)

end

interpretation sb: slot_allocator sb_alloc_contiguous sb_free sb_slots sb_total sb_wf
proof (standard, goal_cases)
  case (1 b n)
  then show ?case by (elim sb_alloc_cases [of b n]) auto
next
  case (2 b n b')
  then show ?case by (auto elim: sb_alloc_cases [of b n])
next
  case (3 b n a b')
  from 3(1) show ?case
  proof (cases rule: sb_alloc_cases [where n = n])
    case (got base)
    then show ?thesis
      using 3 sb_mark_slots [OF 3(1) got(3)] sb_mark_wf [OF 3(1) got(3,4)]
      by (simp add: block_def)
  qed (use 3 in simp)
next
  case (4 b base n)
  then show ?case using sb_free_spec by fast
qed

subsection \<open>The view refines the owned bitmap\<close>

definition view_abs :: "bitmap_view \<Rightarrow> slot_bitmap" where
  "view_abs v = \<lparr>sb_total = view_total v, sb_allocated = view_allocated v,
     sb_hint = unat (first_free_hint (view_header v)), sb_words = view_words v\<rparr>"

definition view_wf :: "bitmap_view \<Rightarrow> bool" where
  "view_wf v \<longleftrightarrow> sb_wf (view_abs v)"

definition view_slots :: "bitmap_view \<Rightarrow> nat set" where
  "view_slots v = slot_bits (view_words v)"

lemma view_abs_fields [simp]:
  "sb_total (view_abs v) = view_total v" "sb_allocated (view_abs v) = view_allocated v"
  "sb_hint (view_abs v) = unat (first_free_hint (view_header v))"
  "sb_words (view_abs v) = view_words v" "sb_slots (view_abs v) = view_slots v"
  by (simp_all add: view_abs_def sb_slots_def view_slots_def)

lemma view_abs_is_allocated: "sb_is_allocated (view_abs v) = view_is_allocated v"
  by (rule ext) (simp add: sb_is_allocated_def view_is_allocated_def)

lemma view_abs_find: "sb_find_contiguous_free (view_abs v) = view_find_contiguous_free v"
  by (intro ext)
    (simp add: sb_find_contiguous_free_def view_find_contiguous_free_def view_abs_is_allocated)

lemma view_total_bound: "view_total v < 2 ^ 32"
  unfolding view_total_def by (rule unat_u32_bound)

lemma view_mark_abs:
  assumes "view_allocated v + n \<le> view_total v"
  shows "view_abs (view_mark_allocated v base n) = sb_mark_allocated (view_abs v) base n"
  using assms view_total_bound [of v]
  by (simp add: view_abs_def view_mark_allocated_def sb_mark_allocated_def Let_def view_total_def
        view_allocated_def unat_add_u32 unat_of_nat_u32)

lemma view_free_loop_eq:
  assumes "\<forall>s\<in>set ss. s div 64 < length ws" and "distinct ss"
  shows "view_free_loop ws ss =
    (if set ss \<subseteq> slot_bits ws then Some (foldl clear_slot_bit ws ss) else None)"
  using assms by (induction ss arbitrary: ws) (auto simp: test_slot_bit_iff)

lemma view_block_words:
  assumes "view_wf v" and "base + n \<le> view_total v"
  shows "\<forall>s\<in>set [base..<base + n]. s div 64 < length (view_words v)"
  using block_words [of "view_abs v" base n] assms by (simp add: view_wf_def)

lemma view_alloc_abs:
  assumes "view_wf v"
  shows "map_option (map_prod id view_abs) (view_alloc_contiguous v n) =
    sb_alloc_contiguous (view_abs v) n"
proof -
  have "view_abs (view_mark_allocated v base n) = sb_mark_allocated (view_abs v) base n"
    if "\<not> f < n" "checked_sub (view_total v) (view_allocated v) = Some f" for f base
    using that by (intro view_mark_abs) (auto simp: checked_sub_def split: if_splits)
  then show ?thesis
    by (simp add: view_alloc_contiguous_def sb_alloc_contiguous_def view_abs_find sb_free_count_def
          Let_def split: option.split)
qed

lemma view_free_panics:
  assumes "view_wf v" and "\<not> {base..<base + n} \<subseteq> view_slots v"
  shows "view_free v base n = None"
proof (cases "base + n \<le> view_total v")
  case True
  then show ?thesis
    using assms view_free_loop_eq [OF view_block_words [OF assms(1) True]]
    by (simp add: view_free_def view_slots_def)
qed (simp add: view_free_def)

lemma view_free_abs:
  assumes "view_wf v" and "{base..<base + n} \<subseteq> view_slots v"
  shows "map_option view_abs (view_free v base n) = sb_free (view_abs v) base n"
proof (cases "base + n \<le> view_total v")
  case True
  have "n \<le> card (view_slots v)"
    using card_mono [OF _ assms(2)] by (simp add: view_slots_def)
  then have "n \<le> unat (allocated_count (view_header v))"
    using assms(1) by (simp add: view_wf_def sb_wf_def view_allocated_def)
  moreover have "base < 2 ^ 32"  if "base < unat (first_free_hint (view_header v))"
    using that unat_u32_bound [of "first_free_hint (view_header v)"] by linarith
  ultimately show ?thesis
    using True assms(2) view_free_loop_eq [OF view_block_words [OF assms(1) True]]
    by (auto simp: view_free_def sb_free_def view_slots_def view_abs_def view_total_def
          view_allocated_def checked_sub_def Let_def unat_sub_u32 unat_of_nat_u32)
qed (simp add: view_free_def sb_free_def)

lemma view_alloc_None_same: "view_alloc_contiguous v n = Some (None, v') \<Longrightarrow> v' = v"
  by (simp add: view_alloc_contiguous_def Let_def split: if_split_asm option.split_asm)

interpretation vw: slot_allocator view_alloc_contiguous view_free view_slots view_total view_wf
proof (standard, goal_cases)
  case (1 b n)
  then show ?case
    using view_alloc_abs [of b n] sb.alloc_total [of "view_abs b" n]
    by (auto simp: view_wf_def)
next
  case (2 b n b')
  have "sb_alloc_contiguous (view_abs b) n = Some (None, view_abs b')"
    using view_alloc_abs [OF 2(1), of n] 2(2) by simp
  then show ?case
    using sb.alloc_None [of "view_abs b" n "view_abs b'"] 2(1) view_alloc_None_same [OF 2(2)]
    by (simp add: view_wf_def)
next
  case (3 b n a b')
  have "sb_alloc_contiguous (view_abs b) n = Some (Some a, view_abs b')"
    using view_alloc_abs [OF 3(1), of n] 3(2) by simp
  from sb.alloc_Some [OF _ this] 3(1) show ?case by (simp add: view_wf_def)
next
  case (4 b base n)
  obtain c where "sb_free (view_abs b) base n = Some c" "sb_slots c = view_slots b - {base..<base + n}"
      "sb_total c = view_total b" "sb_wf c"
    using sb_free_spec [of "view_abs b" base n] 4 by (auto simp: view_wf_def)
  with view_free_abs [OF 4(1,2)] show ?case by (auto simp: view_wf_def)
qed

lemma view_from_raw_init_wf:
  "view_from_raw (header_init n) ws = Some v \<Longrightarrow> view_wf (view_init_all_free v)"
  "view_from_raw (header_init n) ws = Some v \<Longrightarrow> view_slots (view_init_all_free v) = {}"
  by (auto simp: view_from_raw_def header_init_def view_init_all_free_def view_wf_def sb_wf_def
      view_slots_def view_allocated_def view_total_def Let_def map_replicate_const split: if_splits)

subsection \<open>Properties of the allocator\<close>

text \<open>
  C4: allocation is complete.  On a well-formed bitmap \<open>alloc_contiguous\<close> never panics, and
  it returns a block exactly when some contiguous free block of the requested positive
  size exists below \<open>total_slots\<close>; the block is then unallocated, in range and marked.
\<close>

theorem alloc_contiguous_complete:
  assumes "sb_wf b"
  shows "(\<exists>b'. sb_alloc_contiguous b n = Some (None, b') \<and> b' = b \<and>
            (n = 0 \<or> \<not> fits (sb_slots b) (sb_total b) n)) \<or>
         (\<exists>a b'. sb_alloc_contiguous b n = Some (Some a, b') \<and> sb_wf b' \<and> block_count a = n \<and>
            base_slot a + n \<le> sb_total b \<and> sb_slots b \<inter> block a = {} \<and>
            sb_slots b' = sb_slots b \<union> block a \<and> fits (sb_slots b) (sb_total b) n)"
proof -
  obtain r b' where r: "sb_alloc_contiguous b n = Some (r, b')"
    using sb.alloc_total [OF assms] by fast
  show ?thesis
  proof (cases r)
    case None
    then show ?thesis using r sb.alloc_None [OF assms] by simp
  next
    case (Some a)
    then show ?thesis
      using r sb.alloc_Some [OF assms, of n a b'] sb.alloc_iff_fits [OF assms, of n] by auto
  qed
qed

theorem alloc_contiguous_complete_witness:
  "\<exists>a b'. sb_alloc_contiguous (sb_new 3) 2 = Some (Some a, b') \<and> sb_wf b' \<and> block_count a = 2"
proof -
  have "fits (sb_slots (sb_new 3)) 3 2" by (auto simp: fits_def intro: exI [of _ 0])
  then show ?thesis
    using alloc_contiguous_complete [OF sb_new_wf, of 3 2] by auto
qed

text \<open>
  C5: no slot is handed out twice.  Whatever requests and releases clients make on a
  freshly initialised shared bitmap, no call panics, live allocations are pairwise
  disjoint and in range, and the bits set are exactly the slots of live allocations.
\<close>

theorem allocations_never_overlap:
  assumes "view_from_raw (header_init n) ws = Some v"
  shows "\<exists>v' live. ledger_run view_alloc_contiguous view_free ops (view_init_all_free v, []) =
      Some (v', live) \<and> disjoint_blocks live \<and> view_slots v' = (\<Union>a\<in>set live. block a) \<and>
      (\<forall>a\<in>set live. base_slot a + block_count a \<le> view_total (view_init_all_free v))"
  by (rule vw.ledger_run_disjoint) (rule view_from_raw_init_wf [OF assms])+

theorem allocations_never_overlap_witness:
  "\<exists>v' live. ledger_run view_alloc_contiguous view_free [Alloc 5, Alloc 3, Release 0]
     (view_init_all_free \<lparr>view_header = header_init 10, view_words = [7]\<rparr>, []) = Some (v', live) \<and>
     disjoint_blocks live"
  using allocations_never_overlap
    [of 10 "[7]" "\<lparr>view_header = header_init 10, view_words = [7]\<rparr>" "[Alloc 5, Alloc 3, Release 0]"]
  by (simp add: view_from_raw_def header_init_def div_ceil_def) blast



end
