(* ===== verification/BTree_Map.thy ===== *)
theory BTree_Map
  imports Edge_Prelude
begin

section \<open>Ordered maps\<close>

text \<open>
  \<open>std::collections::BTreeMap\<close> iterates in key order; the source relies on that order and on
  lookup after insertion and removal.  The model is a strictly sorted association list,
  which is canonical: two of them with the same lookups are equal.  The locale \<open>ordered_map\<close>
  is the part of the contract that the components use.
\<close>

type_synonym ('k, 'v) btree_map = "('k \<times> 'v) list"

fun bt_insert :: "'k::linorder \<Rightarrow> 'v \<Rightarrow> ('k, 'v) btree_map \<Rightarrow> ('k, 'v) btree_map" where
  "bt_insert k v [] = [(k, v)]"
| "bt_insert k v ((k', v') # m) =
     (if k < k' then (k, v) # (k', v') # m
      else if k = k' then (k, v) # m
      else (k', v') # bt_insert k v m)"

definition bt_remove :: "'k \<Rightarrow> ('k, 'v) btree_map \<Rightarrow> ('k, 'v) btree_map" where
  "bt_remove k m = filter (\<lambda>p. fst p \<noteq> k) m"

definition bt_get :: "('k, 'v) btree_map \<Rightarrow> 'k \<Rightarrow> 'v option" where
  "bt_get m k = map_of m k"

definition bt_contains_key :: "('k, 'v) btree_map \<Rightarrow> 'k \<Rightarrow> bool" where
  "bt_contains_key m k \<longleftrightarrow> bt_get m k \<noteq> None"

definition bt_keys :: "('k, 'v) btree_map \<Rightarrow> 'k list" where
  "bt_keys m = map fst m"

definition bt_values :: "('k, 'v) btree_map \<Rightarrow> 'v list" where
  "bt_values m = map snd m"

definition bt_wf :: "('k::linorder, 'v) btree_map \<Rightarrow> bool" where
  "bt_wf m \<longleftrightarrow> sorted_wrt (<) (map fst m)"

locale ordered_map =
  fixes empty :: "'m"
    and insert :: "'k::linorder \<Rightarrow> 'v \<Rightarrow> 'm \<Rightarrow> 'm"
    and remove :: "'k \<Rightarrow> 'm \<Rightarrow> 'm"
    and get :: "'m \<Rightarrow> 'k \<Rightarrow> 'v option"
    and keys :: "'m \<Rightarrow> 'k list"
    and wf_map :: "'m \<Rightarrow> bool"
  assumes get_empty: "get empty k = None"
    and get_insert: "wf_map m \<Longrightarrow> get (insert k v m) k' = (if k' = k then Some v else get m k')"
    and get_remove: "wf_map m \<Longrightarrow> get (remove k m) k' = (if k' = k then None else get m k')"
    and wf_empty: "wf_map empty"
    and wf_insert: "wf_map m \<Longrightarrow> wf_map (insert k v m)"
    and wf_remove: "wf_map m \<Longrightarrow> wf_map (remove k m)"
    and keys_sorted: "wf_map m \<Longrightarrow> sorted_wrt (<) (keys m)"
    and keys_get: "wf_map m \<Longrightarrow> k \<in> set (keys m) \<longleftrightarrow> get m k \<noteq> None"
begin

lemma wf_fold_insert: "wf_map m \<Longrightarrow> wf_map (fold (\<lambda>(k, v). insert k v) kvs m)"
  by (induction kvs arbitrary: m) (auto simp: wf_insert)

lemma wf_fold_remove: "wf_map m \<Longrightarrow> wf_map (fold remove ks m)"
  by (induction ks arbitrary: m) (auto simp: wf_remove)

lemma get_fold_remove:
  "wf_map m \<Longrightarrow> get (fold remove ks m) k = (if k \<in> set ks then None else get m k)"
  by (induction ks arbitrary: m) (auto simp: wf_remove get_remove)

lemma get_fold_insert_notin:
  "wf_map m \<Longrightarrow> k \<notin> fst ` set kvs \<Longrightarrow> get (fold (\<lambda>(k, v). insert k v) kvs m) k = get m k"
  by (induction kvs arbitrary: m) (auto simp: wf_insert get_insert)

end

lemma map_of_bt_insert:
  "sorted_wrt (<) (map fst m) \<Longrightarrow> map_of (bt_insert k v m) = (map_of m)(k \<mapsto> v)"
proof (induction m)
  case (Cons p m)
  then have "k \<le> fst p \<Longrightarrow> k \<notin> set (map fst m)" by auto
  with Cons show ?case by (cases p) (auto simp: fun_eq_iff)
qed auto

lemma keys_bt_insert: "set (map fst (bt_insert k v m)) = insert k (set (map fst m))"
  by (induction k v m rule: bt_insert.induct) auto

lemma sorted_bt_insert:
  "sorted_wrt (<) (map fst m) \<Longrightarrow> sorted_wrt (<) (map fst (bt_insert k v m))"
proof (induction m)
  case (Cons p m)
  then show ?case
    using keys_bt_insert [of k v m] by (cases p) auto
qed simp

lemma map_of_bt_remove: "map_of (bt_remove k m) = (map_of m)(k := None)"
  by (induction m) (auto simp: bt_remove_def fun_eq_iff)

lemma sorted_bt_remove:
  "sorted_wrt (<) (map fst m) \<Longrightarrow> sorted_wrt (<) (map fst (bt_remove k m))"
  unfolding bt_remove_def by (induction m) auto

interpretation bt: ordered_map "[]" bt_insert bt_remove bt_get bt_keys bt_wf
proof (standard, goal_cases)
  case (8 m k)
  then show ?case by (auto simp: bt_get_def bt_keys_def map_of_eq_None_iff)
qed (auto simp: bt_get_def bt_wf_def bt_keys_def map_of_bt_insert map_of_bt_remove sorted_bt_insert
      sorted_bt_remove)

lemma bt_wf_Nil [simp]: "bt_wf []"
  by (rule bt.wf_empty)

lemma set_bt_keys_insert [simp]: "set (bt_keys (bt_insert k v m)) = insert k (set (bt_keys m))"
  using keys_bt_insert by (simp add: bt_keys_def)

lemma set_bt_keys_Nil [simp]: "bt_keys [] = []"
  by (simp add: bt_keys_def)

lemma bt_insert_max:
  "bt_wf m \<Longrightarrow> \<forall>k'\<in>set (bt_keys m). k' < k \<Longrightarrow> bt_insert k v m = m @ [(k, v)]"
proof (induction m)
  case (Cons p m)
  then have "fst p < k" "bt_insert k v m = m @ [(k, v)]"
    by (auto simp: bt_wf_def bt_keys_def)
  then show ?case by (cases p) auto
qed simp

lemma fold_bt_remove: "fold bt_remove ks m = filter (\<lambda>p. fst p \<notin> set ks) m"
proof (induction ks arbitrary: m)
  case (Cons k ks)
  then show ?case by (auto simp: bt_remove_def intro!: filter_cong)
qed simp

lemma bt_fold_insert_sorted:
  assumes "sorted_wrt (<) (map fst kvs)" and "bt_wf m"
    and "\<forall>k\<in>set (bt_keys m). \<forall>k'\<in>fst ` set kvs. k < k'"
  shows "fold (\<lambda>(k, v). bt_insert k v) kvs m = m @ kvs"
  using assms
proof (induction kvs arbitrary: m)
  case (Cons p kvs)
  obtain k v where p: "p = (k, v)" by fastforce
  have "bt_insert k v m = m @ [(k, v)]"
    using Cons.prems p by (intro bt_insert_max) auto
  moreover have "fold (\<lambda>(k, v). bt_insert k v) kvs (m @ [(k, v)]) = (m @ [(k, v)]) @ kvs"
    using Cons.prems p bt.wf_insert [of m k v] calculation
    by (intro Cons.IH) (auto simp: bt_keys_def)
  ultimately show ?case by (simp add: p)
qed simp

end
