(* ===== verification/Edge_Ports.thy ===== *)
theory Edge_Ports
  imports BTree_Map
begin

section \<open>Capability ports (aether-ports/src)\<close>

text \<open>
  The data that crosses the ports and the error categories.  Of a \<open>PortError\<close> the model keeps
  the stable \<open>kind\<close>; the diagnostic message is text for logs.  A Rust \<open>String\<close> is its UTF-8
  bytes, so the type's own guarantee is the predicate \<open>utf8_valid\<close>.
\<close>

datatype port_error =
    Unavailable | Timeout | NotFound | Rejected | InvalidData | Conflict | Permanent

definition is_retryable :: "port_error \<Rightarrow> bool" where
  "is_retryable e \<longleftrightarrow> e \<in> {Unavailable, Timeout, Conflict}"

type_synonym 'a port_result = "port_error + 'a"

type_synonym rust_string = bytes

definition utf8_cont :: "u8 \<Rightarrow> bool" where
  "utf8_cont b \<longleftrightarrow> 0x80 \<le> b \<and> b \<le> 0xBF"

fun utf8_valid :: "bytes \<Rightarrow> bool" where
  "utf8_valid [] \<longleftrightarrow> True"
| "utf8_valid (b # bs) \<longleftrightarrow>
     (if b \<le> 0x7F then utf8_valid bs
      else if 0xC2 \<le> b \<and> b \<le> 0xDF then
        (case bs of c1 # rest \<Rightarrow> utf8_cont c1 \<and> utf8_valid rest | _ \<Rightarrow> False)
      else if 0xE0 \<le> b \<and> b \<le> 0xEF then
        (case bs of
           c1 # c2 # rest \<Rightarrow>
             (if b = 0xE0 then 0xA0 \<le> c1 \<and> c1 \<le> 0xBF
              else if b = 0xED then 0x80 \<le> c1 \<and> c1 \<le> 0x9F
              else utf8_cont c1) \<and> utf8_cont c2 \<and> utf8_valid rest
         | _ \<Rightarrow> False)
      else if 0xF0 \<le> b \<and> b \<le> 0xF4 then
        (case bs of
           c1 # c2 # c3 # rest \<Rightarrow>
             (if b = 0xF0 then 0x90 \<le> c1 \<and> c1 \<le> 0xBF
              else if b = 0xF4 then 0x80 \<le> c1 \<and> c1 \<le> 0x8F
              else utf8_cont c1) \<and> utf8_cont c2 \<and> utf8_cont c3 \<and> utf8_valid rest
         | _ \<Rightarrow> False)
      else False)"

subsection \<open>Outbox messages and entries\<close>

type_synonym outbox_id = u64

record outbox_message =
  destination :: rust_string
  msg_payload :: bytes
  created_at :: u64

record outbox_entry =
  entry_id :: outbox_id
  entry_message :: outbox_message
  attempts :: u32

definition outbox_entry_new :: "outbox_id \<Rightarrow> outbox_message \<Rightarrow> u32 \<Rightarrow> outbox_entry" where
  "outbox_entry_new i m n = \<lparr>entry_id = i, entry_message = m, attempts = n\<rparr>"

lemma outbox_entry_new_sel [simp]:
  "entry_id (outbox_entry_new i m n) = i"
  "entry_message (outbox_entry_new i m n) = m"
  "attempts (outbox_entry_new i m n) = n"
  by (simp_all add: outbox_entry_new_def)

subsection \<open>Checked \<open>u64\<close> arithmetic\<close>

definition checked_succ_u64 :: "u64 \<Rightarrow> u64 option" where
  "checked_succ_u64 n = (if n = - 1 then None else Some (n + 1))"

lemma checked_succ_u64_Some:
  "checked_succ_u64 n = Some m \<longleftrightarrow> n \<noteq> - 1 \<and> m = n + 1"
  by (auto simp: checked_succ_u64_def)

lemma less_succ_u64: "(n :: u64) \<noteq> - 1 \<Longrightarrow> n < n + 1"
  by (meson inc_less_eq_triv_imp not_le)

lemma le_imp_less_succ_u64: "(n :: u64) \<noteq> - 1 \<Longrightarrow> i \<le> n \<Longrightarrow> i < n + 1"
  by (meson less_succ_u64 order_le_less_trans)

lemma less_imp_succ_le_u64: "(i :: u64) < n \<Longrightarrow> i + 1 \<le> n"
  by (rule inc_le)

end
