(* ===== verification/Durable_Outbox.thy ===== *)
theory Durable_Outbox
  imports Edge_Ports
begin

section \<open>Store and forward\<close>

text \<open>
  The \<open>DurableOutbox\<close> port as a locale, its in-memory adapter (store-local/src/outbox.rs) and
  the forwarder that drains any such outbox into an uplink
  (aether-application/src/outbox_forwarder.rs).  Operations return the new state and a
  result, because a failing call may still leave a trace.
\<close>

subsection \<open>The in-memory adapter\<close>

record memory_outbox =
  mo_capacity :: nat
  mo_next_id :: u64
  mo_entries :: "outbox_entry list"
  mo_poisoned :: bool

definition memory_outbox_new :: "nat \<Rightarrow> memory_outbox" where
  "memory_outbox_new capacity =
     \<lparr>mo_capacity = capacity, mo_next_id = 1, mo_entries = [], mo_poisoned = False\<rparr>"

definition memory_len :: "memory_outbox \<Rightarrow> nat port_result" where
  "memory_len s = (if mo_poisoned s then Inl Permanent else Inr (length (mo_entries s)))"

definition memory_enqueue ::
    "memory_outbox \<Rightarrow> outbox_message \<Rightarrow> memory_outbox \<times> outbox_id port_result" where
  "memory_enqueue s m =
     (if mo_poisoned s then (s, Inl Permanent)
      else if length (mo_entries s) \<ge> mo_capacity s then (s, Inl Unavailable)
      else
        let i = mo_next_id s in
        case checked_succ_u64 (mo_next_id s) of
          None \<Rightarrow> (s, Inl Permanent)
        | Some n \<Rightarrow>
            (s\<lparr>mo_next_id := n, mo_entries := mo_entries s @ [outbox_entry_new i m 0]\<rparr>, Inr i))"

definition memory_peek :: "memory_outbox \<Rightarrow> nat \<Rightarrow> outbox_entry list port_result" where
  "memory_peek s limit = (if mo_poisoned s then Inl Permanent else Inr (take limit (mo_entries s)))"

definition memory_acknowledge ::
    "memory_outbox \<Rightarrow> outbox_id list \<Rightarrow> memory_outbox \<times> nat port_result" where
  "memory_acknowledge s ids =
     (if mo_poisoned s then (s, Inl Permanent)
      else
        let before = length (mo_entries s);
            kept = filter (\<lambda>e. entry_id e \<notin> set ids) (mo_entries s)
        in (s\<lparr>mo_entries := kept\<rparr>, Inr (before - length kept)))"

subsection \<open>The forwarder\<close>

record drain_report =
  examined :: nat
  delivered :: nat

definition ensure_acknowledged ::
    "('o \<Rightarrow> outbox_id list \<Rightarrow> 'o \<times> nat port_result) \<Rightarrow> 'o \<Rightarrow> outbox_id \<Rightarrow> 'o \<times> unit port_result" where
  "ensure_acknowledged acknowledge s i =
     (case acknowledge s [i] of
        (s', Inl e) \<Rightarrow> (s', Inl e)
      | (s', Inr removed) \<Rightarrow> if removed \<noteq> 1 then (s', Inl Conflict) else (s', Inr ()))"

text \<open>The publisher is code outside the workspace: a function on a state of its own.\<close>

fun drain_loop ::
    "('o \<Rightarrow> outbox_id list \<Rightarrow> 'o \<times> nat port_result) \<Rightarrow>
     ('p \<Rightarrow> outbox_message \<Rightarrow> 'p \<times> unit port_result) \<Rightarrow>
     outbox_entry list \<Rightarrow> drain_report \<Rightarrow> 'o \<Rightarrow> 'p \<Rightarrow> 'o \<times> 'p \<times> drain_report port_result" where
  "drain_loop acknowledge publish [] report s p = (s, p, Inr report)"
| "drain_loop acknowledge publish (e # es) report s p =
     (case publish p (entry_message e) of
        (p', Inl err) \<Rightarrow> (s, p', Inl err)
      | (p', Inr _) \<Rightarrow>
          (case ensure_acknowledged acknowledge s (entry_id e) of
             (s', Inl err) \<Rightarrow> (s', p', Inl err)
           | (s', Inr _) \<Rightarrow>
               drain_loop acknowledge publish es (report\<lparr>delivered := delivered report + 1\<rparr>) s' p'))"

definition drain_once ::
    "('o \<Rightarrow> nat \<Rightarrow> outbox_entry list port_result) \<Rightarrow>
     ('o \<Rightarrow> outbox_id list \<Rightarrow> 'o \<times> nat port_result) \<Rightarrow>
     ('p \<Rightarrow> outbox_message \<Rightarrow> 'p \<times> unit port_result) \<Rightarrow>
     nat \<Rightarrow> 'o \<Rightarrow> 'p \<Rightarrow> 'o \<times> 'p \<times> drain_report port_result" where
  "drain_once peek acknowledge publish limit s p =
     (case peek s limit of
        Inl err \<Rightarrow> (s, p, Inl err)
      | Inr es \<Rightarrow> drain_loop acknowledge publish es \<lparr>examined = length es, delivered = 0\<rparr> s p)"

text \<open>A publisher that also keeps the messages it accepted, in order.\<close>

definition logged ::
    "('p \<Rightarrow> outbox_message \<Rightarrow> 'p \<times> unit port_result) \<Rightarrow>
     'p \<times> outbox_message list \<Rightarrow> outbox_message \<Rightarrow> ('p \<times> outbox_message list) \<times> unit port_result"
where
  "logged publish pl m =
     (case publish (fst pl) m of
        (p', Inl e) \<Rightarrow> ((p', snd pl), Inl e)
      | (p', Inr _) \<Rightarrow> ((p', snd pl @ [m]), Inr ()))"

lemma logged_Inl: "publish p m = (p', Inl e) \<Longrightarrow> logged publish (p, log) m = ((p', log), Inl e)"
  by (simp add: logged_def)

lemma logged_Inr: "publish p m = (p', Inr u) \<Longrightarrow> logged publish (p, log) m = ((p', log @ [m]), Inr ())"
  by (simp add: logged_def)

subsection \<open>The contract of the port\<close>

locale durable_outbox =
  fixes enqueue :: "'o \<Rightarrow> outbox_message \<Rightarrow> 'o \<times> outbox_id port_result"
    and peek :: "'o \<Rightarrow> nat \<Rightarrow> outbox_entry list port_result"
    and acknowledge :: "'o \<Rightarrow> outbox_id list \<Rightarrow> 'o \<times> nat port_result"
    and pending :: "'o \<Rightarrow> outbox_entry list"
    and fresh :: "'o \<Rightarrow> outbox_id"
    and capacity :: "'o \<Rightarrow> nat"
    and ok :: "'o \<Rightarrow> bool"
  assumes ids_sorted: "ok s \<Longrightarrow> sorted_wrt (<) (map entry_id (pending s))"
    and ids_below_fresh: "ok s \<Longrightarrow> e \<in> set (pending s) \<Longrightarrow> entry_id e < fresh s"
    and enqueue_Inr: "ok s \<Longrightarrow> utf8_valid (destination m) \<Longrightarrow> enqueue s m = (s', Inr i) \<Longrightarrow>
      ok s' \<and> i = fresh s \<and> i < fresh s' \<and> length (pending s) < capacity s \<and>
      capacity s' = capacity s \<and> pending s' = pending s @ [outbox_entry_new i m 0]"
    and enqueue_Inl: "ok s \<Longrightarrow> utf8_valid (destination m) \<Longrightarrow> enqueue s m = (s', Inl err) \<Longrightarrow>
      ok s' \<and> pending s' = pending s \<and> fresh s' = fresh s \<and> capacity s' = capacity s"
    and peek_Inr: "ok s \<Longrightarrow> peek s n = Inr es \<Longrightarrow> es = take n (pending s)"
    and acknowledge_Inr: "ok s \<Longrightarrow> acknowledge s ids = (s', Inr n) \<Longrightarrow>
      ok s' \<and> fresh s' = fresh s \<and> capacity s' = capacity s \<and>
      pending s' = filter (\<lambda>e. entry_id e \<notin> set ids) (pending s) \<and>
      n = length (pending s) - length (pending s')"
    and acknowledge_Inl: "ok s \<Longrightarrow> acknowledge s ids = (s', Inl err) \<Longrightarrow>
      ok s' \<and> fresh s' = fresh s \<and> capacity s' = capacity s \<and> pending s' = pending s"
begin

lemma acknowledge_head:
  assumes "ok s" and "pending s = e # es"
  shows "filter (\<lambda>x. entry_id x \<notin> set [entry_id e]) (pending s) = es"
  using ids_sorted [OF assms(1)] assms(2) by (auto simp: filter_id_conv)

lemma ensure_acknowledged_head:
  assumes "ok s" and "pending s = e # es" and "ensure_acknowledged acknowledge s (entry_id e) = (s', r)"
  shows "ok s' \<and> capacity s' = capacity s \<and> fresh s' = fresh s \<and>
    (case r of Inr _ \<Rightarrow> pending s' = es | Inl _ \<Rightarrow> pending s' = pending s)"
proof (cases "acknowledge s [entry_id e]")
  case (Pair s1 r1)
  then show ?thesis
    using assms acknowledge_Inr [OF assms(1), of "[entry_id e]" s1]
      acknowledge_Inl [OF assms(1), of "[entry_id e]" s1] acknowledge_head [OF assms(1,2)]
    by (cases r1) (auto simp: ensure_acknowledged_def split: if_splits)
qed

text \<open>
  What a drain pass does to a queue: it publishes a prefix in order and removes the same
  prefix, except that the last published entry stays when its acknowledgement failed.
\<close>

definition drained ::
    "'o \<Rightarrow> 'o \<Rightarrow> outbox_message list \<Rightarrow> outbox_entry list \<Rightarrow> nat \<Rightarrow> drain_report port_result \<Rightarrow>
     nat \<Rightarrow> nat \<Rightarrow> bool" where
  "drained s s' sent es d r acked published \<longleftrightarrow>
     ok s' \<and> capacity s' = capacity s \<and> fresh s' = fresh s \<and>
     sent = map entry_message (take published es) \<and>
     published \<le> length es \<and> acked \<le> published \<and> published \<le> Suc acked \<and>
     pending s' = drop acked (pending s) \<and>
     (case r of Inr rep \<Rightarrow> acked = length es \<and> published = acked \<and> delivered rep = d + acked
      | Inl _ \<Rightarrow> acked < length es)"

lemma drain_loop_spec:
  assumes "ok s" and "take (length es) (pending s) = es"
    and "drain_loop acknowledge (logged publish) es rep s (p, log) = (s', (p', log'), r)"
  shows "\<exists>sent a b. log' = log @ sent \<and> drained s s' sent es (delivered rep) r a b"
  using assms
proof (induction es arbitrary: s p log rep)
  case Nil
  then show ?case by (auto simp: drained_def)
next
  case (Cons e es)
  obtain rest where e: "pending s = e # rest" "take (length es) rest = es"
    using Cons.prems(2) by (cases "pending s") auto
  obtain p1 r1 where pub: "publish p (entry_message e) = (p1, r1)" by fastforce
  show ?case
  proof (cases r1)
    case (Inl err)
    with Cons.prems pub have "r = Inl err \<and> s' = s \<and> log' = log"
      by (auto simp: logged_Inl)
    moreover have "drained s s [] (e # es) (delivered rep) (Inl err) 0 0"
      using Cons.prems(1) by (simp add: drained_def)
    ultimately show ?thesis by blast
  next
    case (Inr u)
    obtain s1 r2 where ack: "ensure_acknowledged acknowledge s (entry_id e) = (s1, r2)" by fastforce
    note head = ensure_acknowledged_head [OF Cons.prems(1) e(1) ack]
    show ?thesis
    proof (cases r2)
      case (Inl err)
      then have "r = Inl err" "s' = s1" "log' = log @ [entry_message e]"
        using Cons.prems(3) pub Inr ack by (simp_all add: logged_Inr)
      moreover have "drained s s1 [entry_message e] (e # es) (delivered rep) (Inl err) 0 1"
        using head Inl by (simp add: drained_def)
      ultimately show ?thesis by blast
    next
      case (Inr u')
      then have rec: "drain_loop acknowledge (logged publish) es (rep\<lparr>delivered := delivered rep + 1\<rparr>)
          s1 (p1, log @ [entry_message e]) = (s', (p', log'), r)"
        using Cons.prems(3) pub \<open>r1 = Inr u\<close> ack by (simp add: logged_Inr)
      have s1: "ok s1" "pending s1 = rest" using head Inr by simp_all
      with e(2) have "take (length es) (pending s1) = es" by simp
      from Cons.IH [OF s1(1) this rec] obtain sent a b where
        sent: "log' = log @ entry_message e # sent"
          "drained s1 s' sent es (delivered (rep\<lparr>delivered := delivered rep + 1\<rparr>)) r a b"
        by auto
      then have "drained s s' (entry_message e # sent) (e # es) (delivered rep) r (Suc a) (Suc b)"
        using head e(1) s1(2) by (simp add: drained_def split: sum.splits)
      with sent(1) show ?thesis by blast
    qed
  qed
qed

lemma drain_once_spec:
  assumes "ok s"
    and "drain_once peek acknowledge (logged publish) limit s (p, log) = (s', (p', log'), r)"
  shows "\<exists>sent. log' = log @ sent \<and>
    ((\<exists>a b. drained s s' sent (take limit (pending s)) 0 r a b) \<or> (s' = s \<and> sent = [] \<and> (\<exists>e. r = Inl e)))"
proof (cases "peek s limit")
  case (Inl e)
  then show ?thesis using assms by (auto simp: drain_once_def)
next
  case (Inr es)
  have es: "es = take limit (pending s)" by (rule peek_Inr [OF assms(1) Inr])
  then have "take (length es) (pending s) = es" by (simp add: min_def)
  then have "\<exists>sent a b. log' = log @ sent \<and>
      drained s s' sent es (delivered \<lparr>examined = length es, delivered = 0\<rparr>) r a b"
    using assms(2) Inr by (intro drain_loop_spec [OF assms(1)]) (simp_all add: drain_once_def)
  with es show ?thesis by simp blast
qed

lemma drain_at_least_once:
  assumes "ok s"
    and "drain_once peek acknowledge (logged publish) limit s (p, log) = (s', (p', log'), r)"
  shows "ok s' \<and> (\<exists>acked published.
    log' = log @ map entry_message (take published (pending s)) \<and>
    pending s' = drop acked (pending s) \<and>
    acked \<le> published \<and> published \<le> Suc acked \<and> published \<le> min (length (pending s)) limit \<and>
    (\<forall>rep. r = Inr rep \<longrightarrow> acked = min (length (pending s)) limit \<and> delivered rep = acked))"
proof -
  from drain_once_spec [OF assms] obtain sent where sent: "log' = log @ sent"
    and alt: "(\<exists>a b. drained s s' sent (take limit (pending s)) 0 r a b) \<or>
      (s' = s \<and> sent = [] \<and> (\<exists>e. r = Inl e))"
    by (elim exE conjE)
  from alt show ?thesis
  proof (elim disjE exE conjE)
    fix a b
    assume d: "drained s s' sent (take limit (pending s)) 0 r a b"
    then have "b \<le> limit" by (simp add: drained_def)
    with d have "sent = map entry_message (take b (pending s))"
      by (simp add: drained_def min_absorb1)
    then have "ok s' \<and> log' = log @ map entry_message (take b (pending s)) \<and>
        pending s' = drop a (pending s) \<and> a \<le> b \<and> b \<le> Suc a \<and>
        b \<le> min (length (pending s)) limit \<and>
        (\<forall>rep. r = Inr rep \<longrightarrow> a = min (length (pending s)) limit \<and> delivered rep = a)"
      using d sent unfolding drained_def by (cases r) simp_all
    then show ?thesis by blast
  next
    fix e
    assume "s' = s" "sent = []" "r = Inl e"
    then have "ok s' \<and> log' = log @ map entry_message (take 0 (pending s)) \<and>
        pending s' = drop 0 (pending s) \<and> (\<forall>rep. r \<noteq> Inr rep)"
      using assms(1) sent by simp
    then show ?thesis by (metis le0 le_refl zero_le)
  qed
qed

end

subsection \<open>The in-memory adapter keeps the contract\<close>

definition memory_ok :: "memory_outbox \<Rightarrow> bool" where
  "memory_ok s \<longleftrightarrow> sorted_wrt (<) (map entry_id (mo_entries s)) \<and>
     (\<forall>e\<in>set (mo_entries s). entry_id e < mo_next_id s)"

lemma memory_outbox_new_ok [simp]: "memory_ok (memory_outbox_new n)"
  by (simp add: memory_ok_def memory_outbox_new_def)

lemma memory_enqueue_Inr:
  assumes "memory_ok s" and "memory_enqueue s m = (s', Inr i)"
  shows "memory_ok s' \<and> i = mo_next_id s \<and> i < mo_next_id s' \<and>
    length (mo_entries s) < mo_capacity s \<and> mo_capacity s' = mo_capacity s \<and>
    mo_entries s' = mo_entries s @ [outbox_entry_new i m 0]"
  using assms less_succ_u64 [of "mo_next_id s"]
  by (fastforce simp: memory_enqueue_def memory_ok_def checked_succ_u64_Some sorted_wrt_append Let_def
      split: if_splits option.splits)

lemma memory_enqueue_Inl: "memory_enqueue s m = (s', Inl e) \<Longrightarrow> s' = s"
  by (auto simp: memory_enqueue_def Let_def split: if_splits option.splits)

lemma sorted_wrt_map_filter:
  "sorted_wrt (<) (map f xs) \<Longrightarrow> sorted_wrt (<) (map f (filter P xs))" for f :: "'a \<Rightarrow> 'b::linorder"
  by (induction xs) auto

interpretation mo: durable_outbox memory_enqueue memory_peek memory_acknowledge mo_entries
  mo_next_id mo_capacity memory_ok
proof (standard, goal_cases)
  case (3 s m s' i)
  then show ?case using memory_enqueue_Inr by blast
next
  case (4 s m s' err)
  then show ?case using memory_enqueue_Inl by blast
next
  case (6 s ids s' n)
  then show ?case
    by (auto simp: memory_acknowledge_def memory_ok_def sorted_wrt_map_filter Let_def
        split: if_splits)
qed (auto simp: memory_ok_def memory_peek_def memory_acknowledge_def Let_def split: if_splits)

text \<open>
  The forwarder loses nothing.  One pass over the in-memory outbox publishes a prefix
  of the queue in order and removes a prefix that is contained in it: an entry leaves the
  outbox only after its message was accepted by the uplink, at most the last published
  entry is kept for redelivery, and a pass that reports success delivered every entry it
  examined.
\<close>

lemma memory_forwarder_at_least_once:
  assumes "memory_ok s"
    and "drain_once memory_peek memory_acknowledge (logged publish) limit s (p, log) = (s', (p', log'), r)"
  shows "\<exists>acked published.
    log' = log @ map entry_message (take published (mo_entries s)) \<and>
    mo_entries s' = drop acked (mo_entries s) \<and>
    acked \<le> published \<and> published \<le> Suc acked \<and> published \<le> min (length (mo_entries s)) limit \<and>
    (\<forall>rep. r = Inr rep \<longrightarrow> acked = min (length (mo_entries s)) limit \<and> delivered rep = acked)"
  using mo.drain_at_least_once [OF assms] by blast

definition outbox_example :: memory_outbox where
  "outbox_example = \<lparr>mo_capacity = 2, mo_next_id = 8, mo_entries = [outbox_entry_new 7
     \<lparr>destination = [], msg_payload = [1], created_at = 5\<rparr> 0], mo_poisoned = False\<rparr>"

end
