(* ===== verification/File_Outbox.thy ===== *)
theory File_Outbox
  imports Durable_Outbox
begin

section \<open>The journal-backed outbox (store-local/src/file_outbox.rs)\<close>

text \<open>
  \<open>FileOutbox\<close> serialises its requests on one worker thread that owns a \<open>Journal\<close>.  The model
  keeps the bytes found under the journal's path (\<open>j_disk\<close>) beside the in-memory index.  The
  outcome of each append is an input, \<open>j_io\<close>: it may fail after any number of bytes, and
  the attempt to cut the file back may fail too.  Reads of an open file succeed.  Offsets
  are \<open>nat\<close>: they are bounded by the file length, so the overflow checks of the source
  cannot fire.
\<close>

subsection \<open>Framing constants\<close>

definition FILE_MAGIC :: bytes where
  "FILE_MAGIC = [0x41, 0x45, 0x54, 0x48, 0x4F, 0x42, 0x58, 0x31]"

definition FILE_VERSION :: u32 where
  "FILE_VERSION = 1"

definition FILE_HEADER_LEN :: nat where
  "FILE_HEADER_LEN = 16"

definition RECORD_MAGIC :: u32 where
  "RECORD_MAGIC = 0x58424F41"

definition RECORD_HEADER_LEN :: nat where
  "RECORD_HEADER_LEN = 12"

definition MAX_RECORD_LEN :: nat where
  "MAX_RECORD_LEN = 16 * 1024 * 1024"

definition MAX_CAPACITY :: nat where
  "MAX_CAPACITY = (MAX_RECORD_LEN - 5) div 8"

definition OP_ENQUEUE :: u8 where
  "OP_ENQUEUE = 1"

definition OP_ACKNOWLEDGE :: u8 where
  "OP_ACKNOWLEDGE = 2"

definition OP_CHECKPOINT :: u8 where
  "OP_CHECKPOINT = 3"

datatype io_kind =
    Io_PermissionDenied | Io_InvalidInput | Io_InvalidData | Io_Unsupported | Io_AlreadyExists
  | Io_WouldBlock | Io_NotFound | Io_Other

fun io_error :: "io_kind \<Rightarrow> port_error" where
  "io_error Io_PermissionDenied = Permanent"
| "io_error Io_InvalidInput = Permanent"
| "io_error Io_InvalidData = Permanent"
| "io_error Io_Unsupported = Permanent"
| "io_error Io_AlreadyExists = Conflict"
| "io_error _ = Unavailable"

abbreviation corrupt :: port_error where
  "corrupt \<equiv> InvalidData"

subsection \<open>Checksum\<close>

definition crc_bit :: "u32 \<Rightarrow> u32" where
  "crc_bit crc = (let mask = 0 - (crc AND 1) in drop_bit 1 crc XOR (0xEDB88320 AND mask))"

definition crc_byte :: "u32 \<Rightarrow> u8 \<Rightarrow> u32" where
  "crc_byte crc byte = (crc_bit ^^ 8) (crc XOR ucast byte)"

definition checksum :: "bytes \<Rightarrow> u32" where
  "checksum bs = NOT (foldl crc_byte (- 1) bs)"

subsection \<open>The byte cursor\<close>

record byte_cursor =
  cursor_bytes :: bytes
  cursor_position :: nat

definition cursor_new :: "bytes \<Rightarrow> byte_cursor" where
  "cursor_new bs = \<lparr>cursor_bytes = bs, cursor_position = 0\<rparr>"

definition read_bytes :: "nat \<Rightarrow> byte_cursor \<Rightarrow> (bytes \<times> byte_cursor) port_result" where
  "read_bytes n c =
     (let fin = cursor_position c + n in
      if fin \<le> length (cursor_bytes c)
      then Inr (take n (drop (cursor_position c) (cursor_bytes c)), c\<lparr>cursor_position := fin\<rparr>)
      else Inl corrupt)"

definition read_u8 :: "byte_cursor \<Rightarrow> (u8 \<times> byte_cursor) port_result" where
  "read_u8 c = rbind (read_bytes 1 c) (\<lambda>(bs, c). Inr (hd bs, c))"

definition read_u32 :: "byte_cursor \<Rightarrow> (u32 \<times> byte_cursor) port_result" where
  "read_u32 c = rbind (read_bytes 4 c) (\<lambda>(bs, c). Inr (from_le_bytes bs, c))"

definition read_u64 :: "byte_cursor \<Rightarrow> (u64 \<times> byte_cursor) port_result" where
  "read_u64 c = rbind (read_bytes 8 c) (\<lambda>(bs, c). Inr (from_le_bytes bs, c))"

definition cursor_finish :: "byte_cursor \<Rightarrow> unit port_result" where
  "cursor_finish c =
     (if cursor_position c \<noteq> length (cursor_bytes c) then Inl corrupt else Inr ())"

subsection \<open>Record payloads\<close>

definition validate_record_size :: "bytes \<Rightarrow> unit port_result" where
  "validate_record_size payload =
     (if payload = [] \<or> length payload > MAX_RECORD_LEN then Inl InvalidData else Inr ())"

definition u32_try_from :: "nat \<Rightarrow> u32 port_result" where
  "u32_try_from n = (if n < 2 ^ 32 then Inr (word_of_nat n) else Inl corrupt)"

definition encode_enqueue :: "outbox_entry \<Rightarrow> bytes port_result" where
  "encode_enqueue e =
     (let dest = destination (entry_message e); body = msg_payload (entry_message e) in
      rbind (u32_try_from (length dest)) (\<lambda>dest_len.
      rbind (u32_try_from (length body)) (\<lambda>body_len.
        let bs = [OP_ENQUEUE] @ to_le_bytes (entry_id e) @ to_le_bytes (created_at (entry_message e)) @
              to_le_bytes (attempts e) @ to_le_bytes dest_len @ to_le_bytes body_len @ dest @ body
        in rbind (validate_record_size bs) (\<lambda>_. Inr bs))))"

definition encode_acknowledge :: "outbox_id list \<Rightarrow> bytes port_result" where
  "encode_acknowledge ids =
     rbind (u32_try_from (length ids)) (\<lambda>count.
       let bs = [OP_ACKNOWLEDGE] @ to_le_bytes count @ concat (map to_le_bytes ids)
       in rbind (validate_record_size bs) (\<lambda>_. Inr bs))"

definition encode_checkpoint :: "u64 \<Rightarrow> bytes" where
  "encode_checkpoint next_id = [OP_CHECKPOINT] @ to_le_bytes next_id"

record recovered =
  rec_next_id :: u64
  rec_entries :: "(outbox_id, outbox_entry) btree_map"

fun ack_loop :: "nat \<Rightarrow> byte_cursor \<Rightarrow> recovered \<Rightarrow> (byte_cursor \<times> recovered) port_result" where
  "ack_loop 0 c r = Inr (c, r)"
| "ack_loop (Suc n) c r =
     rbind (read_u64 c) (\<lambda>(i, c). ack_loop n c (r\<lparr>rec_entries := bt_remove i (rec_entries r)\<rparr>))"

definition apply_enqueue :: "byte_cursor \<Rightarrow> recovered \<Rightarrow> recovered port_result" where
  "apply_enqueue c r =
     rbind (read_u64 c) (\<lambda>(i, c).
     rbind (read_u64 c) (\<lambda>(created, c).
     rbind (read_u32 c) (\<lambda>(tries, c).
     rbind (read_u32 c) (\<lambda>(dest_len, c).
     rbind (read_u32 c) (\<lambda>(body_len, c).
     rbind (read_bytes (unat dest_len) c) (\<lambda>(dest, c).
     rbind (if utf8_valid dest then Inr () else Inl corrupt) (\<lambda>_.
     rbind (read_bytes (unat body_len) c) (\<lambda>(body, c).
     rbind (cursor_finish c) (\<lambda>_.
       if bt_contains_key (rec_entries r) i then Inl corrupt
       else
         rbind (ok_or (checked_succ_u64 i) corrupt) (\<lambda>next_id.
           let m = \<lparr>destination = dest, msg_payload = body, created_at = created\<rparr> in
           Inr (r\<lparr>rec_next_id := max (rec_next_id r) next_id,
                  rec_entries := bt_insert i (outbox_entry_new i m tries) (rec_entries r)\<rparr>)))))))))))"

definition apply_acknowledge :: "byte_cursor \<Rightarrow> recovered \<Rightarrow> recovered port_result" where
  "apply_acknowledge c r =
     rbind (read_u32 c) (\<lambda>(count, c).
     rbind (ack_loop (unat count) c r) (\<lambda>(c, r).
     rbind (cursor_finish c) (\<lambda>_. Inr r)))"

definition apply_checkpoint :: "byte_cursor \<Rightarrow> recovered \<Rightarrow> recovered port_result" where
  "apply_checkpoint c r =
     rbind (read_u64 c) (\<lambda>(next_id, c).
     rbind (cursor_finish c) (\<lambda>_.
       if next_id = 0 then Inl corrupt
       else Inr (r\<lparr>rec_next_id := max (rec_next_id r) next_id\<rparr>)))"

definition apply_record :: "bytes \<Rightarrow> recovered \<Rightarrow> recovered port_result" where
  "apply_record payload r =
     rbind (read_u8 (cursor_new payload)) (\<lambda>(operation, c).
       if operation = OP_ENQUEUE then apply_enqueue c r
       else if operation = OP_ACKNOWLEDGE then apply_acknowledge c r
       else if operation = OP_CHECKPOINT then apply_checkpoint c r
       else Inl corrupt)"

subsection \<open>Records on disk and recovery\<close>

definition file_header :: bytes where
  "file_header = FILE_MAGIC @ to_le_bytes FILE_VERSION @ [0, 0, 0, 0]"

text \<open>What \<open>write_record\<close> writes for a payload that passes \<open>validate_record_size\<close>.\<close>

definition record_frame :: "bytes \<Rightarrow> bytes" where
  "record_frame payload =
     to_le_bytes RECORD_MAGIC @ to_le_bytes (word_of_nat (length payload) :: u32) @
     to_le_bytes (checksum payload) @ payload"

text \<open>
  \<open>truncate_tail\<close> and \<open>write_file_header\<close> may fail; the outcome is the argument \<open>io\<close>, with
  the progress made before the failure: bytes of the header written, or for a truncation
  zero when \<open>set_len\<close> itself failed.  The result is the new file and what the caller gets.
\<close>

type_synonym repair_io = "(nat \<times> io_kind) option"

definition truncate_tail :: "repair_io \<Rightarrow> bytes \<Rightarrow> nat \<Rightarrow> 'a \<Rightarrow> bytes \<times> 'a port_result" where
  "truncate_tail io file valid_len r =
     (case io of
        Some (n, k) \<Rightarrow> (if n = 0 then file else take valid_len file, Inl (io_error k))
      | None \<Rightarrow> (take valid_len file, Inr r))"

definition write_file_header :: "repair_io \<Rightarrow> bytes \<Rightarrow> 'a \<Rightarrow> bytes \<times> 'a port_result" where
  "write_file_header io file r =
     (case io of
        Some (n, k) \<Rightarrow> (take n file_header, Inl (io_error k))
      | None \<Rightarrow> (file_header, Inr r))"

function recover_loop :: "repair_io \<Rightarrow> bytes \<Rightarrow> nat \<Rightarrow> recovered \<Rightarrow> bytes \<times> recovered port_result"
where
  "recover_loop io file offset r =
     (if \<not> offset < length file then (file, Inr r)
      else if length file - offset < RECORD_HEADER_LEN then truncate_tail io file offset r
      else
        let header = take RECORD_HEADER_LEN (drop offset file);
            magic = (from_le_bytes (take 4 header) :: u32);
            payload_len = unat (from_le_bytes (take 4 (drop 4 header)) :: u32);
            expected = (from_le_bytes (take 4 (drop 8 header)) :: u32);
            record_end = offset + RECORD_HEADER_LEN + payload_len;
            payload = take payload_len (drop (offset + RECORD_HEADER_LEN) file)
        in
        if magic \<noteq> RECORD_MAGIC then (file, Inl corrupt)
        else if payload_len = 0 \<or> payload_len > MAX_RECORD_LEN then (file, Inl corrupt)
        else if record_end > length file then truncate_tail io file offset r
        else if checksum payload \<noteq> expected then
          (if record_end = length file then truncate_tail io file offset r else (file, Inl corrupt))
        else
          (case apply_record payload r of
             Inl e \<Rightarrow> (file, Inl e)
           | Inr r' \<Rightarrow> recover_loop io file record_end r'))"
  by pat_completeness auto
termination
proof (relation "measure (\<lambda>(io, file, offset, r). length file - offset)", goal_cases)
  case (2 io f offset r h magic payload_len expected record_end payload r')
  then have "offset < length f" "record_end = offset + 12 + payload_len"
    by (simp_all only: not_not RECORD_HEADER_LEN_def)
  then show ?case by simp
qed simp

declare recover_loop.simps [simp del]

definition recovered_empty :: recovered where
  "recovered_empty = \<lparr>rec_next_id = 1, rec_entries = []\<rparr>"

definition recover :: "repair_io \<Rightarrow> bytes \<Rightarrow> bytes \<times> recovered port_result" where
  "recover io file =
     (if length file = 0 then write_file_header io file recovered_empty
      else if length file < FILE_HEADER_LEN then (file, Inl corrupt)
      else if take 8 file \<noteq> FILE_MAGIC then (file, Inl corrupt)
      else if (from_le_bytes (take 4 (drop 8 file)) :: u32) \<noteq> FILE_VERSION then (file, Inl corrupt)
      else recover_loop io file FILE_HEADER_LEN recovered_empty)"

subsection \<open>The journal\<close>

text \<open>
  \<open>Append_Fails n k rolled_back\<close>: the write or its sync fails with error \<open>k\<close> after \<open>n\<close> bytes of
  the record reached the file, and \<open>set_len\<close> back to the old length did or did not work.
\<close>

datatype append_io = Append_Ok | Append_Fails nat io_kind bool

datatype compact_io =
    Compact_Ok
  | Temp_Fails io_kind
  | Rename_Fails io_kind
  | Reopen_Fails io_kind
  | Parent_Sync_Fails io_kind

record journal =
  j_capacity :: nat
  j_disk :: bytes
  j_next_id :: u64
  j_entries :: "(outbox_id, outbox_entry) btree_map"
  j_poisoned :: bool
  j_io :: "append_io list"

definition append_record :: "append_io \<Rightarrow> bytes \<Rightarrow> bytes \<Rightarrow> bytes \<times> unit port_result" where
  "append_record io file payload =
     (case validate_record_size payload of
        Inl e \<Rightarrow> (file, Inl e)
      | Inr _ \<Rightarrow>
          (case io of
             Append_Ok \<Rightarrow> (file @ record_frame payload, Inr ())
           | Append_Fails n k rolled_back \<Rightarrow>
               (if rolled_back then file else file @ take n (record_frame payload),
                Inl (io_error k))))"

definition journal_append :: "journal \<Rightarrow> bytes \<Rightarrow> journal \<times> unit port_result" where
  "journal_append j payload =
     (let io = (case j_io j of [] \<Rightarrow> Append_Ok | x # _ \<Rightarrow> x);
          (file, res) = append_record io (j_disk j) payload
      in (j\<lparr>j_disk := file, j_io := tl (j_io j)\<rparr>, res))"

definition ensure_healthy :: "journal \<Rightarrow> unit port_result" where
  "ensure_healthy j = (if j_poisoned j then Inl Permanent else Inr ())"

definition journal_open ::
    "repair_io \<Rightarrow> append_io list \<Rightarrow> bool \<Rightarrow> bytes \<Rightarrow> nat \<Rightarrow> bytes \<times> journal port_result" where
  "journal_open io script locked file capacity =
     (if locked then (file, Inl Conflict)
      else case recover io file of
        (file', Inl e) \<Rightarrow> (file', Inl e)
      | (file', Inr r) \<Rightarrow>
          (file', Inr \<lparr>j_capacity = capacity, j_disk = file', j_next_id = rec_next_id r,
             j_entries = rec_entries r, j_poisoned = False, j_io = script\<rparr>))"

definition file_outbox_open ::
    "repair_io \<Rightarrow> append_io list \<Rightarrow> bool \<Rightarrow> bytes \<Rightarrow> nat \<Rightarrow> bytes \<times> journal port_result" where
  "file_outbox_open io script locked file capacity =
     (if capacity = 0 then (file, Inl InvalidData)
      else if capacity > MAX_CAPACITY then (file, Inl InvalidData)
      else journal_open io script locked file capacity)"

definition journal_enqueue :: "journal \<Rightarrow> outbox_message \<Rightarrow> journal \<times> outbox_id port_result" where
  "journal_enqueue j m =
     (case ensure_healthy j of
        Inl e \<Rightarrow> (j, Inl e)
      | Inr _ \<Rightarrow>
          if length (j_entries j) \<ge> j_capacity j then (j, Inl Unavailable)
          else
            let i = j_next_id j in
            case checked_succ_u64 (j_next_id j) of
              None \<Rightarrow> (j, Inl Permanent)
            | Some next_id \<Rightarrow>
                let entry = outbox_entry_new i m 0 in
                case encode_enqueue entry of
                  Inl e \<Rightarrow> (j, Inl e)
                | Inr payload \<Rightarrow>
                    case journal_append j payload of
                      (j, Inl e) \<Rightarrow> (j, Inl e)
                    | (j, Inr _) \<Rightarrow>
                        (j\<lparr>j_entries := bt_insert i entry (j_entries j), j_next_id := next_id\<rparr>, Inr i))"

definition journal_peek :: "journal \<Rightarrow> nat \<Rightarrow> outbox_entry list port_result" where
  "journal_peek j limit =
     rbind (ensure_healthy j) (\<lambda>_. Inr (take limit (bt_values (j_entries j))))"

text \<open>The ids to acknowledge, sorted and without duplicates: they go through a \<open>BTreeSet\<close>.\<close>

definition existing_ids :: "journal \<Rightarrow> outbox_id list \<Rightarrow> outbox_id list" where
  "existing_ids j ids =
     bt_keys (fold (\<lambda>i. bt_insert i ()) (filter (bt_contains_key (j_entries j)) ids) [])"

definition journal_acknowledge :: "journal \<Rightarrow> outbox_id list \<Rightarrow> journal \<times> nat port_result" where
  "journal_acknowledge j ids =
     (case ensure_healthy j of
        Inl e \<Rightarrow> (j, Inl e)
      | Inr _ \<Rightarrow>
          let existing = existing_ids j ids in
          if existing = [] then (j, Inr 0)
          else case encode_acknowledge existing of
            Inl e \<Rightarrow> (j, Inl e)
          | Inr payload \<Rightarrow>
              case journal_append j payload of
                (j, Inl e) \<Rightarrow> (j, Inl e)
              | (j, Inr _) \<Rightarrow>
                  (j\<lparr>j_entries := fold bt_remove existing (j_entries j)\<rparr>, Inr (length existing)))"

fun encode_all :: "outbox_entry list \<Rightarrow> bytes port_result" where
  "encode_all [] = Inr []"
| "encode_all (e # es) =
     rbind (encode_enqueue e) (\<lambda>payload.
     rbind (encode_all es) (\<lambda>rest. Inr (record_frame payload @ rest)))"

definition compacted_image :: "journal \<Rightarrow> bytes port_result" where
  "compacted_image j =
     rbind (encode_all (bt_values (j_entries j))) (\<lambda>body.
       Inr (file_header @ record_frame (encode_checkpoint (j_next_id j)) @ body))"

definition journal_compact :: "compact_io \<Rightarrow> journal \<Rightarrow> journal \<times> unit port_result" where
  "journal_compact io j =
     (case ensure_healthy j of
        Inl e \<Rightarrow> (j, Inl e)
      | Inr _ \<Rightarrow>
          case io of
            Temp_Fails k \<Rightarrow> (j, Inl (io_error k))
          | _ \<Rightarrow>
              case compacted_image j of
                Inl e \<Rightarrow> (j, Inl e)
              | Inr img \<Rightarrow>
                  case io of
                    Rename_Fails k \<Rightarrow> (j, Inl (io_error k))
                  | Reopen_Fails k \<Rightarrow> (j\<lparr>j_disk := img, j_poisoned := True\<rparr>, Inl (io_error k))
                  | Parent_Sync_Fails k \<Rightarrow> (j\<lparr>j_disk := img\<rparr>, Inl (io_error k))
                  | _ \<Rightarrow> (j\<lparr>j_disk := img\<rparr>, Inr ()))"

datatype request =
    Enqueue_Request outbox_message
  | Peek_Request nat
  | Acknowledge_Request "outbox_id list"
  | Compact_Request compact_io
  | Shutdown

datatype reply =
    Enqueue_Reply "outbox_id port_result"
  | Peek_Reply "outbox_entry list port_result"
  | Acknowledge_Reply "nat port_result"
  | Compact_Reply "unit port_result"

fun run_worker :: "journal \<Rightarrow> request list \<Rightarrow> journal \<times> reply list" where
  "run_worker j [] = (j, [])"
| "run_worker j (Shutdown # rs) = (j, [])"
| "run_worker j (Enqueue_Request m # rs) =
     (let (j, res) = journal_enqueue j m; (j, out) = run_worker j rs in (j, Enqueue_Reply res # out))"
| "run_worker j (Peek_Request n # rs) =
     (let res = journal_peek j n; (j, out) = run_worker j rs in (j, Peek_Reply res # out))"
| "run_worker j (Acknowledge_Request ids # rs) =
     (let (j, res) = journal_acknowledge j ids; (j, out) = run_worker j rs
      in (j, Acknowledge_Reply res # out))"
| "run_worker j (Compact_Request io # rs) =
     (let (j, res) = journal_compact io j; (j, out) = run_worker j rs in (j, Compact_Reply res # out))"

end
