(* ===== verification/Outbox_Recovery.thy ===== *)
theory Outbox_Recovery
  imports File_Outbox
begin

section \<open>Decoding and recovery of the outbox journal\<close>

text \<open>
  The record codec is a round trip, and recovery replays exactly the complete records of a
  journal, cutting off a torn last one.
\<close>

subsection \<open>Reading with the cursor\<close>

definition cursor_at :: "bytes \<Rightarrow> bytes \<Rightarrow> byte_cursor" where
  "cursor_at pre rest = \<lparr>cursor_bytes = pre @ rest, cursor_position = length pre\<rparr>"

lemma cursor_new_at [wire_simps]: "cursor_new bs = cursor_at [] bs"
  by (simp add: cursor_new_def cursor_at_def)

lemma read_bytes_at:
  "n = length xs \<Longrightarrow> read_bytes n (cursor_at pre (xs @ rest)) = Inr (xs, cursor_at (pre @ xs) rest)"
  by (simp add: read_bytes_def cursor_at_def Let_def)

lemma read_bytes_end [wire_simps]:
  "n = length xs \<Longrightarrow> read_bytes n (cursor_at pre xs) = Inr (xs, cursor_at (pre @ xs) [])"
  using read_bytes_at [of n xs pre "[]"] by simp

lemma read_u8_at [wire_simps]: "read_u8 (cursor_at pre (b # rest)) = Inr (b, cursor_at (pre @ [b]) rest)"
  using read_bytes_at [of 1 "[b]" pre rest] by (simp add: read_u8_def)

lemma read_u32_at [wire_simps]:
  "read_u32 (cursor_at pre (to_le_bytes w @ rest)) = Inr (w, cursor_at (pre @ to_le_bytes w) rest)"
  using read_bytes_at [of 4 "to_le_bytes w" pre rest] by (simp add: read_u32_def)

lemma read_u64_at [wire_simps]:
  "read_u64 (cursor_at pre (to_le_bytes w @ rest)) = Inr (w, cursor_at (pre @ to_le_bytes w) rest)"
  using read_bytes_at [of 8 "to_le_bytes w" pre rest] by (simp add: read_u64_def)

lemma read_u64_end [wire_simps]:
  "read_u64 (cursor_at pre (to_le_bytes w)) = Inr (w, cursor_at (pre @ to_le_bytes w) [])"
  using read_u64_at [of pre w "[]"] by simp

lemma cursor_finish_at [wire_simps]: "cursor_finish (cursor_at pre []) = Inr ()"
  by (simp add: cursor_finish_def cursor_at_def)

lemma u32_try_from_Inr [simp]: "u32_try_from n = Inr w \<longleftrightarrow> n < 2 ^ 32 \<and> w = word_of_nat n"
  by (auto simp: u32_try_from_def)

lemma validate_record_size_Inr [simp]:
  "validate_record_size p = Inr u \<longleftrightarrow> p \<noteq> [] \<and> length p \<le> MAX_RECORD_LEN"
  by (auto simp: validate_record_size_def)

subsection \<open>The codec is a round trip\<close>

definition enqueue_payload :: "outbox_entry \<Rightarrow> bytes" where
  "enqueue_payload e =
     OP_ENQUEUE # to_le_bytes (entry_id e) @ to_le_bytes (created_at (entry_message e)) @
     to_le_bytes (attempts e) @
     to_le_bytes (word_of_nat (length (destination (entry_message e))) :: u32) @
     to_le_bytes (word_of_nat (length (msg_payload (entry_message e))) :: u32) @
     destination (entry_message e) @ msg_payload (entry_message e)"

lemma length_enqueue_payload:
  "length (enqueue_payload e) =
     29 + length (destination (entry_message e)) + length (msg_payload (entry_message e))"
  by (simp add: enqueue_payload_def)

definition acknowledge_payload :: "outbox_id list \<Rightarrow> bytes" where
  "acknowledge_payload ids =
     OP_ACKNOWLEDGE # to_le_bytes (word_of_nat (length ids) :: u32) @ concat (map to_le_bytes ids)"

lemma length_concat_u64 [simp]: "length (concat (map to_le_bytes (ids :: u64 list))) = 8 * length ids"
  by (induction ids) auto

lemma encode_enqueue_Inr:
  "encode_enqueue e = Inr p \<longleftrightarrow> p = enqueue_payload e \<and> length p \<le> MAX_RECORD_LEN"
  by (auto simp: encode_enqueue_def enqueue_payload_def Let_def MAX_RECORD_LEN_def)

lemma encode_acknowledge_Inr:
  "encode_acknowledge ids = Inr p \<longleftrightarrow> p = acknowledge_payload ids \<and> length p \<le> MAX_RECORD_LEN"
  by (auto simp: encode_acknowledge_def acknowledge_payload_def Let_def MAX_RECORD_LEN_def)

lemma outbox_entry_eta:
  "outbox_entry_new (entry_id e) \<lparr>destination = destination (entry_message e),
     msg_payload = msg_payload (entry_message e), created_at = created_at (entry_message e)\<rparr> (attempts e) = e"
  by (simp add: outbox_entry_new_def)

lemma apply_record_enqueue:
  assumes "length (enqueue_payload e) \<le> MAX_RECORD_LEN"
    and "utf8_valid (destination (entry_message e))"
  shows "apply_record (enqueue_payload e) r =
    (if bt_contains_key (rec_entries r) (entry_id e) \<or> entry_id e = - 1 then Inl corrupt
     else Inr (r\<lparr>rec_next_id := max (rec_next_id r) (entry_id e + 1),
                 rec_entries := bt_insert (entry_id e) e (rec_entries r)\<rparr>))"
proof -
  have len: "length (destination (entry_message e)) < 2 ^ 32"
      "length (msg_payload (entry_message e)) < 2 ^ 32"
    using assms(1) by (simp_all add: length_enqueue_payload MAX_RECORD_LEN_def)
  show ?thesis
    using assms(2)
    by (simp add: apply_record_def enqueue_payload_def apply_enqueue_def wire_simps read_bytes_at
        unat_of_nat_u32 [OF len(1)] unat_of_nat_u32 [OF len(2)] checked_succ_u64_def
        outbox_entry_eta)
qed

lemma ack_loop_at:
  "ack_loop (length ids) (cursor_at pre (concat (map to_le_bytes ids))) r =
     Inr (cursor_at (pre @ concat (map to_le_bytes ids)) [],
       r\<lparr>rec_entries := fold bt_remove ids (rec_entries r)\<rparr>)"
  by (induction ids arbitrary: pre r) (simp_all add: wire_simps)

lemma apply_record_acknowledge:
  assumes "length (acknowledge_payload ids) \<le> MAX_RECORD_LEN"
  shows "apply_record (acknowledge_payload ids) r =
    Inr (r\<lparr>rec_entries := fold bt_remove ids (rec_entries r)\<rparr>)"
proof -
  have "length ids < 2 ^ 32"
    using assms by (simp add: acknowledge_payload_def MAX_RECORD_LEN_def)
  then show ?thesis
    by (simp add: apply_record_def acknowledge_payload_def apply_acknowledge_def wire_simps
        unat_of_nat_u32 ack_loop_at OP_ACKNOWLEDGE_def OP_ENQUEUE_def)
qed

lemma apply_record_checkpoint:
  "apply_record (encode_checkpoint n) r =
     (if n = 0 then Inl corrupt else Inr (r\<lparr>rec_next_id := max (rec_next_id r) n\<rparr>))"
  by (simp add: apply_record_def encode_checkpoint_def apply_checkpoint_def wire_simps
      OP_CHECKPOINT_def OP_ACKNOWLEDGE_def OP_ENQUEUE_def)

subsection \<open>Recovery replays records\<close>

definition valid_payload :: "bytes \<Rightarrow> bool" where
  "valid_payload p \<longleftrightarrow> p \<noteq> [] \<and> length p \<le> MAX_RECORD_LEN"

lemma length_file_header [simp]: "length file_header = 16"
  by (simp add: file_header_def FILE_MAGIC_def)

lemma length_record_frame [simp]: "length (record_frame p) = 12 + length p"
  by (simp add: record_frame_def)

text \<open>The header fields of a record, also when the payload after them is cut short.\<close>

lemma frame_header:
  assumes "valid_payload p" and "drop offset file = take n (record_frame p) @ rest"
    and "12 \<le> n" and "n \<le> length (record_frame p)"
  shows "(from_le_bytes (take 4 (take 12 (drop offset file))) :: u32) = RECORD_MAGIC"
    and "unat (from_le_bytes (take 4 (drop 4 (take 12 (drop offset file)))) :: u32) = length p"
    and "(from_le_bytes (take 4 (drop 8 (take 12 (drop offset file)))) :: u32) = checksum p"
proof -
  have "take 12 (drop offset file) = take 12 (record_frame p)"
    using assms(2-4) by (simp add: min_def)
  also have "\<dots> = to_le_bytes RECORD_MAGIC @ to_le_bytes (word_of_nat (length p) :: u32) @
      to_le_bytes (checksum p)"
    by (simp add: record_frame_def)
  finally have h: "take 12 (drop offset file) = to_le_bytes RECORD_MAGIC @
      to_le_bytes (word_of_nat (length p) :: u32) @ to_le_bytes (checksum p)" .
  show "(from_le_bytes (take 4 (take 12 (drop offset file))) :: u32) = RECORD_MAGIC"
    and "(from_le_bytes (take 4 (drop 8 (take 12 (drop offset file)))) :: u32) = checksum p"
    unfolding h by simp_all
  have "length p < 2 ^ 32" using assms(1) by (simp add: valid_payload_def MAX_RECORD_LEN_def)
  then show "unat (from_le_bytes (take 4 (drop 4 (take 12 (drop offset file)))) :: u32) = length p"
    unfolding h by (simp add: unat_of_nat_u32)
qed

lemma drop_append_length:
  assumes "drop offset file = xs @ ys" and "xs \<noteq> []"
  shows "length file = offset + length xs + length ys"
proof -
  have "length file - offset = length xs + length ys"
    using assms(1) by (metis length_append length_drop)
  moreover have "0 < length xs" using assms(2) by simp
  ultimately show ?thesis by linarith
qed

lemma recover_loop_frame:
  assumes "valid_payload p" and "drop offset file = record_frame p @ rest"
  shows "recover_loop io file offset r =
    (case apply_record p r of
       Inl e \<Rightarrow> (file, Inl e)
     | Inr r' \<Rightarrow> recover_loop io file (offset + length (record_frame p)) r')"
proof -
  have len: "length file = offset + length (record_frame p) + length rest"
    by (rule drop_append_length [OF assms(2)]) (simp add: record_frame_def RECORD_MAGIC_def to_le_bytes_def)
  have "drop offset file = take (length (record_frame p)) (record_frame p) @ rest"
    using assms(2) by simp
  note h = frame_header [OF assms(1) this, unfolded length_record_frame, simplified]
  have payload: "take (length p) (drop (offset + 12) file) = p"
    using arg_cong [OF assms(2), of "drop 12"] by (simp add: record_frame_def add.commute)
  have "0 < length p \<and> length p \<le> MAX_RECORD_LEN"
    using assms(1) by (simp add: valid_payload_def)
  then show ?thesis
    using h len payload
    by (subst recover_loop.simps)
      (cases "apply_record p r"; simp add: Let_def RECORD_HEADER_LEN_def add.assoc)
qed

lemma recover_loop_torn:
  assumes "valid_payload p" and "drop offset file = take n (record_frame p)"
    and "n < length (record_frame p)" and "offset \<le> length file"
  shows "recover_loop None file offset r = (take offset file, Inr r)"
proof -
  have len: "length file = offset + n"
    using arg_cong [OF assms(2), of length] assms(3,4) by simp
  show ?thesis
  proof (cases "12 \<le> n")
    case True
    have "drop offset file = take n (record_frame p) @ []" using assms(2) by simp
    note h = frame_header [OF assms(1) this True less_imp_le [OF assms(3)]]
    have "0 < length p \<and> length p \<le> MAX_RECORD_LEN"
      using assms(1) by (simp add: valid_payload_def)
    then show ?thesis
      using h assms(3) len True
      by (subst recover_loop.simps) (simp add: Let_def RECORD_HEADER_LEN_def truncate_tail_def)
  next
    case False
    then show ?thesis
      using len by (subst recover_loop.simps)
        (simp add: RECORD_HEADER_LEN_def truncate_tail_def)
  qed
qed

lemma recover_loop_end: "recover_loop io file (length file) r = (file, Inr r)"
  by (subst recover_loop.simps) simp

text \<open>
  \<open>replays file r\<close>: the file is a header and complete records, and recovery arrives at its
  end with \<open>r\<close> whatever follows.
\<close>

definition replays :: "bytes \<Rightarrow> recovered \<Rightarrow> bool" where
  "replays file r \<longleftrightarrow> 16 \<le> length file \<and> take 8 file = FILE_MAGIC \<and>
     (from_le_bytes (take 4 (drop 8 file)) :: u32) = FILE_VERSION \<and>
     (\<forall>io rest. recover_loop io (file @ rest) 16 recovered_empty =
        recover_loop io (file @ rest) (length file) r)"

lemma replays_header: "replays file_header recovered_empty"
  by (simp add: replays_def file_header_def FILE_MAGIC_def)

lemma recover_append:
  assumes "replays file r"
  shows "recover io (file @ rest) = recover_loop io (file @ rest) (length file) r"
proof -
  have "file \<noteq> []" using assms by (auto simp: replays_def)
  then show ?thesis using assms by (simp add: recover_def replays_def FILE_HEADER_LEN_def)
qed

lemma recover_replays: "replays file r \<Longrightarrow> recover io file = (file, Inr r)"
  using recover_append [of "file" r io "[]"] by (simp add: recover_loop_end)

lemma replays_frame:
  assumes "replays file r" and "valid_payload p" and "apply_record p r = Inr r'"
  shows "replays (file @ record_frame p) r'"
proof -
  have "recover_loop io (file @ record_frame p @ rest) (length file) r =
      recover_loop io (file @ record_frame p @ rest) (length (file @ record_frame p)) r'" for io rest
    using recover_loop_frame [OF assms(2), of "length file" "file @ record_frame p @ rest" rest io r]
    by (simp add: assms(3))
  with assms(1) show ?thesis by (simp add: replays_def)
qed

lemma recover_torn_tail:
  assumes "replays file r" and "valid_payload p" and "n < length (record_frame p)"
  shows "recover None (file @ take n (record_frame p)) = (file, Inr r)"
  using recover_append [OF assms(1), of None "take n (record_frame p)"]
    recover_loop_torn [OF assms(2) _ assms(3), of "length file" "file @ take n (record_frame p)" r]
  by simp

lemma recover_empty_file: "recover None [] = (file_header, Inr recovered_empty)"
  by (simp add: recover_def write_file_header_def)

text \<open>A journal whose 16-byte header is incomplete is refused.\<close>

lemma recover_torn_header:
  "0 < n \<Longrightarrow> n < 16 \<Longrightarrow> recover io (take n file_header) = (take n file_header, Inl InvalidData)"
  by (simp add: recover_def FILE_HEADER_LEN_def)

subsection \<open>Every accepted file replays\<close>

lemma three_words:
  assumes "length h = 12"
  shows "h = take 4 h @ take 4 (drop 4 h) @ take 4 (drop 8 h)"
proof -
  have "take 4 (drop 4 h) @ drop 4 (drop 4 h) = drop 4 h" by (rule append_take_drop_id)
  moreover have "take 4 (drop 8 h) = drop 8 h" using assms by simp
  ultimately show ?thesis by (simp add: append_eq_conv_conj [symmetric])
qed

lemma frame_of_header:
  assumes "12 \<le> length bs"
    and "(from_le_bytes (take 4 (take 12 bs)) :: u32) = RECORD_MAGIC"
    and "unat (from_le_bytes (take 4 (drop 4 (take 12 bs))) :: u32) = length p"
    and "(from_le_bytes (take 4 (drop 8 (take 12 bs))) :: u32) = checksum p"
  shows "take 12 bs @ p = record_frame p"
proof -
  let ?h = "take 12 bs"
  have "?h = take 4 ?h @ take 4 (drop 4 ?h) @ take 4 (drop 8 ?h)"
    using assms(1) by (intro three_words) simp
  moreover have "to_le_bytes RECORD_MAGIC = take 4 ?h" "to_le_bytes (checksum p) = take 4 (drop 8 ?h)"
    using to_from_le_bytes_u32 [of "take 4 ?h"] to_from_le_bytes_u32 [of "take 4 (drop 8 ?h)"] assms
    by simp_all
  moreover have "to_le_bytes (word_of_nat (length p) :: u32) = take 4 (drop 4 ?h)"
    using to_from_le_bytes_u32 [of "take 4 (drop 4 ?h)"] assms(1) unfolding assms(3) [symmetric]
    by simp
  ultimately show ?thesis by (simp add: record_frame_def)
qed

lemma drop_split:
  "drop i xs = take a (drop i xs) @ take b (drop (i + a) xs) @ drop (i + (a + b)) xs"
proof -
  have "drop i xs = take a (drop i xs) @ drop (i + a) xs"
    by (metis append_take_drop_id drop_drop add.commute)
  moreover have "drop (i + a) xs = take b (drop (i + a) xs) @ drop (i + (a + b)) xs"
    by (metis append_take_drop_id drop_drop add.commute add.assoc)
  ultimately show ?thesis by simp
qed

lemma recover_loop_step:
  assumes "recover_loop io file offset r = (file', Inr r')" and "offset < length file"
  obtains (torn) "file' = take offset file" and "r' = r"
  | (frame) p rest r1 where "valid_payload p" and "drop offset file = record_frame p @ rest"
      and "apply_record p r = Inr r1"
      and "recover_loop io file (offset + length (record_frame p)) r1 = (file', Inr r')"
proof (cases "length file - offset < 12")
  case True
  then show ?thesis
    using assms torn
    by (subst (asm) recover_loop.simps)
      (auto simp: RECORD_HEADER_LEN_def truncate_tail_def split: option.splits)
next
  case False
  let ?h = "take 12 (drop offset file)"
  let ?len = "unat (from_le_bytes (take 4 (drop 4 ?h)) :: u32)"
  let ?p = "take ?len (drop (offset + 12) file)"
  show ?thesis
  proof (cases "?len \<noteq> 0 \<and> ?len \<le> MAX_RECORD_LEN \<and> offset + 12 + ?len \<le> length file \<and>
      (from_le_bytes (take 4 ?h) :: u32) = RECORD_MAGIC \<and>
      (from_le_bytes (take 4 (drop 8 ?h)) :: u32) = checksum ?p")
    case True
    then have len: "length ?p = ?len" by (simp add: min_def) linarith
    then have p: "valid_payload ?p" using True by (auto simp: valid_payload_def)
    have "drop offset file = (?h @ ?p) @ drop (12 + ?len) (drop offset file)"
      using drop_split [of offset "file" 12 ?len] by (simp add: add.commute add.left_commute)
    also have "?h @ ?p = record_frame ?p"
      using True False len by (intro frame_of_header) simp_all
    finally have d: "drop offset file = record_frame ?p @ drop (12 + ?len) (drop offset file)" .
    note step = recover_loop_frame [OF p d, of io r, unfolded assms(1)]
    then obtain r1 where "apply_record ?p r = Inr r1" by (cases "apply_record ?p r") auto
    moreover from this step have
      "recover_loop io file (offset + length (record_frame ?p)) r1 = (file', Inr r')"
      by (simp only: sum.case)
    ultimately show ?thesis using p d frame by blast
  next
    case False': False
    define len where "len = ?len"
    define good where "good \<longleftrightarrow> (from_le_bytes (take 4 ?h) :: u32) = RECORD_MAGIC"
    define crc where "crc \<longleftrightarrow> checksum ?p = (from_le_bytes (take 4 (drop 8 ?h)) :: u32)"
    have "recover_loop io file offset r \<in> {truncate_tail io file offset r, (file, Inl corrupt)}"
      using assms(2) False False'
      unfolding recover_loop.simps [of io "file" offset r] Let_def RECORD_HEADER_LEN_def
        len_def [symmetric] good_def [symmetric] crc_def [symmetric]
      by (auto simp: crc_def)
    then show ?thesis
      using assms(1) torn by (auto simp: truncate_tail_def split: option.splits)
  qed
qed

lemma recover_loop_sound:
  assumes "recover_loop io file offset r = (file', Inr r')" and "offset \<le> length file"
  shows "\<exists>n. offset \<le> n \<and> n \<le> length file \<and> file' = take n file \<and>
    (\<forall>io' rest. recover_loop io' (take n file @ rest) offset r =
      recover_loop io' (take n file @ rest) n r')"
  using assms
proof (induction "length file - offset" arbitrary: offset r rule: less_induct)
  case less
  show ?case
  proof (cases "offset < length file")
    case False
    then have "file' = file" "r' = r"
      using less.prems(1) by (subst (asm) recover_loop.simps, simp)+
    with False less.prems(2) show ?thesis by (intro exI [of _ offset]) simp
  next
    case True
    from less.prems(1) True show ?thesis
    proof (cases rule: recover_loop_step)
      case torn
      with True show ?thesis by (intro exI [of _ offset]) simp
    next
      case (frame p rest r1)
      have len: "length file = offset + length (record_frame p) + length rest"
        by (rule drop_append_length [OF frame(2)]) (simp add: record_frame_def RECORD_MAGIC_def to_le_bytes_def)
      then obtain n where n: "offset + length (record_frame p) \<le> n" "n \<le> length file" "file' = take n file"
          "\<And>io' rest. recover_loop io' (take n file @ rest) (offset + length (record_frame p)) r1 =
            recover_loop io' (take n file @ rest) n r'"
        using less.hyps [OF _ frame(4)] by auto
      have "drop offset (take n file) = take (n - offset) (record_frame p @ rest)"
        by (simp add: drop_take frame(2))
      also have "\<dots> = record_frame p @ take (n - offset - length (record_frame p)) rest"
        using n(1) by simp
      finally have "recover_loop io' (take n file @ rest') offset r =
          recover_loop io' (take n file @ rest') n r'" for io' rest'
        using recover_loop_frame [OF frame(1), of offset "take n file @ rest'" _ io' r] n frame(3) len
        by simp
      with n show ?thesis by (intro exI [of _ n]) simp
    qed
  qed
qed

lemma recover_sound:
  assumes "recover io file = (file', Inr r)"
  shows "replays file' r"
proof (cases "length file = 0")
  case True
  then show ?thesis
    using assms replays_header
    by (auto simp: recover_def write_file_header_def split: option.splits)
next
  case False
  then have h: "16 \<le> length file" "take 8 file = FILE_MAGIC"
      "(from_le_bytes (take 4 (drop 8 file)) :: u32) = FILE_VERSION"
      "recover_loop io file 16 recovered_empty = (file', Inr r)"
    using assms by (auto simp: recover_def FILE_HEADER_LEN_def split: if_splits)
  then obtain n where n: "16 \<le> n" "n \<le> length file" "file' = take n file"
      "\<And>io' rest. recover_loop io' (take n file @ rest) 16 recovered_empty =
        recover_loop io' (take n file @ rest) n r"
    using recover_loop_sound [OF h(4,1)] by blast
  with h show ?thesis by (simp add: replays_def drop_take)
qed

subsection \<open>What a recovered state satisfies\<close>

definition entry_ok :: "u64 \<Rightarrow> outbox_id \<times> outbox_entry \<Rightarrow> bool" where
  "entry_ok next_id p \<longleftrightarrow> entry_id (snd p) = fst p \<and> fst p < next_id \<and>
     utf8_valid (destination (entry_message (snd p))) \<and>
     length (enqueue_payload (snd p)) \<le> MAX_RECORD_LEN"

definition rec_ok :: "recovered \<Rightarrow> bool" where
  "rec_ok r \<longleftrightarrow> bt_wf (rec_entries r) \<and> 1 \<le> rec_next_id r \<and>
     (\<forall>p\<in>set (rec_entries r). entry_ok (rec_next_id r) p)"

lemma recovered_empty_ok: "rec_ok recovered_empty"
  by (simp add: rec_ok_def recovered_empty_def)

lemma entry_ok_mono: "entry_ok n p \<Longrightarrow> n \<le> m \<Longrightarrow> entry_ok m p"
  by (auto simp: entry_ok_def)

lemma set_bt_insert_subset: "set (bt_insert k v m) \<subseteq> insert (k, v) (set m)"
  by (induction k v m rule: bt_insert.induct) auto

lemma rec_ok_insert:
  assumes "rec_ok r" and "entry_ok n (i, e)" and "rec_next_id r \<le> n"
  shows "rec_ok (r\<lparr>rec_next_id := n, rec_entries := bt_insert i e (rec_entries r)\<rparr>)"
  using assms set_bt_insert_subset [of i e "rec_entries r"]
  by (auto simp: rec_ok_def bt.wf_insert intro: entry_ok_mono)

lemma read_bytes_Inr:
  "read_bytes n c = Inr (bs, c') \<longleftrightarrow>
     cursor_position c + n \<le> length (cursor_bytes c) \<and>
     bs = take n (drop (cursor_position c) (cursor_bytes c)) \<and>
     c' = c\<lparr>cursor_position := cursor_position c + n\<rparr>"
  by (auto simp: read_bytes_def Let_def)

lemma read_bytes_length: "read_bytes n c = Inr (bs, c') \<Longrightarrow> length bs = n"
  by (auto simp: read_bytes_Inr)

lemma read_u32_cursor: "read_u32 c = Inr (w, c') \<Longrightarrow> c' = c\<lparr>cursor_position := cursor_position c + 4\<rparr>"
  by (auto simp: read_u32_def read_bytes_Inr)

lemma read_u64_cursor: "read_u64 c = Inr (w, c') \<Longrightarrow> c' = c\<lparr>cursor_position := cursor_position c + 8\<rparr>"
  by (auto simp: read_u64_def read_bytes_Inr)

lemma apply_enqueue_Inr:
  assumes "apply_enqueue c r = Inr r'"
  shows "\<exists>e. utf8_valid (destination (entry_message e)) \<and> entry_id e \<noteq> - 1 \<and>
    \<not> bt_contains_key (rec_entries r) (entry_id e) \<and>
    cursor_position c + 28 + length (destination (entry_message e)) +
      length (msg_payload (entry_message e)) = length (cursor_bytes c) \<and>
    r' = r\<lparr>rec_next_id := max (rec_next_id r) (entry_id e + 1),
           rec_entries := bt_insert (entry_id e) e (rec_entries r)\<rparr>"
proof -
  obtain i c1 created c2 tries c3 dl c4 bl c5 dest c6 body c7 where
    reads: "read_u64 c = Inr (i, c1)" "read_u64 c1 = Inr (created, c2)" "read_u32 c2 = Inr (tries, c3)"
      "read_u32 c3 = Inr (dl, c4)" "read_u32 c4 = Inr (bl, c5)"
      "read_bytes (unat dl) c5 = Inr (dest, c6)" "read_bytes (unat bl) c6 = Inr (body, c7)"
      "cursor_finish c7 = Inr ()"
    and ok: "utf8_valid dest" "\<not> bt_contains_key (rec_entries r) i" "i \<noteq> - 1"
      "r' = r\<lparr>rec_next_id := max (rec_next_id r) (i + 1),
              rec_entries := bt_insert i (outbox_entry_new i
                \<lparr>destination = dest, msg_payload = body, created_at = created\<rparr> tries) (rec_entries r)\<rparr>"
    using assms
    by (auto simp: apply_enqueue_def checked_succ_u64_Some Let_def split: if_splits)
  have "cursor_position c + 28 + length dest + length body = length (cursor_bytes c)"
    using reads(8) reads(6,7) [THEN read_bytes_length]
      reads(1,2) [THEN read_u64_cursor] reads(3-5) [THEN read_u32_cursor]
      reads(6,7) [unfolded read_bytes_Inr]
    by (simp add: cursor_finish_def split: if_splits)
  with ok show ?thesis
    by (intro exI [of _ "outbox_entry_new i \<lparr>destination = dest, msg_payload = body, created_at = created\<rparr> tries"])
      simp
qed

lemma rec_ok_subset:
  assumes "rec_ok r" and "set m \<subseteq> set (rec_entries r)" and "bt_wf m"
  shows "rec_ok (r\<lparr>rec_entries := m\<rparr>)"
  using assms by (auto simp: rec_ok_def)

lemma ack_loop_Inr:
  "ack_loop n c r = Inr (c', r') \<Longrightarrow> \<exists>ids. r' = r\<lparr>rec_entries := fold bt_remove ids (rec_entries r)\<rparr>"
proof (induction n arbitrary: c r)
  case 0
  then show ?case by (auto intro: exI [of _ "[]"])
next
  case (Suc n)
  then obtain i c1 where "ack_loop n c1 (r\<lparr>rec_entries := bt_remove i (rec_entries r)\<rparr>) = Inr (c', r')"
    by auto
  from Suc.IH [OF this] obtain ids where
    "r' = r\<lparr>rec_entries := fold bt_remove (i # ids) (rec_entries r)\<rparr>" by auto
  then show ?case by blast
qed

lemma rec_ok_fold_remove:
  assumes "rec_ok r"
  shows "rec_ok (r\<lparr>rec_entries := fold bt_remove ids (rec_entries r)\<rparr>)"
proof (rule rec_ok_subset [OF assms])
  show "set (fold bt_remove ids (rec_entries r)) \<subseteq> set (rec_entries r)"
    by (auto simp: fold_bt_remove)
  show "bt_wf (fold bt_remove ids (rec_entries r))"
    using assms by (intro bt.wf_fold_remove) (simp add: rec_ok_def)
qed

lemma rec_ok_raise: "rec_ok r \<Longrightarrow> rec_ok (r\<lparr>rec_next_id := max (rec_next_id r) n\<rparr>)"
  by (auto simp: rec_ok_def max_def intro: entry_ok_mono)

lemma apply_record_ok:
  assumes "apply_record p r = Inr r'" and "rec_ok r" and "length p \<le> MAX_RECORD_LEN"
  shows "rec_ok r'"
proof -
  obtain c where c: "c = cursor_new p\<lparr>cursor_position := 1\<rparr>"
    and alt: "apply_enqueue c r = Inr r' \<or> apply_acknowledge c r = Inr r' \<or> apply_checkpoint c r = Inr r'"
    using assms(1)
    by (auto simp: apply_record_def read_u8_def read_bytes_Inr cursor_new_def split: if_splits)
  from alt show ?thesis
  proof (elim disjE)
    assume "apply_enqueue c r = Inr r'"
    then obtain e where e: "utf8_valid (destination (entry_message e))" "entry_id e \<noteq> - 1"
      "cursor_position c + 28 + length (destination (entry_message e)) +
         length (msg_payload (entry_message e)) = length (cursor_bytes c)"
      "r' = r\<lparr>rec_next_id := max (rec_next_id r) (entry_id e + 1),
              rec_entries := bt_insert (entry_id e) e (rec_entries r)\<rparr>"
      using apply_enqueue_Inr by blast
    have "entry_ok (max (rec_next_id r) (entry_id e + 1)) (entry_id e, e)"
      using e assms(3) less_succ_u64 [OF e(2)]
      by (auto simp: entry_ok_def length_enqueue_payload c cursor_new_def less_max_iff_disj)
    then show ?thesis unfolding e(4) by (intro rec_ok_insert [OF assms(2)]) simp_all
  next
    assume "apply_acknowledge c r = Inr r'"
    then show ?thesis
      using rec_ok_fold_remove [OF assms(2)] ack_loop_Inr by (fastforce simp: apply_acknowledge_def)
  next
    assume "apply_checkpoint c r = Inr r'"
    then show ?thesis
      using rec_ok_raise [OF assms(2)] by (auto simp: apply_checkpoint_def split: if_splits)
  qed
qed

lemma recover_loop_ok:
  assumes "recover_loop io file offset r = (file', Inr r')" and "offset \<le> length file" and "rec_ok r"
  shows "rec_ok r'"
  using assms
proof (induction "length file - offset" arbitrary: offset r rule: less_induct)
  case less
  show ?case
  proof (cases "offset < length file")
    case False
    then have "r' = r" using less.prems(1) by (subst (asm) recover_loop.simps, simp)
    with less.prems(3) show ?thesis by simp
  next
    case True
    from less.prems(1) True show ?thesis
    proof (cases rule: recover_loop_step)
      case torn
      with less.prems(3) show ?thesis by simp
    next
      case (frame p rest r1)
      have "length file = offset + length (record_frame p) + length rest"
        by (rule drop_append_length [OF frame(2)]) (simp add: record_frame_def RECORD_MAGIC_def to_le_bytes_def)
      then show ?thesis
        using less.hyps [OF _ frame(4)] apply_record_ok [OF frame(3) less.prems(3)] frame(1)
        by (simp add: valid_payload_def)
    qed
  qed
qed

lemma recover_ok:
  assumes "recover io file = (file', Inr r)"
  shows "rec_ok r"
proof (cases "length file = 0")
  case True
  then show ?thesis
    using assms recovered_empty_ok
    by (auto simp: recover_def write_file_header_def split: option.splits)
next
  case False
  then have "16 \<le> length file" "recover_loop io file 16 recovered_empty = (file', Inr r)"
    using assms by (auto simp: recover_def FILE_HEADER_LEN_def split: if_splits)
  then show ?thesis using recover_loop_ok recovered_empty_ok by blast
qed

end
