(* ===== verification/Outbox_Journal.thy ===== *)
theory Outbox_Journal
  imports Outbox_Recovery
begin

section \<open>The journal keeps what it reports\<close>

text \<open>
  The invariant of an open journal ties the file to the index: recovery of the file, now or
  after any further bytes, starts from exactly the state in memory.  It is established by
  every successful open, whatever the file was, and kept by every operation as long as a
  failed append is rolled back.  The journal is the second implementation of the outbox
  contract.
\<close>

definition rec_of :: "journal \<Rightarrow> recovered" where
  "rec_of j = \<lparr>rec_next_id = j_next_id j, rec_entries = j_entries j\<rparr>"

fun rolls_back :: "append_io \<Rightarrow> bool" where
  "rolls_back Append_Ok \<longleftrightarrow> True"
| "rolls_back (Append_Fails n k b) \<longleftrightarrow> b"

definition journal_ok :: "journal \<Rightarrow> bool" where
  "journal_ok j \<longleftrightarrow> replays (j_disk j) (rec_of j) \<and> rec_ok (rec_of j) \<and>
     (\<forall>io\<in>set (j_io j). rolls_back io)"

definition j_pending :: "journal \<Rightarrow> outbox_entry list" where
  "j_pending j = bt_values (j_entries j)"

lemma rec_of_sel [simp]: "rec_next_id (rec_of j) = j_next_id j" "rec_entries (rec_of j) = j_entries j"
  by (simp_all add: rec_of_def)

lemma rec_of_update [simp]:
  "rec_of (j\<lparr>j_disk := d\<rparr>) = rec_of j" "rec_of (j\<lparr>j_io := io\<rparr>) = rec_of j"
  "rec_of (j\<lparr>j_poisoned := b\<rparr>) = rec_of j"
  "rec_of (j\<lparr>j_entries := es\<rparr>) = (rec_of j)\<lparr>rec_entries := es\<rparr>"
  "rec_of (j\<lparr>j_entries := es, j_next_id := n\<rparr>) = (rec_of j)\<lparr>rec_next_id := n, rec_entries := es\<rparr>"
  by (simp_all add: rec_of_def)

lemma journal_open_ok:
  assumes "journal_open io script locked file cap = (file', Inr j)" and "\<forall>x\<in>set script. rolls_back x"
  shows "journal_ok j \<and> j_disk j = file' \<and> j_capacity j = cap \<and> recover io file = (file', Inr (rec_of j))"
proof -
  obtain r where r: "recover io file = (file', Inr r)"
    and j: "j = \<lparr>j_capacity = cap, j_disk = file', j_next_id = rec_next_id r,
      j_entries = rec_entries r, j_poisoned = False, j_io = script\<rparr>"
    using assms(1) by (auto simp: journal_open_def split: if_splits prod.splits sum.splits)
  then have "rec_of j = r" by (simp add: rec_of_def)
  moreover have "j_disk j = file'" "j_capacity j = cap" "j_io j = script" by (simp_all add: j)
  ultimately show ?thesis
    using r assms(2) recover_sound [OF r] recover_ok [OF r] unfolding journal_ok_def by simp
qed

subsection \<open>Appending\<close>

lemma journal_append_cases:
  assumes "journal_append j p = (j', res)" and "\<forall>io\<in>set (j_io j). rolls_back io"
  shows "\<forall>io\<in>set (j_io j'). rolls_back io"
    and "case res of
        Inr _ \<Rightarrow> valid_payload p \<and> j' = j\<lparr>j_disk := j_disk j @ record_frame p, j_io := tl (j_io j)\<rparr>
      | Inl _ \<Rightarrow> j' = j\<lparr>j_io := tl (j_io j)\<rparr>"
proof -
  let ?io = "case j_io j of [] \<Rightarrow> Append_Ok | x # _ \<Rightarrow> x"
  have "rolls_back ?io" using assms(2) by (cases "j_io j") auto
  moreover have "set (tl (j_io j)) \<subseteq> set (j_io j)" by (cases "j_io j") auto
  ultimately show "\<forall>io\<in>set (j_io j'). rolls_back io"
    and "case res of
        Inr _ \<Rightarrow> valid_payload p \<and> j' = j\<lparr>j_disk := j_disk j @ record_frame p, j_io := tl (j_io j)\<rparr>
      | Inl _ \<Rightarrow> j' = j\<lparr>j_io := tl (j_io j)\<rparr>"
    using assms
    by (auto simp: journal_append_def append_record_def Let_def validate_record_size_def valid_payload_def
        split: prod.splits append_io.splits if_splits)
qed

lemma journal_append_Inl:
  assumes "journal_append j p = (j', Inl e)" and "journal_ok j"
  shows "journal_ok j' \<and> j_entries j' = j_entries j \<and> j_next_id j' = j_next_id j \<and>
    j_capacity j' = j_capacity j"
  using journal_append_cases [OF assms(1)] assms(2) by (simp add: journal_ok_def)

lemma journal_append_Inr:
  assumes "journal_append j p = (j', Inr u)" and "journal_ok j" and "apply_record p (rec_of j) = Inr r"
  shows "replays (j_disk j') r \<and> (\<forall>io\<in>set (j_io j'). rolls_back io) \<and> rec_of j' = rec_of j \<and>
    j_entries j' = j_entries j \<and> j_next_id j' = j_next_id j \<and> j_capacity j' = j_capacity j"
  using journal_append_cases [OF assms(1)] assms(2) replays_frame [OF _ _ assms(3)]
  by (simp add: journal_ok_def)

subsection \<open>Enqueue, acknowledge, compact\<close>

lemma j_entries_below: "journal_ok j \<Longrightarrow> \<forall>k\<in>set (bt_keys (j_entries j)). k < j_next_id j"
  by (auto simp: journal_ok_def rec_ok_def entry_ok_def bt_keys_def)

lemma j_entries_wf: "journal_ok j \<Longrightarrow> bt_wf (j_entries j)"
  by (simp add: journal_ok_def rec_ok_def)

lemma insert_fresh:
  "journal_ok j \<Longrightarrow> bt_insert (j_next_id j) e (j_entries j) = j_entries j @ [(j_next_id j, e)]"
  by (intro bt_insert_max j_entries_wf j_entries_below)

lemma fresh_not_contained: "journal_ok j \<Longrightarrow> \<not> bt_contains_key (j_entries j) (j_next_id j)"
  using j_entries_below [of j] bt.keys_get [OF j_entries_wf, of j "j_next_id j"]
  by (auto simp: bt_contains_key_def)

lemma journal_enqueue_Inr:
  assumes "journal_ok j" and "utf8_valid (destination m)" and "journal_enqueue j m = (j', Inr i)"
  shows "journal_ok j' \<and> i = j_next_id j \<and> j_next_id j' = i + 1 \<and> i \<noteq> - 1 \<and>
    length (j_entries j) < j_capacity j \<and> j_capacity j' = j_capacity j \<and> \<not> j_poisoned j \<and>
    j_entries j' = j_entries j @ [(i, outbox_entry_new i m 0)]"
proof -
  let ?e = "outbox_entry_new (j_next_id j) m 0"
  obtain j1 u where app: "journal_append j (enqueue_payload ?e) = (j1, Inr u)"
    and p: "length (enqueue_payload ?e) \<le> MAX_RECORD_LEN" and n: "j_next_id j \<noteq> - 1"
    and rest: "length (j_entries j) < j_capacity j" "\<not> j_poisoned j" "i = j_next_id j"
      "j' = j1\<lparr>j_entries := bt_insert (j_next_id j) ?e (j_entries j1), j_next_id := j_next_id j + 1\<rparr>"
    using assms(3)
    by (auto simp: journal_enqueue_def ensure_healthy_def Let_def checked_succ_u64_Some encode_enqueue_Inr
        split: if_splits option.splits sum.splits prod.splits)
  have up: "max (j_next_id j) (j_next_id j + 1) = j_next_id j + 1"
    using less_succ_u64 [OF n] by simp
  have "apply_record (enqueue_payload ?e) (rec_of j) = Inr ((rec_of j)\<lparr>rec_next_id := j_next_id j + 1,
      rec_entries := bt_insert (j_next_id j) ?e (j_entries j)\<rparr>)" (is "_ = Inr ?r")
    using apply_record_enqueue [OF p, of "rec_of j"] assms(2) n fresh_not_contained [OF assms(1)] up
    by simp
  note appended = journal_append_Inr [OF app assms(1) this]
  have "rec_ok ?r"
    using rec_ok_insert [of "rec_of j" "j_next_id j + 1" "j_next_id j" ?e] assms(1,2) p
      less_succ_u64 [OF n]
    by (simp add: journal_ok_def entry_ok_def)
  with appended rest show ?thesis
    using n insert_fresh [OF assms(1)] by (simp add: journal_ok_def)
qed

lemma journal_enqueue_Inl:
  assumes "journal_ok j" and "journal_enqueue j m = (j', Inl e)"
  shows "journal_ok j' \<and> j_entries j' = j_entries j \<and> j_next_id j' = j_next_id j \<and>
    j_capacity j' = j_capacity j"
proof -
  have "j' = j \<or> (\<exists>p. journal_append j p = (j', Inl e))"
    using assms(2)
    by (auto simp: journal_enqueue_def Let_def split: if_splits option.splits sum.splits prod.splits)
  then show ?thesis using assms(1) journal_append_Inl by blast
qed

lemma existing_ids_spec:
  assumes "journal_ok j"
  shows "set (existing_ids j ids) = set ids \<inter> fst ` set (j_entries j)" and "distinct (existing_ids j ids)"
proof -
  let ?xs = "filter (bt_contains_key (j_entries j)) ids"
  let ?f = "\<lambda>i. bt_insert i ()"
  have wf: "bt_wf (fold ?f xs m)" if "bt_wf m" for xs :: "u64 list" and m
    using that by (induction xs arbitrary: m) (auto simp: bt.wf_insert)
  have "set (bt_keys (fold ?f xs m)) = set xs \<union> set (bt_keys m)" for xs :: "u64 list" and m
    by (induction xs arbitrary: m) auto
  then have "set (existing_ids j ids) = set ?xs" by (simp add: existing_ids_def)
  then show "set (existing_ids j ids) = set ids \<inter> fst ` set (j_entries j)"
    by (auto simp: bt_contains_key_def bt_get_def map_of_eq_None_iff)
  show "distinct (existing_ids j ids)"
    using bt.keys_sorted [OF wf [of "[]"]] by (simp add: existing_ids_def strict_sorted_iff)
qed

lemma remove_existing:
  assumes "journal_ok j"
  shows "fold bt_remove (existing_ids j ids) (j_entries j) = filter (\<lambda>p. fst p \<notin> set ids) (j_entries j)"
  unfolding fold_bt_remove existing_ids_spec(1) [OF assms]
  by (rule filter_cong) auto

lemma length_filter_split: "length (filter P xs) = length xs - length (filter (\<lambda>x. \<not> P x) xs)"
  using sum_length_filter_compl [of P xs] by simp

lemma existing_count:
  assumes "journal_ok j"
  shows "length (existing_ids j ids) =
    length (j_entries j) - length (filter (\<lambda>p. fst p \<notin> set ids) (j_entries j))"
proof -
  define gone where "gone = map fst (filter (\<lambda>p. fst p \<in> set ids) (j_entries j))"
  have "distinct (map fst (j_entries j))"
    using bt.keys_sorted [OF j_entries_wf [OF assms]] by (simp add: bt_keys_def strict_sorted_iff)
  then have "distinct gone" unfolding gone_def by (rule distinct_map_filter)
  moreover have "set gone = set (existing_ids j ids)"
    unfolding existing_ids_spec(1) [OF assms] gone_def by auto
  ultimately have "length gone = length (existing_ids j ids)"
    using distinct_card [of gone] distinct_card [OF existing_ids_spec(2) [OF assms, of ids]] by simp
  moreover have "length gone = length (j_entries j) - length (filter (\<lambda>p. fst p \<notin> set ids) (j_entries j))"
    unfolding gone_def length_map by (rule length_filter_split)
  ultimately show ?thesis by simp
qed

lemma journal_acknowledge_Inr:
  assumes "journal_ok j" and "journal_acknowledge j ids = (j', Inr n)"
  shows "journal_ok j' \<and> j_next_id j' = j_next_id j \<and> j_capacity j' = j_capacity j \<and>
    j_entries j' = filter (\<lambda>p. fst p \<notin> set ids) (j_entries j) \<and> n = length (existing_ids j ids)"
proof (cases "existing_ids j ids = []")
  case True
  then have "filter (\<lambda>p. fst p \<notin> set ids) (j_entries j) = j_entries j"
    using remove_existing [OF assms(1), of ids] by simp
  with True assms show ?thesis
    by (auto simp: journal_acknowledge_def split: sum.splits)
next
  case False
  let ?ids = "existing_ids j ids"
  obtain j1 u where app: "journal_append j (acknowledge_payload ?ids) = (j1, Inr u)"
    and p: "length (acknowledge_payload ?ids) \<le> MAX_RECORD_LEN"
    and rest: "n = length ?ids" "j' = j1\<lparr>j_entries := fold bt_remove ?ids (j_entries j1)\<rparr>"
    using assms(2) False
    by (auto simp: journal_acknowledge_def Let_def encode_acknowledge_Inr
        split: sum.splits prod.splits)
  note appended = journal_append_Inr [OF app assms(1) apply_record_acknowledge [OF p]]
  then show ?thesis
    using rest rec_ok_fold_remove [of "rec_of j" ?ids] remove_existing [OF assms(1), of ids] assms(1)
    by (simp add: journal_ok_def)
qed

lemma journal_acknowledge_Inl:
  assumes "journal_ok j" and "journal_acknowledge j ids = (j', Inl e)"
  shows "journal_ok j' \<and> j_entries j' = j_entries j \<and> j_next_id j' = j_next_id j \<and>
    j_capacity j' = j_capacity j"
proof -
  have "j' = j \<or> (\<exists>p. journal_append j p = (j', Inl e))"
    using assms(2)
    by (auto simp: journal_acknowledge_def Let_def split: if_splits sum.splits prod.splits)
  then show ?thesis using assms(1) journal_append_Inl by blast
qed

text \<open>Compaction writes a checkpoint and the live entries in key order.\<close>

lemma replays_encode_all:
  assumes "replays file r" and "encode_all es = Inr body" and "bt_wf (rec_entries r)"
    and "sorted_wrt (<) (map entry_id es)"
    and "\<forall>e\<in>set es. entry_ok (rec_next_id r) (entry_id e, e)"
    and "\<forall>e\<in>set es. \<forall>k\<in>set (bt_keys (rec_entries r)). k < entry_id e"
  shows "replays (file @ body) (r\<lparr>rec_entries := rec_entries r @ map (\<lambda>e. (entry_id e, e)) es\<rparr>)"
  using assms
proof (induction es arbitrary: "file" r body)
  case (Cons e es)
  obtain rest where enc: "length (enqueue_payload e) \<le> MAX_RECORD_LEN" "encode_all es = Inr rest"
      "body = record_frame (enqueue_payload e) @ rest"
    using Cons.prems(2) by (auto simp: encode_enqueue_Inr)
  have e: "entry_ok (rec_next_id r) (entry_id e, e)" using Cons.prems(5) by simp
  then have lt: "entry_id e < rec_next_id r" by (simp add: entry_ok_def)
  then have id: "entry_id e \<noteq> - 1" "max (rec_next_id r) (entry_id e + 1) = rec_next_id r"
    using less_imp_succ_le_u64 [OF lt] by (auto simp: max_absorb1)
  have ins: "bt_insert (entry_id e) e (rec_entries r) = rec_entries r @ [(entry_id e, e)]"
    using Cons.prems(3,6) by (intro bt_insert_max) auto
  have "\<not> bt_contains_key (rec_entries r) (entry_id e)"
    using Cons.prems(6) bt.keys_get [OF Cons.prems(3), of "entry_id e"]
    by (auto simp: bt_contains_key_def)
  then have "apply_record (enqueue_payload e) r =
      Inr (r\<lparr>rec_entries := rec_entries r @ [(entry_id e, e)]\<rparr>)" (is "_ = Inr ?r")
    using apply_record_enqueue [OF enc(1), of r] e id ins by (simp add: entry_ok_def)
  with Cons.prems(1) have "replays (file @ record_frame (enqueue_payload e)) ?r"
    using enc(1) by (intro replays_frame) (auto simp: valid_payload_def enqueue_payload_def)
  from Cons.IH [OF this enc(2)] show ?case
    using Cons.prems(3-6) bt.wf_insert [OF Cons.prems(3), of "entry_id e" e]
    unfolding ins enc(3) by (simp add: bt_keys_def ball_Un)
qed simp

lemma valid_checkpoint: "valid_payload (encode_checkpoint n)"
  by (simp add: valid_payload_def encode_checkpoint_def MAX_RECORD_LEN_def)

lemma compacted_image_replays:
  assumes "journal_ok j" and "compacted_image j = Inr img"
  shows "replays img (rec_of j)"
proof -
  obtain body where body: "encode_all (bt_values (j_entries j)) = Inr body"
      "img = (file_header @ record_frame (encode_checkpoint (j_next_id j))) @ body"
    using assms(2) by (auto simp: compacted_image_def)
  have ok: "1 \<le> j_next_id j" "\<forall>p\<in>set (j_entries j). entry_ok (j_next_id j) p"
    using assms(1) by (auto simp: journal_ok_def rec_ok_def)
  then have ids: "map (\<lambda>e. (entry_id e, e)) (bt_values (j_entries j)) = j_entries j"
    by (auto simp: bt_values_def entry_ok_def intro!: map_idI)
  have "j_next_id j \<noteq> 0" using ok(1) by auto
  then have "replays (file_header @ record_frame (encode_checkpoint (j_next_id j)))
      \<lparr>rec_next_id = j_next_id j, rec_entries = []\<rparr>"
    using ok(1) valid_checkpoint
    by (intro replays_frame [OF replays_header])
      (simp_all add: apply_record_checkpoint recovered_empty_def max_absorb2)
  from replays_encode_all [OF this body(1)] ok(2) bt.keys_sorted [OF j_entries_wf [OF assms(1)]]
  show ?thesis
    unfolding body(2) ids
    by (auto simp: rec_of_def bt_values_def bt_keys_def entry_ok_def o_def cong: map_cong)
qed

lemma journal_compact_ok:
  assumes "journal_ok j" and "journal_compact io j = (j', res)"
  shows "journal_ok j' \<and> j_entries j' = j_entries j \<and> j_next_id j' = j_next_id j \<and>
    j_capacity j' = j_capacity j"
proof -
  consider "j' = j" | img b where "compacted_image j = Inr img" "j' = j\<lparr>j_disk := img, j_poisoned := b\<rparr>"
    | img where "compacted_image j = Inr img" "j' = j\<lparr>j_disk := img\<rparr>"
    using assms(2)
    by (cases io; cases "compacted_image j"; cases "ensure_healthy j") (auto simp: journal_compact_def)
  then show ?thesis
    using assms(1) compacted_image_replays [OF assms(1)]
    by cases (auto simp: journal_ok_def)
qed

subsection \<open>The journal keeps the contract of the port\<close>

lemma length_pending: "length (j_pending j) = length (j_entries j)"
  by (simp add: j_pending_def bt_values_def)

lemma map_fst_entries:
  assumes "journal_ok j"
  shows "map entry_id (j_pending j) = bt_keys (j_entries j)"
  using assms
  by (auto simp: j_pending_def bt_values_def bt_keys_def journal_ok_def rec_ok_def entry_ok_def)

lemma pending_filter:
  assumes "journal_ok j"
  shows "map snd (filter (\<lambda>p. fst p \<notin> S) (j_entries j)) = filter (\<lambda>e. entry_id e \<notin> S) (j_pending j)"
proof -
  have "filter (\<lambda>e. entry_id e \<notin> S) (map snd xs) = map snd (filter (\<lambda>p. fst p \<notin> S) xs)"
    if "\<forall>p\<in>set xs. entry_id (snd p) = fst p" for xs :: "(outbox_id \<times> outbox_entry) list"
    using that by (induction xs) auto
  moreover have "\<forall>p\<in>set (j_entries j). entry_id (snd p) = fst p"
    using assms by (auto simp: journal_ok_def rec_ok_def entry_ok_def)
  ultimately show ?thesis by (simp add: j_pending_def bt_values_def)
qed

interpretation fo: durable_outbox journal_enqueue journal_peek journal_acknowledge j_pending
  j_next_id j_capacity journal_ok
proof (standard, goal_cases)
  case (1 s)
  then show ?case using map_fst_entries bt.keys_sorted [OF j_entries_wf] by simp
next
  case (2 s e)
  then have "entry_id e \<in> set (bt_keys (j_entries s))"
    using map_fst_entries [OF 2(1)] by (metis image_eqI image_set)
  then show ?case using j_entries_below [OF 2(1)] by blast
next
  case (3 s m s' i)
  then show ?case
    using journal_enqueue_Inr [OF 3] less_succ_u64 by (auto simp: j_pending_def bt_values_def)
next
  case (4 s m s' err)
  then show ?case using journal_enqueue_Inl [OF 4(1,3)] by (simp add: j_pending_def)
next
  case (5 s n es)
  then show ?case by (auto simp: journal_peek_def j_pending_def)
next
  case (6 s ids s' n)
  note ack = journal_acknowledge_Inr [OF 6]
  then have "j_pending s' = filter (\<lambda>e. entry_id e \<notin> set ids) (j_pending s)"
    using pending_filter [OF 6(1)] by (simp add: j_pending_def bt_values_def)
  then show ?case
    using ack existing_count [OF 6(1)] length_pending [of s] length_pending [of s'] by simp
next
  case (7 s ids s' err)
  then show ?case using journal_acknowledge_Inl [OF 7] by (simp add: j_pending_def)
qed

end
