(* ===== verification/Outbox_Properties.thy ===== *)
theory Outbox_Properties
  imports Outbox_Journal
begin

section \<open>Durability, crashes and identifiers of the file outbox\<close>

text \<open>
  Properties of the journal across worker sessions, restarts and crashes, and the two
  situations in which the journal on disk becomes unreadable.
\<close>

fun request_ok :: "request \<Rightarrow> bool" where
  "request_ok (Enqueue_Request m) \<longleftrightarrow> utf8_valid (destination m)"
| "request_ok _ \<longleftrightarrow> True"

text \<open>
  The life of a journal on one path, with the identifiers that \<open>enqueue\<close> reported so far.  A
  crash may leave any prefix of the record being appended behind the synchronised file.
\<close>

inductive outbox_history :: "journal \<Rightarrow> outbox_id list \<Rightarrow> bool" where
  started: "file_outbox_open io script False file cap = (file', Inr j) \<Longrightarrow>
    \<forall>x\<in>set script. rolls_back x \<Longrightarrow> outbox_history j []"
| enqueued: "outbox_history j ids \<Longrightarrow> utf8_valid (destination m) \<Longrightarrow>
    journal_enqueue j m = (j', Inr i) \<Longrightarrow> outbox_history j' (ids @ [i])"
| not_enqueued: "outbox_history j ids \<Longrightarrow> utf8_valid (destination m) \<Longrightarrow>
    journal_enqueue j m = (j', Inl e) \<Longrightarrow> outbox_history j' ids"
| acknowledged: "outbox_history j ids \<Longrightarrow> journal_acknowledge j acks = (j', res) \<Longrightarrow>
    outbox_history j' ids"
| compacted: "outbox_history j ids \<Longrightarrow> journal_compact cio j = (j', res') \<Longrightarrow> outbox_history j' ids"
| restarted: "outbox_history j ids \<Longrightarrow>
    file_outbox_open io script False (j_disk j) cap = (file', Inr j') \<Longrightarrow>
    \<forall>x\<in>set script. rolls_back x \<Longrightarrow> outbox_history j' ids"
| crashed: "outbox_history j ids \<Longrightarrow> valid_payload p \<Longrightarrow>
    file_outbox_open None script False (j_disk j @ take n (record_frame p)) cap = (file', Inr j') \<Longrightarrow>
    \<forall>x\<in>set script. rolls_back x \<Longrightarrow> outbox_history j' ids"

lemma file_outbox_openD:
  assumes "file_outbox_open io script False file cap = (file', Inr j)" and "\<forall>x\<in>set script. rolls_back x"
  shows "journal_ok j" and "j_disk j = file'" and "recover io file = (file', Inr (rec_of j))"
proof -
  have "journal_open io script False file cap = (file', Inr j)"
    using assms(1) by (auto simp: file_outbox_open_def split: if_splits)
  from journal_open_ok [OF this assms(2)]
  show "journal_ok j" and "j_disk j = file'" and "recover io file = (file', Inr (rec_of j))" by auto
qed

lemma file_outbox_reopen:
  assumes "journal_ok j" and "0 < cap" and "cap \<le> MAX_CAPACITY"
  shows "file_outbox_open io script False (j_disk j) cap = (j_disk j,
    Inr \<lparr>j_capacity = cap, j_disk = j_disk j, j_next_id = j_next_id j, j_entries = j_entries j,
      j_poisoned = False, j_io = script\<rparr>)"
  using assms recover_replays [of "j_disk j" "rec_of j" io]
  by (simp add: file_outbox_open_def journal_open_def journal_ok_def)

lemma recover_whole_frame:
  assumes "replays file r" and "valid_payload p"
  shows "recover io (file @ record_frame p) =
    (case apply_record p r of Inl e \<Rightarrow> (file @ record_frame p, Inl e)
     | Inr r' \<Rightarrow> (file @ record_frame p, Inr r'))"
  using recover_append [OF assms(1), of io "record_frame p"]
    recover_loop_frame [OF assms(2), of "length file" "file @ record_frame p" "[]" io r]
    recover_loop_end [of io "file @ record_frame p"]
  by (cases "apply_record p r") simp_all

lemma apply_record_next_id_mono:
  assumes "apply_record p r = Inr r'"
  shows "rec_next_id r \<le> rec_next_id r'"
proof -
  obtain c where "apply_enqueue c r = Inr r' \<or> apply_acknowledge c r = Inr r' \<or> apply_checkpoint c r = Inr r'"
    using assms by (auto simp: apply_record_def split: if_splits)
  then show ?thesis
  proof (elim disjE)
    assume "apply_enqueue c r = Inr r'"
    from apply_enqueue_Inr [OF this] show ?thesis by auto
  next
    assume "apply_acknowledge c r = Inr r'"
    then obtain n c1 c2 where "ack_loop n c1 r = Inr (c2, r')" by (auto simp: apply_acknowledge_def)
    from ack_loop_Inr [OF this] show ?thesis by auto
  next
    assume "apply_checkpoint c r = Inr r'"
    then show ?thesis by (auto simp: apply_checkpoint_def split: if_splits)
  qed
qed

lemma crash_next_id:
  assumes "journal_ok j" and "valid_payload p"
    and "recover None (j_disk j @ take n (record_frame p)) = (f, Inr r)"
  shows "j_next_id j \<le> rec_next_id r"
proof (cases "n < length (record_frame p)")
  case True
  then show ?thesis
    using recover_torn_tail [OF _ assms(2) True] assms(1,3) by (auto simp: journal_ok_def)
next
  case False
  then have "recover None (j_disk j @ record_frame p) = (f, Inr r)" using assms(3) by simp
  then have "apply_record p (rec_of j) = Inr r"
    using recover_whole_frame [of "j_disk j" "rec_of j" p None] assms(1,2)
    by (auto simp: journal_ok_def split: sum.splits)
  from apply_record_next_id_mono [OF this] show ?thesis by simp
qed

lemma outbox_history_inv:
  "outbox_history j ids \<Longrightarrow> journal_ok j \<and> sorted_wrt (<) ids \<and> (\<forall>i\<in>set ids. i < j_next_id j)"
proof (induction rule: outbox_history.induct)
  case (started io script f cap f' j)
  then show ?case using file_outbox_openD by auto
next
  case (enqueued j ids m j' i)
  note step = journal_enqueue_Inr [OF _ enqueued(2,3)]
  then have "i = j_next_id j" "j_next_id j' = i + 1" "i \<noteq> - 1" using enqueued(4) by auto
  then show ?case
    using step enqueued(4) le_imp_less_succ_u64 [of i]
    by (auto simp: sorted_wrt_append less_imp_le)
next
  case (not_enqueued j ids m j' e)
  then show ?case using journal_enqueue_Inl [OF _ not_enqueued(3)] by auto
next
  case (acknowledged j ids acks j' res)
  then show ?case
    using journal_acknowledge_Inr [of j acks j'] journal_acknowledge_Inl [of j acks j']
    by (cases res) auto
next
  case (compacted j ids cio j' res')
  then show ?case using journal_compact_ok [OF _ compacted(2)] by auto
next
  case (restarted j ids io script cap f' j')
  have "rec_of j' = rec_of j"
    using file_outbox_openD(3) [OF restarted(2,3)] restarted(4)
      recover_replays [of "j_disk j" "rec_of j" io] by (simp add: journal_ok_def)
  then have "j_next_id j' = j_next_id j" by (metis rec_of_sel(1))
  then show ?case using file_outbox_openD(1) [OF restarted(2,3)] restarted(4) by auto
next
  case (crashed j ids p script n cap f' j')
  have "j_next_id j \<le> j_next_id j'"
    using crash_next_id [OF _ crashed(2) file_outbox_openD(3) [OF crashed(3,4)]] crashed(5) by auto
  then show ?case using file_outbox_openD(1) [OF crashed(3,4)] crashed(5) by fastforce
qed

lemma run_worker_ok:
  "journal_ok j \<Longrightarrow> \<forall>q\<in>set reqs. request_ok q \<Longrightarrow> journal_ok (fst (run_worker j reqs))"
proof (induction j reqs rule: run_worker.induct)
  case (3 j m rs)
  obtain j1 res where enq: "journal_enqueue j m = (j1, res)" by fastforce
  then have "journal_ok j1"
    using 3(2,3) journal_enqueue_Inr [of j m j1] journal_enqueue_Inl [of j m j1] by (cases res) auto
  then show ?case using 3(1) [OF enq [symmetric] refl] 3(3) enq by (simp add: case_prod_beta)
next
  case (4 j n rs)
  then show ?case by (simp add: case_prod_beta Let_def)
next
  case (5 j ids rs)
  obtain j1 res where ack: "journal_acknowledge j ids = (j1, res)" by fastforce
  then have "journal_ok j1"
    using 5(2) journal_acknowledge_Inr [of j ids j1] journal_acknowledge_Inl [of j ids j1]
    by (cases res) auto
  then show ?case using 5(1) [OF ack [symmetric] refl] 5(3) ack by (simp add: case_prod_beta)
next
  case (6 j io rs)
  obtain j1 res where com: "journal_compact io j = (j1, res)" by fastforce
  then have "journal_ok j1" using 6(2) journal_compact_ok by blast
  then show ?case using 6(1) [OF com [symmetric] refl] 6(3) com by (simp add: case_prod_beta)
qed simp_all

subsection \<open>Two ways to lose the journal\<close>

text \<open>
  Four bytes of a failed append that are not cut off are read as the magic number of the
  next record, whose own magic number is then read as a length.
\<close>

lemma recover_after_stray_magic:
  assumes "replays file r"
  shows "recover io (file @ take 4 (record_frame p) @ record_frame q) =
    (file @ take 4 (record_frame p) @ record_frame q, Inl InvalidData)"
proof -
  let ?f = "file @ take 4 (record_frame p) @ record_frame q"
  have "take 12 (take 4 (record_frame p) @ record_frame q) =
      to_le_bytes RECORD_MAGIC @ to_le_bytes RECORD_MAGIC @ to_le_bytes (word_of_nat (length q) :: u32)"
    by (simp add: record_frame_def)
  then have h: "take 12 (drop (length file) ?f) =
      to_le_bytes RECORD_MAGIC @ to_le_bytes RECORD_MAGIC @ to_le_bytes (word_of_nat (length q) :: u32)"
    by simp
  have "unat (from_le_bytes (take 4 (drop 4 (take 12 (drop (length file) ?f)))) :: u32) > MAX_RECORD_LEN"
    unfolding h by (simp add: RECORD_MAGIC_def MAX_RECORD_LEN_def)
  then have "recover_loop io ?f (length file) r = (?f, Inl InvalidData)"
    by (subst recover_loop.simps) (simp add: Let_def RECORD_HEADER_LEN_def del: drop_append take_append)
  then show ?thesis using recover_append [OF assms, of io "take 4 (record_frame p) @ record_frame q"] by simp
qed

lemma journal_enqueue_accepts:
  assumes "\<not> j_poisoned j" and "length (j_entries j) < j_capacity j" and "j_next_id j \<noteq> - 1"
    and "length (enqueue_payload (outbox_entry_new (j_next_id j) m 0)) \<le> MAX_RECORD_LEN"
  shows "journal_enqueue j m =
    (case journal_append j (enqueue_payload (outbox_entry_new (j_next_id j) m 0)) of
       (j1, Inl e) \<Rightarrow> (j1, Inl e)
     | (j1, Inr _) \<Rightarrow> (j1\<lparr>j_entries := bt_insert (j_next_id j) (outbox_entry_new (j_next_id j) m 0) (j_entries j1),
         j_next_id := j_next_id j + 1\<rparr>, Inr (j_next_id j)))"
proof -
  have "encode_enqueue (outbox_entry_new (j_next_id j) m 0) =
      Inr (enqueue_payload (outbox_entry_new (j_next_id j) m 0))"
    using assms(4) by (simp add: encode_enqueue_Inr)
  then show ?thesis
    using assms(1-3) by (simp add: journal_enqueue_def ensure_healthy_def checked_succ_u64_def Let_def)
qed

lemma enqueue_payload_nonempty [simp]: "enqueue_payload e \<noteq> []"
  by (simp add: enqueue_payload_def)

definition fresh_journal :: journal where
  "fresh_journal = \<lparr>j_capacity = 4, j_disk = file_header, j_next_id = 1, j_entries = [],
     j_poisoned = False, j_io = []\<rparr>"

definition sample_message :: outbox_message where
  "sample_message = \<lparr>destination = [0x75, 0x70], msg_payload = [1, 2, 3], created_at = 7\<rparr>"

lemma fresh_open: "file_outbox_open None [] False [] 4 = (file_header, Inr fresh_journal)"
  by (simp add: file_outbox_open_def journal_open_def recover_empty_file fresh_journal_def
      recovered_empty_def MAX_CAPACITY_def MAX_RECORD_LEN_def)

lemma fresh_journal_ok: "journal_ok fresh_journal"
  by (rule file_outbox_openD(1) [OF fresh_open]) simp

lemma sample_message_ok [simp]: "utf8_valid (destination sample_message)"
  by (simp add: sample_message_def)

subsection \<open>Properties\<close>



text \<open>
  C8: the journal is a FIFO queue with durable identifiers.  A successful \<open>enqueue\<close> appends
  one entry under the next identifier, a successful \<open>acknowledge\<close> removes exactly the named
  entries and counts them, \<open>peek\<close> returns the oldest ones, and a failed call changes nothing.
\<close>

theorem file_outbox_is_fifo_queue:
  assumes "journal_ok j" and "utf8_valid (destination m)"
  shows "(case journal_enqueue j m of
        (j', Inr i) \<Rightarrow> journal_ok j' \<and> i = j_next_id j \<and> j_pending j' = j_pending j @ [outbox_entry_new i m 0]
      | (j', Inl e) \<Rightarrow> journal_ok j' \<and> j_pending j' = j_pending j) \<and>
    (case journal_acknowledge j ids of
        (j', Inr n) \<Rightarrow> journal_ok j' \<and> j_pending j' = filter (\<lambda>e. entry_id e \<notin> set ids) (j_pending j) \<and>
          n = length (j_pending j) - length (j_pending j')
      | (j', Inl e) \<Rightarrow> journal_ok j' \<and> j_pending j' = j_pending j) \<and>
    (journal_peek j k = Inr (take k (j_pending j)) \<or> j_poisoned j)"
proof (intro conjI)
  obtain j1 r where e: "journal_enqueue j m = (j1, r)" by fastforce
  then show "case journal_enqueue j m of
        (j', Inr i) \<Rightarrow> journal_ok j' \<and> i = j_next_id j \<and> j_pending j' = j_pending j @ [outbox_entry_new i m 0]
      | (j', Inl e) \<Rightarrow> journal_ok j' \<and> j_pending j' = j_pending j"
    using fo.enqueue_Inr [OF assms, of j1] fo.enqueue_Inl [OF assms, of j1] by (cases r) simp_all
  obtain j2 n where a: "journal_acknowledge j ids = (j2, n)" by fastforce
  then show "case journal_acknowledge j ids of
        (j', Inr n) \<Rightarrow> journal_ok j' \<and> j_pending j' = filter (\<lambda>e. entry_id e \<notin> set ids) (j_pending j) \<and>
          n = length (j_pending j) - length (j_pending j')
      | (j', Inl e) \<Rightarrow> journal_ok j' \<and> j_pending j' = j_pending j"
    using fo.acknowledge_Inr [OF assms(1), of ids j2] fo.acknowledge_Inl [OF assms(1), of ids j2]
    by (cases n) simp_all
  show "journal_peek j k = Inr (take k (j_pending j)) \<or> j_poisoned j"
    by (simp add: journal_peek_def ensure_healthy_def j_pending_def)
qed

theorem file_outbox_is_fifo_queue_witness:
  "journal_peek fresh_journal 2 = Inr (take 2 (j_pending fresh_journal)) \<or> j_poisoned fresh_journal"
  using file_outbox_is_fifo_queue [OF fresh_journal_ok sample_message_ok, of "[]" 2] by blast

text \<open>
  C16: appends are atomic under a crash.  If the machine stops after any number of bytes of
  an \<open>enqueue\<close> record reached the file, reopening finds the queue as it was before the call,
  or, when the whole record is there, as it would have been after it.
\<close>

theorem crash_during_enqueue_is_atomic:
  assumes "journal_ok j" and "utf8_valid (destination m)" and "j_next_id j \<noteq> - 1"
    and "encode_enqueue (outbox_entry_new (j_next_id j) m 0) = Inr p"
  shows "\<exists>f r. recover None (j_disk j @ take n (record_frame p)) = (f, Inr r) \<and>
    bt_values (rec_entries r) =
      (if n < length (record_frame p) then j_pending j
       else j_pending j @ [outbox_entry_new (j_next_id j) m 0])"
proof -
  let ?e = "outbox_entry_new (j_next_id j) m 0"
  have p: "p = enqueue_payload ?e" "length p \<le> MAX_RECORD_LEN"
    using assms(4) by (auto simp: encode_enqueue_Inr)
  then have v: "valid_payload p" by (simp add: valid_payload_def)
  have disk: "replays (j_disk j) (rec_of j)" using assms(1) by (simp add: journal_ok_def)
  show ?thesis
  proof (cases "n < length (record_frame p)")
    case True
    with recover_torn_tail [OF disk v True] show ?thesis by (simp add: j_pending_def)
  next
    case False
    have "apply_record p (rec_of j) = Inr ((rec_of j)\<lparr>rec_next_id := max (j_next_id j) (j_next_id j + 1),
        rec_entries := j_entries j @ [(j_next_id j, ?e)]\<rparr>)"
      using apply_record_enqueue [of ?e "rec_of j"] p assms(2,3) fresh_not_contained [OF assms(1)]
        insert_fresh [OF assms(1)] by simp
    with recover_whole_frame [OF disk v, of None] False show ?thesis
      by (simp add: j_pending_def bt_values_def)
  qed
qed

theorem crash_during_enqueue_is_atomic_witness:
  "\<exists>f r. recover None (j_disk fresh_journal @
      take 20 (record_frame (enqueue_payload (outbox_entry_new 1 sample_message 0)))) = (f, Inr r) \<and>
    bt_values (rec_entries r) = j_pending fresh_journal"
proof -
  have "encode_enqueue (outbox_entry_new (j_next_id fresh_journal) sample_message 0) =
      Inr (enqueue_payload (outbox_entry_new 1 sample_message 0))"
    by (simp add: encode_enqueue_Inr fresh_journal_def length_enqueue_payload sample_message_def
        MAX_RECORD_LEN_def)
  from crash_during_enqueue_is_atomic [OF fresh_journal_ok sample_message_ok _ this, of 20]
  show ?thesis by (simp add: fresh_journal_def length_enqueue_payload)
qed



text \<open>
  C18: the forwarder over the journal delivers at least once.  One pass publishes a prefix
  of the pending entries in order, removes from the journal a prefix of what it published,
  and leaves a journal that still satisfies the invariant.
\<close>

theorem file_forwarder_at_least_once:
  assumes "journal_ok j"
    and "drain_once journal_peek journal_acknowledge (logged publish) limit j (p, log) = (j', (p', log'), res)"
  shows "journal_ok j' \<and> (\<exists>acked published.
    log' = log @ map entry_message (take published (j_pending j)) \<and>
    j_pending j' = drop acked (j_pending j) \<and>
    acked \<le> published \<and> published \<le> Suc acked \<and> published \<le> min (length (j_pending j)) limit \<and>
    (\<forall>rep. res = Inr rep \<longrightarrow> acked = min (length (j_pending j)) limit \<and> delivered rep = acked))"
  by (rule fo.drain_at_least_once [OF assms])

theorem file_forwarder_at_least_once_witness:
  "journal_ok fresh_journal \<and> (\<exists>acked published.
    [] @ [] = [] @ map entry_message (take published (j_pending fresh_journal)) \<and>
    j_pending fresh_journal = drop acked (j_pending fresh_journal))"
proof -
  have "drain_once journal_peek journal_acknowledge (logged (\<lambda>p m. (p, Inr ()))) 3 fresh_journal ((), []) =
      (fresh_journal, ((), []), Inr \<lparr>examined = 0, delivered = 0\<rparr>)"
    by (simp add: drain_once_def journal_peek_def ensure_healthy_def fresh_journal_def bt_values_def)
  from file_forwarder_at_least_once [OF fresh_journal_ok this] show ?thesis by auto
qed

text \<open>
  The record codec is a round trip.  Whatever \<open>encode_enqueue\<close> accepts, \<open>apply_record\<close>
  reads back as the same entry, and the identifier counter moves past it.
\<close>

lemma enqueue_record_roundtrip:
  assumes "encode_enqueue e = Inr p" and "utf8_valid (destination (entry_message e))"
    and "\<not> bt_contains_key (rec_entries r) (entry_id e)" and "entry_id e \<noteq> - 1"
  shows "apply_record p r = Inr (r\<lparr>rec_next_id := max (rec_next_id r) (entry_id e + 1),
    rec_entries := bt_insert (entry_id e) e (rec_entries r)\<rparr>)"
  using assms apply_record_enqueue [of e r] by (auto simp: encode_enqueue_Inr)

text \<open>
  C19: a journal whose creation was interrupted stays unusable.  If the machine stops while
  the first 16 bytes are being written, so that between 1 and 15 of them are on disk, every
  later open fails with \<open>InvalidData\<close> and leaves the file as it is.
\<close>

theorem interrupted_creation_is_permanent:
  assumes "0 < n" and "n < 16" and "0 < cap" and "cap \<le> MAX_CAPACITY"
  shows "file_outbox_open io script False (take n file_header) cap = (take n file_header, Inl InvalidData)"
  using recover_torn_header [OF assms(1,2), of io] assms(3,4)
  by (simp add: file_outbox_open_def journal_open_def)

theorem interrupted_creation_is_permanent_witness:
  "file_outbox_open None [] False (take 8 file_header) 4 = (take 8 file_header, Inl InvalidData)"
  by (rule interrupted_creation_is_permanent) (simp_all add: MAX_CAPACITY_def MAX_RECORD_LEN_def)



end
