(* ===== verification/Rust_Strings.thy ===== *)
theory Rust_Strings
  imports Edge_Ports
begin

section \<open>Strings of the standard library\<close>

text \<open>
  What the source uses of \<open>str\<close>: formatting an unsigned integer in decimal, \<open>parse\<close> of
  unsigned integers, \<open>split\<close> on an ASCII separator, and whether a string is blank after
  \<open>trim\<close>.  Strings are UTF-8 bytes.
\<close>

definition ascii :: "string \<Rightarrow> bytes" where
  "ascii s = map of_char s"

fun dec_digits :: "nat \<Rightarrow> bytes" where
  "dec_digits n = (if n < 10 then [0x30 + word_of_nat n] else dec_digits (n div 10) @ [0x30 + word_of_nat (n mod 10)])"

declare dec_digits.simps [simp del]

definition digit_value :: "u8 \<Rightarrow> nat option" where
  "digit_value b = (if 0x30 \<le> b \<and> b \<le> 0x39 then Some (unat b - 0x30) else None)"

fun digits_value :: "nat \<Rightarrow> bytes \<Rightarrow> nat option" where
  "digits_value acc [] = Some acc"
| "digits_value acc (b # bs) =
     (case digit_value b of None \<Rightarrow> None | Some d \<Rightarrow> digits_value (10 * acc + d) bs)"

text \<open>
  \<open>parse\<close> for an unsigned type of \<open>w\<close> bits: an optional plus sign, at least one digit, no
  overflow.
\<close>

definition parse_unsigned :: "nat \<Rightarrow> bytes \<Rightarrow> nat option" where
  "parse_unsigned w s =
     (let ds = (case s of b # bs \<Rightarrow> if b = 0x2B then bs else s | [] \<Rightarrow> []) in
      if ds = [] then None
      else case digits_value 0 ds of
        None \<Rightarrow> None
      | Some n \<Rightarrow> if n < 2 ^ w then Some n else None)"

definition parse_u32 :: "bytes \<Rightarrow> u32 option" where
  "parse_u32 s = map_option word_of_nat (parse_unsigned 32 s)"

fun str_split :: "u8 \<Rightarrow> bytes \<Rightarrow> bytes list" where
  "str_split sep [] = [[]]"
| "str_split sep (b # bs) =
     (if b = sep then [] # str_split sep bs
      else case str_split sep bs of p # ps \<Rightarrow> (b # p) # ps | [] \<Rightarrow> [[b]])"

text \<open>\<open>trim\<close> removes Unicode white space; the result is empty for exactly these strings.\<close>

fun str_blank :: "bytes \<Rightarrow> bool" where
  "str_blank [] \<longleftrightarrow> True"
| "str_blank (b # bs) \<longleftrightarrow>
     (if (0x09 \<le> b \<and> b \<le> 0x0D) \<or> b = 0x20 then str_blank bs
      else case bs of
        c # rest \<Rightarrow>
          if b = 0xC2 \<and> (c = 0x85 \<or> c = 0xA0) then str_blank rest
          else (case rest of
            d # rest' \<Rightarrow>
              ((b = 0xE1 \<and> c = 0x9A \<and> d = 0x80) \<or>
               (b = 0xE2 \<and> c = 0x80 \<and> (0x80 \<le> d \<and> d \<le> 0x8A \<or> d = 0xA8 \<or> d = 0xA9 \<or> d = 0xAF)) \<or>
               (b = 0xE2 \<and> c = 0x81 \<and> d = 0x9F) \<or>
               (b = 0xE3 \<and> c = 0x80 \<and> d = 0x80)) \<and> str_blank rest'
          | [] \<Rightarrow> False)
      | [] \<Rightarrow> False)"

subsection \<open>Numbers round-trip\<close>

lemma digit_value_digit: "d < 10 \<Longrightarrow> digit_value (0x30 + word_of_nat d) = Some d"
proof -
  assume d: "d < 10"
  then have "unat (0x30 + word_of_nat d :: u8) = 0x30 + d"
    by (simp add: unat_word_ariths unat_of_nat)
  with d show ?thesis
    by (simp add: digit_value_def word_le_nat_alt)
qed

lemma digits_value_append:
  "digits_value acc (xs @ ys) = (case digits_value acc xs of None \<Rightarrow> None | Some a \<Rightarrow> digits_value a ys)"
  by (induction xs arbitrary: acc) (auto split: option.splits)

lemma dec_digits_nonempty [simp]: "dec_digits n \<noteq> []"
  by (subst dec_digits.simps) simp

lemma digits_value_dec: "digits_value 0 (dec_digits n) = Some n"
proof (induction n rule: dec_digits.induct)
  case (1 n)
  show ?case
  proof (cases "n < 10")
    case True
    then show ?thesis by (subst dec_digits.simps) (simp add: digit_value_digit)
  next
    case False
    then show ?thesis
      using 1 by (subst dec_digits.simps) (simp add: digits_value_append digit_value_digit)
  qed
qed

lemma dec_digits_are_digits: "b \<in> set (dec_digits n) \<Longrightarrow> 0x30 \<le> b \<and> b \<le> 0x39"
proof (induction n rule: dec_digits.induct)
  case (1 n)
  have d: "0x30 \<le> (0x30 + word_of_nat d :: u8) \<and> (0x30 + word_of_nat d :: u8) \<le> 0x39" if "d < 10" for d
    using that by (simp add: word_le_nat_alt unat_word_ariths unat_of_nat)
  show ?case
  proof (cases "n < 10")
    case True
    with 1(2) d show ?thesis by (subst (asm) dec_digits.simps) simp
  next
    case False
    with 1 d [of "n mod 10"] show ?thesis by (subst (asm) (2) dec_digits.simps) auto
  qed
qed

lemma dec_digits_no_sep: "b < 0x30 \<or> 0x39 < b \<Longrightarrow> b \<notin> set (dec_digits n)"
  using dec_digits_are_digits [of b n] by auto

lemma parse_unsigned_dec: "n < 2 ^ w \<Longrightarrow> parse_unsigned w (dec_digits n) = Some n"
proof -
  assume n: "n < 2 ^ w"
  obtain b bs where b: "dec_digits n = b # bs" by (cases "dec_digits n") auto
  moreover have "b \<noteq> 0x2B" using dec_digits_are_digits [of b n] b by auto
  ultimately show ?thesis
    using n digits_value_dec [of n] by (simp add: parse_unsigned_def)
qed

lemma parse_u32_dec [simp]: "parse_u32 (dec_digits (unat w)) = Some w"
  using parse_unsigned_dec [of "unat w" 32] unat_u32_bound [of w] by (simp add: parse_u32_def)

subsection \<open>Splitting\<close>

lemma str_split_nonempty [simp]: "str_split sep s \<noteq> []"
  by (cases s) (auto split: list.splits)

lemma str_split_no_sep: "sep \<notin> set s \<Longrightarrow> str_split sep s = [s]"
  by (induction s) auto

lemma str_split_cons: "sep \<notin> set s \<Longrightarrow> str_split sep (s @ sep # t) = s # str_split sep t"
  by (induction s) auto

lemma str_split_concat:
  "s = (case str_split sep s of p # ps \<Rightarrow> p @ concat (map (\<lambda>q. sep # q) ps) | [] \<Rightarrow> [])"
proof (induction s)
  case (Cons b bs)
  then show ?case by (cases "str_split sep bs") (auto split: list.splits)
qed simp

end
