(* ===== verification/F64_Arith.thy ===== *)
theory F64_Arith
  imports F64_Bits "HOL-Library.Log_Nat"
begin

section \<open>Comparison and arithmetic of \<open>f64\<close>\<close>

text \<open>
  The comparison operators and the operations \<open>-\<close>, \<open>*\<close>, \<open>%\<close> and \<open>abs\<close> of the language on bit
  patterns.  A finite pattern denotes an integer multiple of a power of two; the exact
  result of an operation is such a number again (for \<open>%\<close> it is always representable), and
  \<open>f64_round\<close> rounds it to nearest, ties to even.  Packing the rounded significand into the
  exponent field by addition lets a carry out of the significand become the next exponent
  and an overflow become infinity.
\<close>

subsection \<open>Order\<close>

definition f64_magnitude :: "f64 \<Rightarrow> int" where
  "f64_magnitude b = uint (b AND 0x7FFFFFFFFFFFFFFF)"

definition f64_sign :: "f64 \<Rightarrow> bool" where
  "f64_sign b = bit b 63"

text \<open>The order of the reals on non-NaN patterns; both zeros have key 0.\<close>

definition f64_key :: "f64 \<Rightarrow> int" where
  "f64_key b = (if f64_sign b then - f64_magnitude b else f64_magnitude b)"

definition f64_lt :: "f64 \<Rightarrow> f64 \<Rightarrow> bool" where
  "f64_lt a b \<longleftrightarrow> \<not> f64_is_nan a \<and> \<not> f64_is_nan b \<and> f64_key a < f64_key b"

definition f64_le :: "f64 \<Rightarrow> f64 \<Rightarrow> bool" where
  "f64_le a b \<longleftrightarrow> \<not> f64_is_nan a \<and> \<not> f64_is_nan b \<and> f64_key a \<le> f64_key b"

definition f64_eq :: "f64 \<Rightarrow> f64 \<Rightarrow> bool" where
  "f64_eq a b \<longleftrightarrow> \<not> f64_is_nan a \<and> \<not> f64_is_nan b \<and> f64_key a = f64_key b"

subsection \<open>Arithmetic\<close>

definition F64_NAN :: f64 where
  "F64_NAN = 0x7FF8000000000000"

definition F64_INFINITY :: f64 where
  "F64_INFINITY = 0x7FF0000000000000"

definition f64_is_infinite :: "f64 \<Rightarrow> bool" where
  "f64_is_infinite b \<longleftrightarrow> \<not> f64_is_finite b \<and> \<not> f64_is_nan b"

definition f64_is_zero :: "f64 \<Rightarrow> bool" where
  "f64_is_zero b \<longleftrightarrow> f64_magnitude b = 0"

definition with_sign :: "bool \<Rightarrow> f64 \<Rightarrow> f64" where
  "with_sign s b = (if s then b OR 0x8000000000000000 else b)"

definition f64_abs :: "f64 \<Rightarrow> f64" where
  "f64_abs b = b AND 0x7FFFFFFFFFFFFFFF"

text \<open>A finite pattern as significand and exponent of two.\<close>

definition f64_significand :: "f64 \<Rightarrow> int" where
  "f64_significand b =
     (let frac = uint (b AND f64_fraction_mask); expo = uint (drop_bit 52 b AND 0x7FF);
          m = (if expo = 0 then frac else 2 ^ 52 + frac)
      in if f64_sign b then - m else m)"

definition f64_exponent :: "f64 \<Rightarrow> int" where
  "f64_exponent b = max 1 (uint (drop_bit 52 b AND 0x7FF)) - 1075"

definition round_half_even :: "int \<Rightarrow> int \<Rightarrow> int" where
  "round_half_even n d =
     (let q = n div d; r = n mod d in
      if 2 * r < d then q else if 2 * r > d then q + 1 else if even q then q else q + 1)"

definition f64_round :: "bool \<Rightarrow> int \<Rightarrow> int \<Rightarrow> f64" where
  "f64_round s m e =
     (if m = 0 then with_sign s 0
      else
        let e' = max (- 1074) (e + bitlen m - 53);
            m' = (if e' \<le> e then m * 2 ^ nat (e - e') else round_half_even m (2 ^ nat (e' - e)));
            packed = (e' + 1074) * 2 ^ 52 + m'
        in with_sign s (if packed \<ge> 0x7FF0000000000000 then F64_INFINITY else word_of_int packed))"

definition f64_sub :: "f64 \<Rightarrow> f64 \<Rightarrow> f64" where
  "f64_sub a b =
     (if f64_is_nan a \<or> f64_is_nan b then F64_NAN
      else if f64_is_infinite a then
        (if f64_is_infinite b \<and> f64_sign a = f64_sign b then F64_NAN else a)
      else if f64_is_infinite b then with_sign (\<not> f64_sign b) F64_INFINITY
      else if f64_is_zero a \<and> f64_is_zero b then with_sign (f64_sign a \<and> \<not> f64_sign b) 0
      else
        let e = min (f64_exponent a) (f64_exponent b);
            d = f64_significand a * 2 ^ nat (f64_exponent a - e) -
                f64_significand b * 2 ^ nat (f64_exponent b - e)
        in f64_round (d < 0) \<bar>d\<bar> e)"

definition f64_mul :: "f64 \<Rightarrow> f64 \<Rightarrow> f64" where
  "f64_mul a b =
     (let s = (f64_sign a \<noteq> f64_sign b) in
      if f64_is_nan a \<or> f64_is_nan b then F64_NAN
      else if f64_is_infinite a \<or> f64_is_infinite b then
        (if f64_is_zero a \<or> f64_is_zero b then F64_NAN else with_sign s F64_INFINITY)
      else f64_round s \<bar>f64_significand a * f64_significand b\<bar> (f64_exponent a + f64_exponent b))"

definition f64_rem :: "f64 \<Rightarrow> f64 \<Rightarrow> f64" where
  "f64_rem a b =
     (if f64_is_nan a \<or> f64_is_nan b \<or> f64_is_infinite a \<or> f64_is_zero b then F64_NAN
      else if f64_is_infinite b then a
      else
        let e = min (f64_exponent a) (f64_exponent b);
            x = \<bar>f64_significand a\<bar> * 2 ^ nat (f64_exponent a - e);
            y = \<bar>f64_significand b\<bar> * 2 ^ nat (f64_exponent b - e)
        in f64_round (f64_sign a) (x mod y) e)"

definition f64_neg :: "f64 \<Rightarrow> f64" where
  "f64_neg b = b XOR 0x8000000000000000"

definition f64_add :: "f64 \<Rightarrow> f64 \<Rightarrow> f64" where
  "f64_add a b = (if f64_is_nan b then F64_NAN else f64_sub a (f64_neg b))"

text \<open>
  A quotient is rounded through a shifted integer quotient of at least 55 bits whose last bit
  records whether the division was exact.
\<close>

definition sticky_quotient :: "int \<Rightarrow> int \<Rightarrow> int \<times> int" where
  "sticky_quotient n d =
     (let k = max 0 (bitlen d - bitlen n + 56); x = n * 2 ^ nat k
      in (2 * (x div d) + (if x mod d \<noteq> 0 then 1 else 0), - k - 1))"

definition f64_div :: "f64 \<Rightarrow> f64 \<Rightarrow> f64" where
  "f64_div a b =
     (let s = (f64_sign a \<noteq> f64_sign b) in
      if f64_is_nan a \<or> f64_is_nan b then F64_NAN
      else if f64_is_infinite a then (if f64_is_infinite b then F64_NAN else with_sign s F64_INFINITY)
      else if f64_is_infinite b then with_sign s 0
      else if f64_is_zero b then (if f64_is_zero a then F64_NAN else with_sign s F64_INFINITY)
      else
        let (q, e) = sticky_quotient \<bar>f64_significand a\<bar> \<bar>f64_significand b\<bar>
        in f64_round s q (e + f64_exponent a - f64_exponent b))"

subsection \<open>Conversions\<close>

text \<open>
  The \<open>as\<close> casts: an integer rounds to nearest, a float truncates and saturates, a
  binary32 pattern widens exactly (a NaN becomes quiet).
\<close>

definition f64_of_int :: "int \<Rightarrow> f64" where
  "f64_of_int i = f64_round (i < 0) \<bar>i\<bar> 0"

definition f64_as_i64 :: "f64 \<Rightarrow> u64" where
  "f64_as_i64 b =
     (if f64_is_nan b then 0
      else if f64_is_infinite b then (if f64_sign b then 0x8000000000000000 else 0x7FFFFFFFFFFFFFFF)
      else
        let e = f64_exponent b; m = \<bar>f64_significand b\<bar>;
            t = (if e \<ge> 0 then m * 2 ^ nat e else m div 2 ^ nat (- e));
            v = (if f64_sign b then - t else t)
        in word_of_int (max (- (2 ^ 63)) (min (2 ^ 63 - 1) v)))"

definition f32_as_f64 :: "u32 \<Rightarrow> f64" where
  "f32_as_f64 b =
     (let s = bit b 31; expo = uint (drop_bit 23 b AND 0xFF); frac = uint (b AND 0x7FFFFF) in
      if expo = 255 then
        (if frac = 0 then with_sign s F64_INFINITY
         else with_sign s (F64_NAN OR word_of_int (frac * 2 ^ 29)))
      else f64_round s (if expo = 0 then frac else 2 ^ 23 + frac) (max 1 expo - 150))"

definition f64_as_f32 :: "f64 \<Rightarrow> u32" where
  "f64_as_f32 b =
     (let s = (if f64_sign b then 0x80000000 else 0 :: u32) in
      if f64_is_nan b then s OR 0x7FC00000
      else if f64_is_infinite b then s OR 0x7F800000
      else
        let m = \<bar>f64_significand b\<bar>; e = f64_exponent b in
        if m = 0 then s
        else
          let e' = max (- 149) (e + bitlen m - 24);
              m' = (if e' \<le> e then m * 2 ^ nat (e - e') else round_half_even m (2 ^ nat (e' - e)));
              packed = (e' + 149) * 2 ^ 23 + m'
          in s OR (if packed \<ge> 0x7F800000 then 0x7F800000 else word_of_int packed))"

subsection \<open>Facts about the order\<close>

lemma f64_lt_irrefl [simp]: "\<not> f64_lt a a"
  by (simp add: f64_lt_def)

lemma f64_lt_trans: "f64_lt a b \<Longrightarrow> f64_lt b c \<Longrightarrow> f64_lt a c"
  by (simp add: f64_lt_def)

lemma f64_not_lt: "\<not> f64_is_nan a \<Longrightarrow> \<not> f64_is_nan b \<Longrightarrow> \<not> f64_lt a b \<longleftrightarrow> f64_le b a"
  by (auto simp: f64_lt_def f64_le_def)

lemma f64_le_trans: "f64_le a b \<Longrightarrow> f64_le b c \<Longrightarrow> f64_le a c"
  by (simp add: f64_le_def)

lemma f64_le_antisym: "f64_le a b \<Longrightarrow> f64_le b a \<Longrightarrow> f64_eq a b"
  by (simp add: f64_le_def f64_eq_def)

lemmas f64_order_defs = f64_lt_def f64_le_def f64_eq_def f64_key_def f64_sign_def f64_magnitude_def

end
