(* ===== verification/Edge_Domain.thy ===== *)
theory Edge_Domain
  imports Rust_Strings F64_Arith
begin

section \<open>Domain values and their validation (aether-domain/src)\<close>

text \<open>
  Point addresses, samples, commands and alarm policies.  Constructors that validate are
  functions into \<open>domain_error + _\<close> with the checks in the order of the source.  The
  identifiers of \<open>identity.rs\<close> are transparent wrappers and appear as their words.
\<close>

subsection \<open>Points (point.rs)\<close>

datatype point_kind = Telemetry | Status | Command | Action

definition is_writable :: "point_kind \<Rightarrow> bool" where
  "is_writable k \<longleftrightarrow> (case k of Command \<Rightarrow> True | Action \<Rightarrow> True | _ \<Rightarrow> False)"

definition is_acquisition_owned :: "point_kind \<Rightarrow> bool" where
  "is_acquisition_owned k \<longleftrightarrow> (case k of Telemetry \<Rightarrow> True | Status \<Rightarrow> True | _ \<Rightarrow> False)"

datatype domain_error =
    PointNotWritable point_kind
  | PointNotAcquisitionOwned point_kind
  | PointNotCommandOwned point_kind
  | NonFiniteAcquiredValue
  | NonFiniteAcquiredRawValue
  | NonFiniteCommandValue
  | InvalidCommandWindow
  | CommandExpired
  | InvalidCommandConstraints
  | CommandValueOutOfRange
  | CommandValueOffStep
  | InvalidAlarmSeverity
  | InvalidAlarmComparator
  | InvalidAlarmTarget
  | InvalidAlarmRuleName
  | NonFiniteAlarmThreshold

record channel_point_address =
  cpa_channel :: u32
  cpa_kind :: point_kind
  cpa_point :: u32

record channel_command_address =
  cca_channel :: u32
  cca_kind :: point_kind
  cca_point :: u32

definition channel_command_address_new ::
    "u32 \<Rightarrow> point_kind \<Rightarrow> u32 \<Rightarrow> domain_error + channel_command_address" where
  "channel_command_address_new c k p =
     (if \<not> is_writable k then Inl (PointNotCommandOwned k)
      else Inr \<lparr>cca_channel = c, cca_kind = k, cca_point = p\<rparr>)"

definition channel_point_address_new ::
    "u32 \<Rightarrow> point_kind \<Rightarrow> u32 \<Rightarrow> domain_error + channel_point_address" where
  "channel_point_address_new c k p =
     (if \<not> is_acquisition_owned k then Inl (PointNotAcquisitionOwned k)
      else Inr \<lparr>cpa_channel = c, cpa_kind = k, cpa_point = p\<rparr>)"

record point_address =
  pa_instance :: u32
  pa_kind :: point_kind
  pa_point :: u32

datatype point_quality = Good | Uncertain | Bad | QualityUnavailable

record acquired_point_sample =
  aps_address :: channel_point_address
  aps_value :: f64
  aps_raw :: f64
  aps_timestamp :: u64
  aps_quality :: point_quality

definition acquired_point_sample_new ::
    "channel_point_address \<Rightarrow> f64 \<Rightarrow> f64 \<Rightarrow> u64 \<Rightarrow> point_quality \<Rightarrow> domain_error + acquired_point_sample" where
  "acquired_point_sample_new a v raw ts q =
     (if \<not> f64_is_finite v then Inl NonFiniteAcquiredValue
      else if \<not> f64_is_finite raw then Inl NonFiniteAcquiredRawValue
      else Inr \<lparr>aps_address = a, aps_value = v, aps_raw = raw, aps_timestamp = ts, aps_quality = q\<rparr>)"

subsection \<open>Commands (command.rs)\<close>

definition DEFAULT_COMMAND_TTL_MS :: u64 where
  "DEFAULT_COMMAND_TTL_MS = 5000"

record command_constraints =
  minimum :: "f64 option"
  maximum :: "f64 option"
  cmd_step :: "f64 option"

definition is_some_and :: "('a \<Rightarrow> bool) \<Rightarrow> 'a option \<Rightarrow> bool" where
  "is_some_and f x = (case x of None \<Rightarrow> False | Some v \<Rightarrow> f v)"

definition command_constraints_new ::
    "f64 option \<Rightarrow> f64 option \<Rightarrow> f64 option \<Rightarrow> domain_error + command_constraints" where
  "command_constraints_new lo hi st =
     (if is_some_and (\<lambda>v. \<not> f64_is_finite v) lo \<or> is_some_and (\<lambda>v. \<not> f64_is_finite v) hi \<or>
         is_some_and (\<lambda>v. \<not> f64_is_finite v \<or> f64_le v 0) st \<or>
         (case (lo, hi) of (Some a, Some b) \<Rightarrow> f64_lt b a | _ \<Rightarrow> False)
      then Inl InvalidCommandConstraints
      else Inr \<lparr>minimum = lo, maximum = hi, cmd_step = st\<rparr>)"

definition command_constraints_unbounded :: command_constraints where
  "command_constraints_unbounded = \<lparr>minimum = None, maximum = None, cmd_step = None\<rparr>"

definition F64_EPSILON :: f64 where
  "F64_EPSILON = 0x3CB0000000000000"

text \<open>The literals \<open>8.0\<close>, \<open>1.0e-9\<close> and \<open>1.0e-6\<close> of the source as the compiler reads them.\<close>

definition f64_8 :: f64 where
  "f64_8 = 0x4020000000000000"

definition f64_1e_minus_9 :: f64 where
  "f64_1e_minus_9 = 0x3E112E0BE826D695"

definition f64_1e_minus_6 :: f64 where
  "f64_1e_minus_6 = 0x3EB0C6F7A0B5ED8D"

definition step_distance :: "f64 \<Rightarrow> f64 \<Rightarrow> f64" where
  "step_distance offset st =
     (let remainder = f64_abs (f64_rem offset st); other = f64_abs (f64_sub st remainder)
      in if f64_lt remainder other then remainder else other)"

definition step_tolerance :: "f64 \<Rightarrow> f64 \<Rightarrow> f64" where
  "step_tolerance offset st =
     (let magnitude = f64_abs offset;
          representation_tolerance = f64_mul (f64_mul F64_EPSILON magnitude) f64_8;
          base_tolerance = f64_mul st f64_1e_minus_9;
          candidate = (if f64_lt base_tolerance representation_tolerance
                       then representation_tolerance else base_tolerance);
          maximum_tolerance = f64_mul st f64_1e_minus_6
      in if f64_lt candidate maximum_tolerance then candidate else maximum_tolerance)"

definition validate_value :: "command_constraints \<Rightarrow> f64 \<Rightarrow> domain_error + unit" where
  "validate_value c v =
     (if \<not> f64_is_finite v then Inl NonFiniteCommandValue
      else if is_some_and (\<lambda>lo. f64_lt v lo) (minimum c) \<or> is_some_and (\<lambda>hi. f64_lt hi v) (maximum c)
      then Inl CommandValueOutOfRange
      else case cmd_step c of
        None \<Rightarrow> Inr ()
      | Some st \<Rightarrow>
          let origin = (case minimum c of Some lo \<Rightarrow> lo | None \<Rightarrow> 0);
              offset = f64_sub v origin
          in if f64_lt (step_tolerance offset st) (step_distance offset st)
             then Inl CommandValueOffStep else Inr ())"

type_synonym command_id = "128 word"

record control_command =
  cc_id :: command_id
  cc_target :: point_address
  cc_value :: f64
  cc_issued_at :: u64
  cc_expires_at :: u64

definition control_command_new ::
    "command_id \<Rightarrow> point_address \<Rightarrow> f64 \<Rightarrow> u64 \<Rightarrow> u64 \<Rightarrow> domain_error + control_command" where
  "control_command_new i t v issued expires =
     (if \<not> is_writable (pa_kind t) then Inl (PointNotWritable (pa_kind t))
      else if \<not> f64_is_finite v then Inl NonFiniteCommandValue
      else if expires \<le> issued then Inl InvalidCommandWindow
      else Inr \<lparr>cc_id = i, cc_target = t, cc_value = v, cc_issued_at = issued, cc_expires_at = expires\<rparr>)"

definition control_validate_at ::
    "control_command \<Rightarrow> u64 \<Rightarrow> command_constraints \<Rightarrow> domain_error + unit" where
  "control_validate_at c now cs =
     (if now \<ge> cc_expires_at c then Inl CommandExpired else validate_value cs (cc_value c))"

record physical_command =
  pc_id :: command_id
  pc_target :: channel_command_address
  pc_value :: f64
  pc_issued_at :: u64
  pc_expires_at :: u64

definition physical_command_new ::
    "command_id \<Rightarrow> channel_command_address \<Rightarrow> f64 \<Rightarrow> u64 \<Rightarrow> u64 \<Rightarrow> domain_error + physical_command" where
  "physical_command_new i t v issued expires =
     (if \<not> f64_is_finite v then Inl NonFiniteCommandValue
      else if expires \<le> issued then Inl InvalidCommandWindow
      else Inr \<lparr>pc_id = i, pc_target = t, pc_value = v, pc_issued_at = issued, pc_expires_at = expires\<rparr>)"

definition physical_validate_at :: "physical_command \<Rightarrow> u64 \<Rightarrow> domain_error + unit" where
  "physical_validate_at c now = (if now \<ge> pc_expires_at c then Inl CommandExpired else Inr ())"

subsection \<open>Alarm policies (alarm.rs)\<close>

datatype alarm_comparator =
  GreaterThan | LessThan | GreaterThanOrEqual | LessThanOrEqual | Equal | NotEqual

fun comparator_as_str :: "alarm_comparator \<Rightarrow> rust_string" where
  "comparator_as_str GreaterThan = ascii ''>''"
| "comparator_as_str LessThan = ascii ''<''"
| "comparator_as_str GreaterThanOrEqual = ascii ''>=''"
| "comparator_as_str LessThanOrEqual = ascii ''<=''"
| "comparator_as_str Equal = ascii ''==''"
| "comparator_as_str NotEqual = ascii ''!=''"

definition comparator_try_from :: "rust_string \<Rightarrow> domain_error + alarm_comparator" where
  "comparator_try_from s =
     (if s = ascii ''>'' then Inr GreaterThan
      else if s = ascii ''<'' then Inr LessThan
      else if s = ascii ''>='' then Inr GreaterThanOrEqual
      else if s = ascii ''<='' then Inr LessThanOrEqual
      else if s = ascii ''=='' then Inr Equal
      else if s = ascii ''!='' then Inr NotEqual
      else Inl InvalidAlarmComparator)"

type_synonym alarm_severity = u8

definition alarm_severity_new :: "64 word \<Rightarrow> domain_error + alarm_severity" where
  "alarm_severity_new v =
     (if v <s 1 \<or> 3 <s v then Inl InvalidAlarmSeverity else Inr (ucast v))"

datatype alarm_rule_target =
    AlarmPoint rust_string u32 rust_string u32
  | ChannelOnline u32

definition alarm_target_point ::
    "rust_string \<Rightarrow> u32 \<Rightarrow> rust_string \<Rightarrow> u32 \<Rightarrow> domain_error + alarm_rule_target" where
  "alarm_target_point service channel data_type point =
     (if str_blank service \<or> str_blank data_type then Inl InvalidAlarmTarget
      else Inr (AlarmPoint service channel data_type point))"

fun alarm_target_channel :: "alarm_rule_target \<Rightarrow> u32" where
  "alarm_target_channel (AlarmPoint _ c _ _) = c"
| "alarm_target_channel (ChannelOnline c) = c"

record alarm_rule_definition =
  ar_target :: alarm_rule_target
  ar_name :: rust_string
  ar_severity :: alarm_severity
  ar_comparator :: alarm_comparator
  ar_threshold :: f64
  ar_enabled :: bool
  ar_description :: "rust_string option"

definition alarm_rule_new ::
    "alarm_rule_target \<Rightarrow> rust_string \<Rightarrow> alarm_severity \<Rightarrow> alarm_comparator \<Rightarrow> f64 \<Rightarrow> bool \<Rightarrow>
     rust_string option \<Rightarrow> domain_error + alarm_rule_definition" where
  "alarm_rule_new t name sev cmp threshold enabled descr =
     (if str_blank name then Inl InvalidAlarmRuleName
      else if \<not> f64_is_finite threshold then Inl NonFiniteAlarmThreshold
      else Inr \<lparr>ar_target = t, ar_name = name, ar_severity = sev, ar_comparator = cmp,
        ar_threshold = threshold, ar_enabled = enabled, ar_description = descr\<rparr>)"

fun target_label :: "alarm_rule_target \<Rightarrow> rust_string" where
  "target_label (AlarmPoint service channel data_type point) =
     ascii ''service='' @ service @ ascii ''; channel_id='' @ dec_digits (unat channel) @
     ascii ''; data_type='' @ data_type @ ascii ''; point_id='' @ dec_digits (unat point)"
| "target_label (ChannelOnline channel) =
     ascii ''channel_id='' @ dec_digits (unat channel) @ ascii ''; channel_online=true''"

subsection \<open>Facts shared by the clients\<close>

lemma writable_iff_not_acquired: "is_writable k \<longleftrightarrow> \<not> is_acquisition_owned k"
  by (cases k) (auto simp: is_writable_def is_acquisition_owned_def)

lemma control_command_new_Inr:
  "control_command_new i t v issued expires = Inr c \<longleftrightarrow>
     is_writable (pa_kind t) \<and> f64_is_finite v \<and> issued < expires \<and>
     c = \<lparr>cc_id = i, cc_target = t, cc_value = v, cc_issued_at = issued, cc_expires_at = expires\<rparr>"
  by (auto simp: control_command_new_def)

lemma step_tolerance_capped:
  assumes "\<not> f64_is_nan (f64_mul st f64_1e_minus_6)"
  shows "f64_le (step_tolerance offset st) (f64_mul st f64_1e_minus_6)"
  using assms by (auto simp: step_tolerance_def Let_def f64_lt_def f64_le_def)

lemma comparator_roundtrip: "comparator_try_from (comparator_as_str cmp) = Inr cmp"
  by (cases cmp) (simp_all add: comparator_try_from_def ascii_def)

lemma comparator_try_from_Inr: "comparator_try_from s = Inr cmp \<Longrightarrow> s = comparator_as_str cmp"
  by (auto simp: comparator_try_from_def split: if_splits)

lemma severity_range: "v <s 1 \<or> 3 <s v \<longleftrightarrow> v \<notin> {1, 2, 3}" for v :: "64 word"
proof -
  have "v \<in> {1, 2, 3}" if "\<not> (v <s 1 \<or> 3 <s v)"
  proof -
    have "sint v \<in> {1, 2, 3}" using that by (auto simp: word_sless_alt)
    then have "(of_int (sint v) :: 64 word) \<in> {of_int 1, of_int 2, of_int 3}"
      by (elim insertE emptyE) (simp_all only: insert_iff simp_thms)
    then show ?thesis by simp
  qed
  then show ?thesis by (auto simp: word_sless_alt)
qed

lemma alarm_encodings_roundtrip:
  "comparator_try_from (comparator_as_str cmp) = Inr cmp \<and>
   (comparator_try_from s = Inr cmp \<longleftrightarrow> s = comparator_as_str cmp) \<and>
   (case alarm_severity_new v of Inr sev \<Rightarrow> ucast sev = v \<and> v \<in> {1, 2, 3} | Inl e \<Rightarrow> v \<notin> {1, 2, 3})"
  using comparator_roundtrip [of cmp] comparator_try_from_Inr [of s cmp] severity_range [of v]
  by (auto simp: alarm_severity_new_def)

text \<open>
  What \<open>validate_value\<close> accepts.  Under constraints that passed their own validation,
  an accepted value is finite and within both bounds, and with a step the computed
  distance to the nearest multiple is not greater than the computed tolerance.
\<close>

lemma accepted_value_in_range:
  assumes "command_constraints_new lo hi st = Inr c" and "validate_value c v = Inr u"
  shows "f64_is_finite v \<and> (\<forall>a. lo = Some a \<longrightarrow> f64_le a v) \<and> (\<forall>b. hi = Some b \<longrightarrow> f64_le v b) \<and>
    (\<forall>s. st = Some s \<longrightarrow> \<not> f64_lt (step_tolerance (f64_sub v (case lo of Some a \<Rightarrow> a | None \<Rightarrow> 0)) s)
      (step_distance (f64_sub v (case lo of Some a \<Rightarrow> a | None \<Rightarrow> 0)) s))"
proof -
  have c: "minimum c = lo" "maximum c = hi" "cmd_step c = st"
    "\<forall>a. lo = Some a \<longrightarrow> f64_is_finite a" "\<forall>b. hi = Some b \<longrightarrow> f64_is_finite b"
    using assms(1) by (auto simp: command_constraints_new_def is_some_and_def split: if_splits)
  have v: "f64_is_finite v" "\<forall>a. lo = Some a \<longrightarrow> \<not> f64_lt v a" "\<forall>b. hi = Some b \<longrightarrow> \<not> f64_lt b v"
    using assms(2) c(1,2) by (auto simp: validate_value_def is_some_and_def split: if_splits)
  then have "\<forall>a. lo = Some a \<longrightarrow> f64_le a v" "\<forall>b. hi = Some b \<longrightarrow> f64_le v b"
    using c(4,5) by (auto simp: f64_not_lt finite_not_nan)
  moreover have "\<forall>s. st = Some s \<longrightarrow>
      \<not> f64_lt (step_tolerance (f64_sub v (case lo of Some a \<Rightarrow> a | None \<Rightarrow> 0)) s)
        (step_distance (f64_sub v (case lo of Some a \<Rightarrow> a | None \<Rightarrow> 0)) s)"
    using assms(2) c(1,3) by (auto simp: validate_value_def Let_def split: if_splits)
  ultimately show ?thesis using v(1) by blast
qed

subsection \<open>Properties\<close>


text \<open>
  Every physical point kind has exactly one owner: for any channel, kind and point, exactly one
  of the acquisition address and the command address can be constructed.
\<close>

lemma point_ownership_is_exclusive:
  "(\<exists>a. channel_point_address_new c k p = Inr a) \<longleftrightarrow> (\<exists>e. channel_command_address_new c k p = Inl e)"
  by (auto simp: channel_point_address_new_def channel_command_address_new_def writable_iff_not_acquired)

end
