(* ===== verification/Channel_Manifest.thy ===== *)
theory Channel_Manifest
  imports Edge_Domain
begin

section \<open>The channel-to-slot manifest (shm-bridge/src/manifest.rs)\<close>

text \<open>
  The manifest assigns every commissioned point of every channel a slot of the shared
  segment.  An array \<open>[u32; 4]\<close> is a list; that its length is four, which the type
  guarantees, is the predicate \<open>counts_ok\<close>.  \<open>saturating_add\<close> on \<open>usize\<close> is written out; a
  slot vector of \<open>2 ^ 63\<close> or more elements cannot be allocated, so a manifest that exists
  has not saturated.  The hash function is a parameter.
\<close>

definition CHANNEL_POINT_KINDS :: "point_kind list" where
  "CHANNEL_POINT_KINDS = [Telemetry, Status, Command, Action]"

record physical_point_address =
  ppa_channel :: u32
  ppa_kind :: point_kind
  ppa_point :: u32

record channel_point_layout =
  lay_base_slot :: nat
  type_offsets :: "nat list"
  type_counts :: "u32 list"

record channel_point_manifest =
  man_counts :: "(u32, u32 list) btree_map"
  man_layouts :: "(u32, channel_point_layout) btree_map"
  physical_points :: "physical_point_address option list"
  man_point_count :: nat
  man_slot_count :: nat

fun kind_index :: "point_kind \<Rightarrow> nat" where
  "kind_index Telemetry = 0"
| "kind_index Status = 1"
| "kind_index Command = 2"
| "kind_index Action = 3"

definition align_to_cache_line :: "nat \<Rightarrow> nat" where
  "align_to_cache_line slot = (slot + 1) div 2 * 2"

definition usize_saturating_add :: "nat \<Rightarrow> nat \<Rightarrow> nat" where
  "usize_saturating_add a b = min (a + b) (2 ^ 64 - 1)"

definition u32_saturating_add :: "u32 \<Rightarrow> u32 \<Rightarrow> u32" where
  "u32_saturating_add a b = (if unat a + unat b < 2 ^ 32 then a + b else - 1)"

definition layout_type_offset :: "channel_point_layout \<Rightarrow> point_kind \<Rightarrow> nat" where
  "layout_type_offset l k = type_offsets l ! kind_index k"

definition layout_point_count :: "channel_point_layout \<Rightarrow> point_kind \<Rightarrow> u32" where
  "layout_point_count l k = type_counts l ! kind_index k"

definition layout_total_points :: "channel_point_layout \<Rightarrow> u32" where
  "layout_total_points l = sum_list (type_counts l)"

definition layout_slot :: "channel_point_layout \<Rightarrow> point_kind \<Rightarrow> u32 \<Rightarrow> nat option" where
  "layout_slot l k p =
     (let type_index = kind_index k in
      if p \<ge> type_counts l ! type_index then None
      else Some (lay_base_slot l + type_offsets l ! type_index + unat p))"

text \<open>The inner loop over the four types, and the loop over the channels.\<close>

fun lay_types :: "bool \<Rightarrow> nat \<Rightarrow> nat \<Rightarrow> u32 list \<Rightarrow> nat \<Rightarrow> nat list \<times> nat" where
  "lay_types has_action_slots base i [] next_slot = ([], next_slot)"
| "lay_types has_action_slots base i (count # counts) next_slot =
     (let next_slot = (if i = 2 \<and> has_action_slots then align_to_cache_line next_slot else next_slot);
          (offsets, fin) = lay_types has_action_slots base (i + 1) counts
            (usize_saturating_add next_slot (unat count))
      in ((next_slot - base) # offsets, fin))"

definition lay_channel :: "u32 list \<Rightarrow> nat \<Rightarrow> channel_point_layout \<times> nat" where
  "lay_channel channel_counts next_slot =
     (let base = align_to_cache_line next_slot;
          has_action_slots = u32_saturating_add (channel_counts ! 2) (channel_counts ! 3) > 0;
          (offsets, fin) = lay_types has_action_slots base 0 channel_counts base
      in (\<lparr>lay_base_slot = base, type_offsets = offsets, type_counts = channel_counts\<rparr>, fin))"

fun lay_channels ::
    "(u32 \<times> u32 list) list \<Rightarrow> (u32, channel_point_layout) btree_map \<Rightarrow> nat \<Rightarrow>
     (u32, channel_point_layout) btree_map \<times> nat" where
  "lay_channels [] layouts next_slot = (layouts, next_slot)"
| "lay_channels ((channel_id, channel_counts) # rest) layouts next_slot =
     (let (layout, fin) = lay_channel channel_counts next_slot
      in lay_channels rest (bt_insert channel_id layout layouts) fin)"

text \<open>The three nested loops that fill the reverse table.\<close>

definition place_point ::
    "u32 \<Rightarrow> channel_point_layout \<Rightarrow> point_kind \<Rightarrow> nat \<Rightarrow> physical_point_address option list \<times> nat \<Rightarrow>
     physical_point_address option list \<times> nat" where
  "place_point c l k p st =
     (case layout_slot l k (word_of_nat p) of
        Some slot \<Rightarrow> ((fst st)[slot := Some \<lparr>ppa_channel = c, ppa_kind = k, ppa_point = word_of_nat p\<rparr>],
                      snd st + 1)
      | None \<Rightarrow> st)"

definition place_channel ::
    "u32 \<times> channel_point_layout \<Rightarrow> physical_point_address option list \<times> nat \<Rightarrow>
     physical_point_address option list \<times> nat" where
  "place_channel cl =
     fold (\<lambda>k. fold (place_point (fst cl) (snd cl) k) [0..<unat (layout_point_count (snd cl) k)])
       CHANNEL_POINT_KINDS"

definition manifest_from_map :: "(u32, u32 list) btree_map \<Rightarrow> channel_point_manifest" where
  "manifest_from_map counts =
     (let (layouts, next_slot) = lay_channels counts [] 0;
          (points, point_count) = fold place_channel layouts (replicate next_slot None, 0)
      in \<lparr>man_counts = counts, man_layouts = layouts, physical_points = points,
          man_point_count = point_count, man_slot_count = next_slot\<rparr>)"

definition slot_for :: "channel_point_manifest \<Rightarrow> physical_point_address \<Rightarrow> nat option" where
  "slot_for m a =
     (case bt_get (man_layouts m) (ppa_channel a) of
        None \<Rightarrow> None
      | Some l \<Rightarrow> layout_slot l (ppa_kind a) (ppa_point a))"

definition manifest_slot :: "channel_point_manifest \<Rightarrow> u32 \<Rightarrow> point_kind \<Rightarrow> u32 \<Rightarrow> nat option" where
  "manifest_slot m c k p = slot_for m \<lparr>ppa_channel = c, ppa_kind = k, ppa_point = p\<rparr>"

definition physical_point_at :: "channel_point_manifest \<Rightarrow> nat \<Rightarrow> physical_point_address option" where
  "physical_point_at m slot =
     (if slot < length (physical_points m) then physical_points m ! slot else None)"

definition iter_physical_points :: "channel_point_manifest \<Rightarrow> (nat \<times> physical_point_address) list" where
  "iter_physical_points m =
     List.map_filter (\<lambda>(slot, address). map_option (Pair slot) address)
       (List.enumerate 0 (physical_points m))"

definition channel_layout :: "channel_point_manifest \<Rightarrow> u32 \<Rightarrow> channel_point_layout option" where
  "channel_layout m c = bt_get (man_layouts m) c"

definition layout_hash ::
    "('h \<Rightarrow> u32 \<Rightarrow> 'h) \<Rightarrow> ('h \<Rightarrow> u32 list \<Rightarrow> 'h) \<Rightarrow> ('h \<Rightarrow> u64) \<Rightarrow> 'h \<Rightarrow> channel_point_manifest \<Rightarrow> u64" where
  "layout_hash hash_id hash_counts finish hasher m =
     finish (foldl (\<lambda>h (c, counts). hash_counts (hash_id h c) counts) hasher (man_counts m))"

definition counts_ok :: "(u32, u32 list) btree_map \<Rightarrow> bool" where
  "counts_ok counts \<longleftrightarrow> bt_wf counts \<and> (\<forall>p\<in>set counts. length (snd p) = 4)"

subsection \<open>One channel\<close>

lemma align_even [simp]: "even (align_to_cache_line n)"
  by (simp add: align_to_cache_line_def)

lemma align_le [simp]: "n \<le> align_to_cache_line n"
  by (simp add: align_to_cache_line_def)

lemma has_action_iff: "(0 < u32_saturating_add a b) \<longleftrightarrow> 0 < unat a + unat b"
proof (cases "unat a + unat b < 2 ^ 32")
  case True
  then have "unat (a + b) = unat a + unat b" by (simp add: unat_word_ariths)
  with True show ?thesis by (simp add: u32_saturating_add_def word_less_nat_alt)
next
  case False
  then have "0 < unat a + unat b" by (cases "unat a + unat b") auto
  with False show ?thesis by (simp add: u32_saturating_add_def word_gt_0)
qed

lemma saturating_add_exact:
  assumes "usize_saturating_add a b < 2 ^ 63"
  shows "usize_saturating_add a b = a + b"
  using assms by (auto simp: usize_saturating_add_def min_def split: if_splits)

lemma saturating_add_mono: "n \<le> a \<Longrightarrow> n < 2 ^ 63 \<Longrightarrow> n \<le> usize_saturating_add a b"
  by (auto simp: usize_saturating_add_def)

text \<open>
  The shape of a channel's block: telemetry and status from the base, then, on a cache
  line of their own when there are any, commands and actions.
\<close>

definition well_laid :: "nat \<Rightarrow> channel_point_layout \<Rightarrow> nat \<Rightarrow> bool" where
  "well_laid start l fin \<longleftrightarrow>
     (\<exists>c0 c1 c2 c3 o2. type_counts l = [c0, c1, c2, c3] \<and>
        lay_base_slot l = align_to_cache_line start \<and>
        type_offsets l = [0, unat c0, o2, o2 + unat c2] \<and>
        fin = lay_base_slot l + o2 + unat c2 + unat c3 \<and> unat c0 + unat c1 \<le> o2 \<and>
        (unat c2 + unat c3 > 0 \<longrightarrow> even (lay_base_slot l + o2)))"

lemma list4_cases:
  obtains "length xs \<noteq> 4" | a b c d where "xs = [a, b, c, d]"
  by (cases xs; cases "tl xs"; cases "tl (tl xs)"; cases "tl (tl (tl xs))"; cases "tl (tl (tl (tl xs)))") auto

lemma lay_channel_well_laid:
  assumes "lay_channel cs start = (l, fin)" and "length cs = 4" and "fin < 2 ^ 63"
  shows "well_laid start l fin"
proof -
  obtain c0 c1 c2 c3 where cs: "cs = [c0, c1, c2, c3]"
    using assms(2) by (cases cs rule: list4_cases) auto
  define base where "base = align_to_cache_line start"
  define n1 where "n1 = usize_saturating_add base (unat c0)"
  define n2 where "n2 = usize_saturating_add n1 (unat c1)"
  define n2' where "n2' = (if 0 < unat c2 + unat c3 then align_to_cache_line n2 else n2)"
  define n3 where "n3 = usize_saturating_add n2' (unat c2)"
  have "lay_channel cs start = (\<lparr>lay_base_slot = base,
      type_offsets = [0, n1 - base, n2' - base, n3 - base], type_counts = cs\<rparr>, usize_saturating_add n3 (unat c3))"
    by (simp add: lay_channel_def cs has_action_iff Let_def n3_def n2'_def n2_def n1_def base_def
        split del: if_split cong: if_cong)
  then have l: "l = \<lparr>lay_base_slot = base, type_offsets = [0, n1 - base, n2' - base, n3 - base],
      type_counts = cs\<rparr>" "fin = usize_saturating_add n3 (unat c3)"
    using assms(1) by simp_all
  have aligned: "0 < unat c2 + unat c3 \<longrightarrow> even n2'" by (simp add: n2'_def)
  have n3: "fin = n3 + unat c3" using saturating_add_exact assms(3) l(2) by simp
  then have n2': "n3 = n2' + unat c2" using saturating_add_exact [of n2' "unat c2"] assms(3) n3_def by simp
  have "n2 \<le> n2'" by (simp add: n2'_def)
  then have n2: "n2 = n1 + unat c1"
    using saturating_add_exact [of n1 "unat c1"] assms(3) n3 n2' n2_def by simp
  then have n1: "n1 = base + unat c0"
    using saturating_add_exact [of base "unat c0"] assms(3) n3 n2' \<open>n2 \<le> n2'\<close> n1_def by simp
  have "well_laid start \<lparr>lay_base_slot = base, type_offsets = [0, n1 - base, n2' - base, n3 - base],
      type_counts = cs\<rparr> fin"
    unfolding well_laid_def
    using n1 n2 n2' n3 \<open>n2 \<le> n2'\<close> aligned
    by (intro exI [of _ c0] exI [of _ c1] exI [of _ c2] exI [of _ c3] exI [of _ "n2' - base"])
      (simp add: cs base_def [symmetric])
  then show ?thesis by (simp add: l(1))
qed

definition kind_points ::
    "u32 \<Rightarrow> channel_point_layout \<Rightarrow> point_kind \<Rightarrow> (nat \<times> physical_point_address) list" where
  "kind_points c l k =
     map (\<lambda>p. (lay_base_slot l + type_offsets l ! kind_index k + p,
        \<lparr>ppa_channel = c, ppa_kind = k, ppa_point = word_of_nat p\<rparr>))
       [0..<unat (layout_point_count l k)]"

definition channel_points :: "u32 \<times> channel_point_layout \<Rightarrow> (nat \<times> physical_point_address) list" where
  "channel_points cl = concat (map (kind_points (fst cl) (snd cl)) CHANNEL_POINT_KINDS)"

definition put_point ::
    "nat \<times> physical_point_address \<Rightarrow> physical_point_address option list \<Rightarrow> physical_point_address option list" where
  "put_point sa pts = pts[fst sa := Some (snd sa)]"

lemma unat_below_count: "p < unat (n :: u32) \<Longrightarrow> unat (word_of_nat p :: u32) = p"
  using unat_u32_bound [of n] by (intro unat_of_nat_u32) linarith

lemma layout_slot_below:
  "p < unat (layout_point_count l k) \<Longrightarrow>
     layout_slot l k (word_of_nat p) = Some (lay_base_slot l + type_offsets l ! kind_index k + p)"
  by (simp add: layout_slot_def layout_point_count_def Let_def word_le_nat_alt unat_below_count)

lemma fold_place_point:
  assumes "\<forall>p\<in>set ps. p < unat (layout_point_count l k)"
  shows "fold (place_point c l k) ps (pts, n) =
    (fold put_point (map (\<lambda>p. (lay_base_slot l + type_offsets l ! kind_index k + p,
       \<lparr>ppa_channel = c, ppa_kind = k, ppa_point = word_of_nat p\<rparr>)) ps) pts, n + length ps)"
  using assms
  by (induction ps arbitrary: pts n) (auto simp: place_point_def layout_slot_below put_point_def)

lemma place_channel_eq:
  "place_channel cl (pts, n) = (fold put_point (channel_points cl) pts, n + length (channel_points cl))"
proof -
  have "fold (\<lambda>k. fold (place_point c l k) [0..<unat (layout_point_count l k)]) ks (pts, n) =
      (fold put_point (concat (map (kind_points c l) ks)) pts,
       n + length (concat (map (kind_points c l) ks)))" for c l ks
    by (induction ks arbitrary: pts n) (auto simp: fold_place_point kind_points_def)
  then show ?thesis by (simp add: place_channel_def channel_points_def)
qed

lemma fold_place_channel:
  "fold place_channel ls (pts, n) =
     (fold put_point (concat (map channel_points ls)) pts, n + length (concat (map channel_points ls)))"
  by (induction ls arbitrary: pts n) (auto simp: place_channel_eq)

lemma length_fold_put [simp]: "length (fold put_point ps pts) = length pts"
  by (induction ps arbitrary: pts) (auto simp: put_point_def)

lemma nth_fold_put:
  assumes "distinct (map fst ps)" and "s < length pts"
  shows "fold put_point ps pts ! s = (case map_of ps s of Some a \<Rightarrow> Some a | None \<Rightarrow> pts ! s)"
  using assms
proof (induction ps arbitrary: pts)
  case (Cons p ps)
  then show ?case
    by (auto simp: put_point_def map_of_eq_None_iff [symmetric] split: option.split)
qed simp

lemma channel_points_bounds:
  assumes "well_laid start l fin"
  shows "sorted_wrt (<) (map fst (channel_points (c, l)))"
    and "\<forall>x\<in>set (channel_points (c, l)). align_to_cache_line start \<le> fst x \<and> fst x < fin"
    and "align_to_cache_line start \<le> fin"
proof -
  obtain c0 c1 c2 c3 o2 where l: "type_counts l = [c0, c1, c2, c3]"
      "lay_base_slot l = align_to_cache_line start" "type_offsets l = [0, unat c0, o2, o2 + unat c2]"
      "fin = lay_base_slot l + o2 + unat c2 + unat c3" "unat c0 + unat c1 \<le> o2"
    using assms by (auto simp: well_laid_def)
  let ?b = "lay_base_slot l"
  have pts: "map fst (channel_points (c, l)) = map (\<lambda>p. ?b + p) [0..<unat c0] @
      map (\<lambda>p. ?b + unat c0 + p) [0..<unat c1] @ map (\<lambda>p. ?b + o2 + p) [0..<unat c2] @
      map (\<lambda>p. ?b + (o2 + unat c2) + p) [0..<unat c3]"
    by (simp add: channel_points_def kind_points_def CHANNEL_POINT_KINDS_def layout_point_count_def l o_def)
  have sorted: "sorted_wrt (<) (map (\<lambda>p. (b::nat) + p) [0..<n])" for b n
    by (simp add: sorted_wrt_map)
  show "sorted_wrt (<) (map fst (channel_points (c, l)))"
    unfolding pts using l(5) sorted by (auto simp: sorted_wrt_append)
  have "\<forall>s\<in>set (map fst (channel_points (c, l))). align_to_cache_line start \<le> s \<and> s < fin"
    unfolding pts using l by auto
  then show "\<forall>x\<in>set (channel_points (c, l)). align_to_cache_line start \<le> fst x \<and> fst x < fin" by auto
  show "align_to_cache_line start \<le> fin" using l by simp
qed

subsection \<open>All channels\<close>

fun laid_from :: "nat \<Rightarrow> (u32 \<times> channel_point_layout) list \<Rightarrow> nat \<Rightarrow> bool" where
  "laid_from start [] fin \<longleftrightarrow> start = fin"
| "laid_from start (cl # ls) fin \<longleftrightarrow> (\<exists>mid. well_laid start (snd cl) mid \<and> laid_from mid ls fin)"

lemma lay_channels_spec:
  assumes "lay_channels cs acc start = (layouts, fin)" and "fin < 2 ^ 63"
    and "\<forall>p\<in>set cs. length (snd p) = 4" and "bt_wf acc"
    and "sorted_wrt (<) (map fst cs)" and "\<forall>k\<in>set (bt_keys acc). \<forall>k'\<in>fst ` set cs. k < k'"
  shows "start \<le> fin \<and> (\<exists>ls. layouts = acc @ ls \<and> laid_from start ls fin \<and> map fst ls = map fst cs)"
  using assms
proof (induction cs arbitrary: acc start)
  case (Cons p cs)
  obtain c counts where p: "p = (c, counts)" by fastforce
  obtain l mid where lay: "lay_channel counts start = (l, mid)" by fastforce
  have ins: "bt_insert c l acc = acc @ [(c, l)]"
    using Cons.prems(4,6) p by (intro bt_insert_max) auto
  have "bt_wf (acc @ [(c, l)])" using bt.wf_insert [OF Cons.prems(4), of c l] ins by simp
  moreover have "lay_channels cs (acc @ [(c, l)]) mid = (layouts, fin)"
    using Cons.prems(1) p lay ins by simp
  ultimately have IH: "mid \<le> fin" "\<exists>ls. layouts = (acc @ [(c, l)]) @ ls \<and> laid_from mid ls fin \<and> map fst ls = map fst cs"
    using Cons.IH [of "acc @ [(c, l)]" mid] Cons.prems(2,3,5,6) p by (auto simp: bt_keys_def)
  then have w: "well_laid start l mid"
    using lay_channel_well_laid [OF lay] Cons.prems(2,3) p by simp
  then have "start \<le> mid"
    using channel_points_bounds(3) [OF w] align_le [of start] by linarith
  moreover from IH(2) obtain ls where
    "layouts = (acc @ [(c, l)]) @ ls" "laid_from mid ls fin" "map fst ls = map fst cs" by blast
  ultimately show ?case using IH(1) w p by (intro conjI exI [of _ "(c, l) # ls"]) auto
qed simp

definition all_points :: "(u32 \<times> channel_point_layout) list \<Rightarrow> (nat \<times> physical_point_address) list" where
  "all_points ls = concat (map channel_points ls)"

lemma all_points_bounds:
  assumes "laid_from start ls fin"
  shows "sorted_wrt (<) (map fst (all_points ls)) \<and> (\<forall>x\<in>set (all_points ls). start \<le> fst x \<and> fst x < fin) \<and>
    start \<le> fin"
  using assms
proof (induction ls arbitrary: start)
  case (Cons cl ls)
  obtain c l where cl: "cl = (c, l)" by fastforce
  then obtain mid where mid: "well_laid start l mid" "laid_from mid ls fin" using Cons.prems by auto
  note b = channel_points_bounds(1,2) [OF mid(1), of c] channel_points_bounds(3) [OF mid(1)]
  have "start \<le> align_to_cache_line start" by simp
  with b(2,3) Cons.IH [OF mid(2)] have
    "\<forall>x\<in>set (channel_points cl). start \<le> fst x \<and> fst x < mid" "start \<le> mid" "mid \<le> fin"
    "\<forall>x\<in>set (all_points ls). mid \<le> fst x \<and> fst x < fin"
    unfolding cl by (meson order_trans)+
  with b(1) Cons.IH [OF mid(2)] show ?case
    by (auto simp: all_points_def sorted_wrt_append cl) force+
qed (simp add: all_points_def)

lemma laid_from_aligned:
  assumes "laid_from start ls fin"
  shows "\<forall>x\<in>set (all_points ls). align_to_cache_line start \<le> fst x"
  using assms
proof (induction ls arbitrary: start)
  case (Cons cl ls)
  obtain c l where cl: "cl = (c, l)" by fastforce
  then obtain mid where mid: "well_laid start l mid" "laid_from mid ls fin" using Cons.prems by auto
  have "align_to_cache_line start \<le> align_to_cache_line mid"
    using channel_points_bounds(3) [OF mid(1)] align_le [of mid] by linarith
  then show ?case
    using channel_points_bounds(2) [OF mid(1), of c] Cons.IH [OF mid(2)]
    by (fastforce simp: all_points_def cl)
qed (simp add: all_points_def)

lemma in_channel_points:
  "(s, a) \<in> set (channel_points (c, l)) \<longleftrightarrow>
     ppa_channel a = c \<and> layout_slot l (ppa_kind a) (ppa_point a) = Some s"
proof -
  have "(s, a) \<in> set (kind_points c l k) \<longleftrightarrow>
      ppa_channel a = c \<and> ppa_kind a = k \<and> layout_slot l k (ppa_point a) = Some s" for k
  proof
    assume "(s, a) \<in> set (kind_points c l k)"
    then show "ppa_channel a = c \<and> ppa_kind a = k \<and> layout_slot l k (ppa_point a) = Some s"
      by (auto simp: kind_points_def layout_slot_below)
  next
    assume r: "ppa_channel a = c \<and> ppa_kind a = k \<and> layout_slot l k (ppa_point a) = Some s"
    then have "unat (ppa_point a) < unat (layout_point_count l k)"
        "s = lay_base_slot l + type_offsets l ! kind_index k + unat (ppa_point a)"
      by (auto simp: layout_slot_def layout_point_count_def Let_def word_le_nat_alt split: if_splits)
    with r show "(s, a) \<in> set (kind_points c l k)"
      by (auto simp: kind_points_def intro!: image_eqI [of _ _ "unat (ppa_point a)"])
  qed
  moreover have "ppa_kind a \<in> set CHANNEL_POINT_KINDS"
    by (cases "ppa_kind a") (auto simp: CHANNEL_POINT_KINDS_def)
  ultimately show ?thesis by (auto simp: channel_points_def)
qed

lemma in_all_points:
  assumes "distinct (map fst ls)"
  shows "(s, a) \<in> set (all_points ls) \<longleftrightarrow>
    (\<exists>l. map_of ls (ppa_channel a) = Some l \<and> layout_slot l (ppa_kind a) (ppa_point a) = Some s)"
  using assms by (force simp: all_points_def in_channel_points map_of_eq_Some_iff)

definition valid_manifest :: "channel_point_manifest \<Rightarrow> bool" where
  "valid_manifest m \<longleftrightarrow> bt_wf (man_layouts m) \<and> laid_from 0 (man_layouts m) (man_slot_count m) \<and>
     physical_points m = fold put_point (all_points (man_layouts m)) (replicate (man_slot_count m) None) \<and>
     man_point_count m = length (all_points (man_layouts m))"

lemma manifest_from_map_valid:
  assumes "counts_ok counts" and "man_slot_count (manifest_from_map counts) < 2 ^ 63"
  shows "valid_manifest (manifest_from_map counts)"
proof -
  obtain ls fin where l: "lay_channels counts [] 0 = (ls, fin)" by fastforce
  have m: "manifest_from_map counts = \<lparr>man_counts = counts, man_layouts = ls,
      physical_points = fold put_point (all_points ls) (replicate fin None),
      man_point_count = length (all_points ls), man_slot_count = fin\<rparr>"
    by (simp add: manifest_from_map_def l fold_place_channel all_points_def)
  have "laid_from 0 ls fin \<and> map fst ls = map fst counts"
    using lay_channels_spec [OF l] assms by (auto simp: m counts_ok_def bt_wf_def)
  then show ?thesis using assms(1) by (simp add: m valid_manifest_def counts_ok_def bt_wf_def)
qed

lemma valid_distinct: "valid_manifest m \<Longrightarrow> distinct (map fst (man_layouts m))"
  by (auto simp: valid_manifest_def bt_wf_def strict_sorted_iff)

lemma slot_for_iff:
  "valid_manifest m \<Longrightarrow> slot_for m a = Some s \<longleftrightarrow> (s, a) \<in> set (all_points (man_layouts m))"
  by (simp only: in_all_points [OF valid_distinct] slot_for_def bt_get_def)
    (cases "map_of (man_layouts m) (ppa_channel a)"; simp)

lemma physical_point_at_iff:
  assumes "valid_manifest m"
  shows "physical_point_at m s = Some a \<longleftrightarrow> (s, a) \<in> set (all_points (man_layouts m))"
proof -
  let ?ps = "all_points (man_layouts m)"
  have b: "sorted_wrt (<) (map fst ?ps)" "\<forall>x\<in>set ?ps. fst x < man_slot_count m"
    using assms all_points_bounds [of 0 "man_layouts m"] by (auto simp: valid_manifest_def)
  then have d: "distinct (map fst ?ps)" by (simp add: strict_sorted_iff)
  have "physical_point_at m s = (if s < man_slot_count m then map_of ?ps s else None)"
    using assms nth_fold_put [OF d, of s "replicate (man_slot_count m) None"]
    by (auto simp: physical_point_at_def valid_manifest_def split: option.split)
  then show ?thesis using b(2) d by (auto simp: map_of_eq_Some_iff)
qed

subsection \<open>Cache lines\<close>

lemma line_neq: "(s :: nat) < b \<Longrightarrow> b \<le> t \<Longrightarrow> even b \<Longrightarrow> s div 2 \<noteq> t div 2"
proof (elim evenE)
  fix k assume "s < b" "b \<le> t" "b = 2 * k"
  then have "s div 2 < k" "k \<le> t div 2"
    by (simp_all add: div_less_iff_less_mult less_eq_div_iff_mult_less_eq mult.commute)
  then show ?thesis by simp
qed

lemma kinds_on_separate_lines:
  assumes "well_laid start l fin" "layout_slot l k p = Some s" "layout_slot l k' p' = Some t"
    and "is_acquisition_owned k" "\<not> is_acquisition_owned k'"
  shows "s div 2 \<noteq> t div 2"
proof -
  obtain c0 c1 c2 c3 o2 where l: "type_counts l = [c0, c1, c2, c3]"
      "type_offsets l = [0, unat c0, o2, o2 + unat c2]" "unat c0 + unat c1 \<le> o2"
      "unat c2 + unat c3 > 0 \<longrightarrow> even (lay_base_slot l + o2)"
    using assms(1) by (auto simp: well_laid_def)
  have "s < lay_base_slot l + o2"
    using assms(2,4) l(3) by (cases k) (auto simp: is_acquisition_owned_def layout_slot_def l(1,2) Let_def word_less_nat_alt word_le_nat_alt split: if_splits)
  moreover have "lay_base_slot l + o2 \<le> t \<and> unat c2 + unat c3 > 0"
    using assms(3,5) by (cases k') (auto simp: is_acquisition_owned_def layout_slot_def l(1,2) Let_def word_less_nat_alt word_le_nat_alt split: if_splits)
  ultimately show ?thesis using l(4) by (intro line_neq [of s "lay_base_slot l + o2"]) simp_all
qed

lemma channels_on_separate_lines:
  assumes "laid_from start ls fin" and "distinct (map fst ls)"
    and "(s, a) \<in> set (all_points ls)" "(t, b) \<in> set (all_points ls)" "ppa_channel a \<noteq> ppa_channel b"
  shows "s div 2 \<noteq> t div 2"
  using assms
proof (induction ls arbitrary: start)
  case (Cons cl ls)
  obtain c l where cl: "cl = (c, l)" by fastforce
  then obtain mid where mid: "well_laid start l mid" "laid_from mid ls fin" using Cons.prems by auto
  have split: "(x, y) \<in> set (all_points (cl # ls)) \<longleftrightarrow>
      (x, y) \<in> set (channel_points (c, l)) \<or> (x, y) \<in> set (all_points ls)" for x y
    by (simp add: all_points_def cl)
  have first: "x < align_to_cache_line mid \<and> ppa_channel y = c" if "(x, y) \<in> set (channel_points (c, l))" for x y
    using bspec [OF channel_points_bounds(2) [OF mid(1), of c] that] that in_channel_points [of x y c l]
      align_le [of mid] by (metis fst_conv order_less_le_trans)
  have rest: "align_to_cache_line mid \<le> x" if "(x, y) \<in> set (all_points ls)" for x y
    using laid_from_aligned [OF mid(2)] that by fastforce
  show ?case
    using Cons.prems(3,4,5) Cons.IH [OF mid(2)] Cons.prems(2) first [of s a] first [of t b] rest [of s a] rest [of t b]
      line_neq [of s "align_to_cache_line mid" t] line_neq [of t "align_to_cache_line mid" s]
    unfolding split by auto
qed (simp add: all_points_def)

lemma valid_point_slots:
  assumes "valid_manifest m"
  shows "sorted_wrt (<) (map fst (all_points (man_layouts m)))"
    and "\<forall>x\<in>set (all_points (man_layouts m)). fst x < man_slot_count m"
  using assms all_points_bounds [of 0 "man_layouts m"] by (auto simp: valid_manifest_def)

lemma valid_point_count:
  assumes "valid_manifest m"
  shows "card {s. physical_point_at m s \<noteq> None} = man_point_count m"
proof -
  have "{s. physical_point_at m s \<noteq> None} = set (map fst (all_points (man_layouts m)))"
    using physical_point_at_iff [OF assms] by force
  moreover have "distinct (map fst (all_points (man_layouts m)))"
    using valid_point_slots(1) [OF assms] by (simp add: strict_sorted_iff)
  ultimately show ?thesis
    using distinct_card assms by (metis length_map valid_manifest_def)
qed

lemma valid_separate_lines:
  assumes v: "valid_manifest m" and a: "slot_for m a = Some s" and b: "slot_for m b = Some t"
    and diff: "ppa_channel a \<noteq> ppa_channel b \<or> is_acquisition_owned (ppa_kind a) \<and> \<not> is_acquisition_owned (ppa_kind b)"
  shows "s div 2 \<noteq> t div 2"
proof (cases "ppa_channel a = ppa_channel b")
  case False
  then show ?thesis
    using channels_on_separate_lines [of 0 "man_layouts m"] v a b valid_distinct [OF v]
    by (auto simp: slot_for_iff valid_manifest_def)
next
  case True
  with a b obtain l where l: "map_of (man_layouts m) (ppa_channel a) = Some l"
      "layout_slot l (ppa_kind a) (ppa_point a) = Some s" "layout_slot l (ppa_kind b) (ppa_point b) = Some t"
    by (auto simp: slot_for_def bt_get_def split: option.splits)
  have "\<exists>start mid. well_laid start l mid"
    if "laid_from st ls fin" "(c, l) \<in> set ls" for st ls fin c
    using that by (induction ls arbitrary: st) (auto, blast)
  then obtain start mid where "well_laid start l mid"
    using v map_of_SomeD [OF l(1)] unfolding valid_manifest_def by blast
  then show ?thesis using kinds_on_separate_lines l(2,3) diff True by blast
qed

text \<open>A channel with one telemetry point and two commands: the commands start on a new line.\<close>

lemma usize_add_small: "a + b < 100 \<Longrightarrow> usize_saturating_add a b = a + b"
  unfolding usize_saturating_add_def by (rule min_absorb1) (erule order_trans [OF less_imp_le], simp)

lemma manifest_example:
  "man_layouts (manifest_from_map [(7, [1, 0, 2, 0])]) =
     [(7, \<lparr>lay_base_slot = 0, type_offsets = [0, 1, 2, 4], type_counts = [1, 0, 2, 0]\<rparr>)]"
  "man_slot_count (manifest_from_map [(7, [1, 0, 2, 0])]) = 4"
proof -
  have "lay_types True 0 0 [1, 0, 2, 0] 0 = ([0, 1, 2, 4], 4)"
    by (simp add: usize_add_small align_to_cache_line_def)
  moreover have "(0 :: u32) < u32_saturating_add 2 0" by (simp add: has_action_iff)
  moreover have "align_to_cache_line 0 = 0" by (simp add: align_to_cache_line_def)
  ultimately have "lay_channels [(7, [1, 0, 2, 0])] [] 0 =
      ([(7, \<lparr>lay_base_slot = 0, type_offsets = [0, 1, 2, 4], type_counts = [1, 0, 2, 0]\<rparr>)], 4)"
    by (simp add: lay_channel_def del: lay_types.simps)
  then show "man_layouts (manifest_from_map [(7, [1, 0, 2, 0])]) =
      [(7, \<lparr>lay_base_slot = 0, type_offsets = [0, 1, 2, 4], type_counts = [1, 0, 2, 0]\<rparr>)]"
    "man_slot_count (manifest_from_map [(7, [1, 0, 2, 0])]) = 4"
    by (simp_all only: manifest_from_map_def fold_place_channel Let_def prod.case
        channel_point_manifest.select_convs)
qed

subsection \<open>Properties\<close>

text \<open>C21: The manifest is a bijection between the configured points and the occupied
  slots: the forward lookup of an address gives a slot exactly when the reverse lookup of
  that slot gives back the address, every such slot is inside the segment, and the number
  of occupied slots is the recorded point count.\<close>

theorem manifest_slots_roundtrip:
  assumes "counts_ok counts" and "manifest_from_map counts = m" and "man_slot_count m < 2 ^ 63"
  shows "(slot_for m a = Some s \<longleftrightarrow> physical_point_at m s = Some a) \<and>
    (slot_for m a = Some s \<longrightarrow> s < man_slot_count m) \<and>
    card {s. physical_point_at m s \<noteq> None} = man_point_count m"
proof -
  have v: "valid_manifest m" using assms manifest_from_map_valid by blast
  have "slot_for m a = Some s \<longrightarrow> s < man_slot_count m"
    using valid_point_slots(2) [OF v] by (auto simp: slot_for_iff [OF v])
  then show ?thesis
    by (simp only: slot_for_iff [OF v] physical_point_at_iff [OF v] valid_point_count [OF v])
qed

theorem manifest_slots_roundtrip_witness:
  "slot_for (manifest_from_map [(7, [1, 0, 2, 0])])
     \<lparr>ppa_channel = 7, ppa_kind = Command, ppa_point = 1\<rparr> = Some 3 \<longleftrightarrow>
   physical_point_at (manifest_from_map [(7, [1, 0, 2, 0])]) 3 =
     Some \<lparr>ppa_channel = 7, ppa_kind = Command, ppa_point = 1\<rparr>"
proof -
  have "counts_ok [(7, [1, 0, 2, 0])]" by (simp add: counts_ok_def bt_wf_def)
  moreover have "man_slot_count (manifest_from_map [(7, [1, 0, 2, 0])]) < 2 ^ 63"
    by (simp add: manifest_example)
  ultimately show ?thesis by (rule manifest_slots_roundtrip [OF _ refl, THEN conjunct1])
qed

text \<open>C22: No cache line of the segment (two 32-byte slots) is shared by two channels, nor
  by the acquisition-owned and the command-owned points of one channel.\<close>

theorem manifest_separates_cache_lines:
  assumes "counts_ok counts" and "manifest_from_map counts = m" and "man_slot_count m < 2 ^ 63"
    and "slot_for m a = Some s" and "slot_for m b = Some t"
    and "ppa_channel a \<noteq> ppa_channel b \<or>
      is_acquisition_owned (ppa_kind a) \<noteq> is_acquisition_owned (ppa_kind b)"
  shows "s div 2 \<noteq> t div 2"
proof -
  have v: "valid_manifest m" using assms manifest_from_map_valid by blast
  show ?thesis
    using valid_separate_lines [OF v assms(4,5)] valid_separate_lines [OF v assms(5,4)] assms(6) by metis
qed

theorem manifest_separates_cache_lines_witness:
  "(0 :: nat) div 2 \<noteq> 2 div 2 \<and>
   slot_for (manifest_from_map [(7, [1, 0, 2, 0])])
     \<lparr>ppa_channel = 7, ppa_kind = Telemetry, ppa_point = 0\<rparr> = Some 0 \<and>
   slot_for (manifest_from_map [(7, [1, 0, 2, 0])])
     \<lparr>ppa_channel = 7, ppa_kind = Command, ppa_point = 0\<rparr> = Some 2"
proof -
  let ?m = "manifest_from_map [(7, [1, 0, 2, 0])]"
  have "counts_ok [(7, [1, 0, 2, 0])]" by (simp add: counts_ok_def bt_wf_def)
  moreover have "man_slot_count ?m < 2 ^ 63" by (simp add: manifest_example)
  moreover have s: "slot_for ?m \<lparr>ppa_channel = 7, ppa_kind = Telemetry, ppa_point = 0\<rparr> = Some 0"
    by (simp add: manifest_example slot_for_def bt_get_def layout_slot_def)
  moreover have t: "slot_for ?m \<lparr>ppa_channel = 7, ppa_kind = Command, ppa_point = 0\<rparr> = Some 2"
    by (simp add: manifest_example slot_for_def bt_get_def layout_slot_def)
  ultimately have "(0 :: nat) div 2 \<noteq> 2 div 2"
    by (rule manifest_separates_cache_lines [OF _ refl]) (simp add: is_acquisition_owned_def)
  with s t show ?thesis by blast
qed

end
