(* ===== verification/Core_Types.thy ===== *)
theory Core_Types
  imports F64_Arith Rust_Strings
begin

section \<open>Types shared by firmware and gateway (aether-core/src/types.rs, frame.rs)\<close>

text \<open>
  The four point types with their textual and numeric encodings, the values and qualities
  of a reading, and the fixed-capacity batch of readings.  Arithmetic on \<open>u32\<close> wraps, as in
  the release profile the workspace builds.
\<close>

datatype point_type = Telemetry | Signal | Control | Adjustment

definition POINT_OFFSET :: u32 where
  "POINT_OFFSET = (- 1) div 4"

fun point_type_as_str :: "point_type \<Rightarrow> rust_string" where
  "point_type_as_str Telemetry = ascii ''T''"
| "point_type_as_str Signal = ascii ''S''"
| "point_type_as_str Control = ascii ''C''"
| "point_type_as_str Adjustment = ascii ''A''"

fun point_type_as_char :: "point_type \<Rightarrow> char" where
  "point_type_as_char Telemetry = CHR ''T''"
| "point_type_as_char Signal = CHR ''S''"
| "point_type_as_char Control = CHR ''C''"
| "point_type_as_char Adjustment = CHR ''A''"

fun point_type_to_u8 :: "point_type \<Rightarrow> u8" where
  "point_type_to_u8 Telemetry = 0"
| "point_type_to_u8 Signal = 1"
| "point_type_to_u8 Control = 2"
| "point_type_to_u8 Adjustment = 3"

definition point_type_from_u8 :: "u8 \<Rightarrow> point_type option" where
  "point_type_from_u8 v =
     (if v = 0 then Some Telemetry else if v = 1 then Some Signal
      else if v = 2 then Some Control else if v = 3 then Some Adjustment else None)"

definition point_type_from_str :: "rust_string \<Rightarrow> point_type option" where
  "point_type_from_str s =
     (if s \<in> set (map ascii [''T'', ''t'', ''YC'', ''yc'', ''Yc'', ''yC'']) then Some Telemetry
      else if s \<in> set (map ascii [''S'', ''s'', ''YX'', ''yx'', ''Yx'', ''yX'']) then Some Signal
      else if s \<in> set (map ascii [''C'', ''c'', ''YK'', ''yk'', ''Yk'', ''yK'']) then Some Control
      else if s \<in> set (map ascii [''A'', ''a'', ''YT'', ''yt'', ''Yt'', ''yT'']) then Some Adjustment
      else None)"

fun is_measurement :: "point_type \<Rightarrow> bool" where
  "is_measurement Telemetry = True"
| "is_measurement Signal = True"
| "is_measurement _ = False"

fun is_action :: "point_type \<Rightarrow> bool" where
  "is_action Control = True"
| "is_action Adjustment = True"
| "is_action _ = False"

fun is_analog :: "point_type \<Rightarrow> bool" where
  "is_analog Telemetry = True"
| "is_analog Adjustment = True"
| "is_analog _ = False"

fun is_digital :: "point_type \<Rightarrow> bool" where
  "is_digital Signal = True"
| "is_digital Control = True"
| "is_digital _ = False"

fun type_offset :: "point_type \<Rightarrow> u32" where
  "type_offset Telemetry = 0"
| "type_offset Signal = POINT_OFFSET"
| "type_offset Control = POINT_OFFSET * 2"
| "type_offset Adjustment = POINT_OFFSET * 3"

definition to_internal_id :: "point_type \<Rightarrow> u32 \<Rightarrow> u32" where
  "to_internal_id t point_id = point_id + type_offset t"

definition from_internal_id :: "u32 \<Rightarrow> point_type \<times> u32" where
  "from_internal_id internal_id =
     (let type_index = internal_id div POINT_OFFSET; original_id = internal_id mod POINT_OFFSET in
      (if type_index = 0 then Telemetry else if type_index = 1 then Signal
       else if type_index = 2 then Control else Adjustment, original_id))"

subsection \<open>Quality and value\<close>

datatype core_quality = Good | Stale | CommFail | DeviceError | OutOfRange | InvalidQuality

fun quality_to_u8 :: "core_quality \<Rightarrow> u8" where
  "quality_to_u8 Good = 0"
| "quality_to_u8 Stale = 1"
| "quality_to_u8 CommFail = 2"
| "quality_to_u8 DeviceError = 3"
| "quality_to_u8 OutOfRange = 4"
| "quality_to_u8 InvalidQuality = 0xFF"

definition quality_from_u8 :: "u8 \<Rightarrow> core_quality" where
  "quality_from_u8 v =
     (if v = 0 then Good else if v = 1 then Stale else if v = 2 then CommFail
      else if v = 3 then DeviceError else if v = 4 then OutOfRange else InvalidQuality)"

text \<open>An \<open>i64\<close> is its 64-bit pattern; \<open>String16\<close> carries its 16-byte buffer and the length.\<close>

datatype core_value = Float f64 | Integer u64 | Bool bool | String16 bytes u8

definition value_from_bytes :: "bytes \<Rightarrow> core_value" where
  "value_from_bytes bs =
     (let len = min (length bs) 16
      in String16 (take len bs @ replicate (16 - len) 0) (word_of_nat len))"

definition F64_ONE :: f64 where
  "F64_ONE = 0x3FF0000000000000"

fun value_as_f64 :: "core_value \<Rightarrow> f64 option" where
  "value_as_f64 (Float v) = Some v"
| "value_as_f64 (Integer v) = Some (f64_of_int (sint v))"
| "value_as_f64 (Bool v) = Some (if v then F64_ONE else 0)"
| "value_as_f64 (String16 _ _) = None"

fun value_as_i64 :: "core_value \<Rightarrow> u64 option" where
  "value_as_i64 (Float v) = Some (f64_as_i64 v)"
| "value_as_i64 (Integer v) = Some v"
| "value_as_i64 (Bool v) = Some (if v then 1 else 0)"
| "value_as_i64 (String16 _ _) = None"

fun value_as_bool :: "core_value \<Rightarrow> bool option" where
  "value_as_bool (Float v) = Some (\<not> f64_eq v 0)"
| "value_as_bool (Integer v) = Some (v \<noteq> 0)"
| "value_as_bool (Bool v) = Some v"
| "value_as_bool (String16 _ _) = None"

fun value_as_str_bytes :: "core_value \<Rightarrow> (bytes \<times> u8) option" where
  "value_as_str_bytes (String16 buf len) = Some (buf, len)"
| "value_as_str_bytes _ = None"

definition value_from_u32 :: "u32 \<Rightarrow> core_value" where
  "value_from_u32 v = Integer (ucast v)"

definition value_from_i32 :: "u32 \<Rightarrow> core_value" where
  "value_from_i32 v = Integer (scast v)"

definition value_from_f32 :: "u32 \<Rightarrow> core_value" where
  "value_from_f32 v = Float (f32_as_f64 v)"

subsection \<open>Readings and batches\<close>

definition MAX_BATCH_POINTS :: nat where
  "MAX_BATCH_POINTS = 64"

record point_reading =
  rd_point_id :: u32
  rd_point_type :: point_type
  rd_value :: core_value
  rd_quality :: core_quality
  rd_timestamp :: u64

definition reading_telemetry :: "u32 \<Rightarrow> f64 \<Rightarrow> u64 \<Rightarrow> point_reading" where
  "reading_telemetry point_id v timestamp =
     \<lparr>rd_point_id = point_id, rd_point_type = Telemetry, rd_value = Float v, rd_quality = Good,
      rd_timestamp = timestamp\<rparr>"

definition reading_signal :: "u32 \<Rightarrow> bool \<Rightarrow> u64 \<Rightarrow> point_reading" where
  "reading_signal point_id v timestamp =
     \<lparr>rd_point_id = point_id, rd_point_type = Signal, rd_value = Bool v, rd_quality = Good,
      rd_timestamp = timestamp\<rparr>"

definition with_quality :: "point_reading \<Rightarrow> core_quality \<Rightarrow> point_reading" where
  "with_quality r q = r\<lparr>rd_quality := q\<rparr>"

record point_batch =
  batch_instance_id :: u32
  batch_buffer :: "point_reading list"
  batch_count :: nat

definition batch_new :: "u32 \<Rightarrow> point_batch" where
  "batch_new instance_id =
     \<lparr>batch_instance_id = instance_id,
      batch_buffer = replicate MAX_BATCH_POINTS (reading_telemetry 0 0 0), batch_count = 0\<rparr>"

definition batch_push :: "point_reading \<Rightarrow> point_batch \<Rightarrow> bool \<times> point_batch" where
  "batch_push r b =
     (if batch_count b \<ge> MAX_BATCH_POINTS then (False, b)
      else (True, b\<lparr>batch_buffer := (batch_buffer b)[batch_count b := r], batch_count := batch_count b + 1\<rparr>))"

definition batch_readings :: "point_batch \<Rightarrow> point_reading list" where
  "batch_readings b = take (batch_count b) (batch_buffer b)"

definition batch_is_empty :: "point_batch \<Rightarrow> bool" where
  "batch_is_empty b \<longleftrightarrow> batch_count b = 0"

definition batch_clear :: "point_batch \<Rightarrow> point_batch" where
  "batch_clear b = b\<lparr>batch_count := 0\<rparr>"

datatype batch_op = Push point_reading | Clear

fun batch_step :: "batch_op \<Rightarrow> point_batch \<Rightarrow> point_batch" where
  "batch_step (Push r) b = snd (batch_push r b)"
| "batch_step Clear b = batch_clear b"

subsection \<open>Commands and acknowledgements\<close>

record device_command =
  dc_instance_id :: u32
  dc_point_id :: u32
  dc_value :: core_value
  dc_sequence :: u32
  dc_timeout_ms :: u32

definition device_command_digital :: "u32 \<Rightarrow> u32 \<Rightarrow> bool \<Rightarrow> u32 \<Rightarrow> device_command" where
  "device_command_digital i p on seq =
     \<lparr>dc_instance_id = i, dc_point_id = p, dc_value = Bool on, dc_sequence = seq, dc_timeout_ms = 5000\<rparr>"

definition device_command_analog :: "u32 \<Rightarrow> u32 \<Rightarrow> f64 \<Rightarrow> u32 \<Rightarrow> device_command" where
  "device_command_analog i p v seq =
     \<lparr>dc_instance_id = i, dc_point_id = p, dc_value = Float v, dc_sequence = seq, dc_timeout_ms = 5000\<rparr>"

definition with_timeout :: "device_command \<Rightarrow> u32 \<Rightarrow> device_command" where
  "with_timeout c t = c\<lparr>dc_timeout_ms := t\<rparr>"

datatype command_status = CmdPending | CmdSuccess | CmdFailed | CmdTimeout | CmdRejected

record command_ack =
  ack_sequence :: u32
  ack_status :: command_status
  ack_error_code :: u16
  ack_timestamp :: u64

definition command_ack_success :: "u32 \<Rightarrow> u64 \<Rightarrow> command_ack" where
  "command_ack_success seq ts =
     \<lparr>ack_sequence = seq, ack_status = CmdSuccess, ack_error_code = 0, ack_timestamp = ts\<rparr>"

definition command_ack_failed :: "u32 \<Rightarrow> u16 \<Rightarrow> u64 \<Rightarrow> command_ack" where
  "command_ack_failed seq code ts =
     \<lparr>ack_sequence = seq, ack_status = CmdFailed, ack_error_code = code, ack_timestamp = ts\<rparr>"

subsection \<open>Encodings\<close>

lemma point_type_str_roundtrip [simp]: "point_type_from_str (point_type_as_str t) = Some t"
  by (cases t) (simp_all add: point_type_from_str_def ascii_def)

lemma point_type_u8_roundtrip [simp]: "point_type_from_u8 (point_type_to_u8 t) = Some t"
  by (cases t) (simp_all add: point_type_from_u8_def)

lemma point_type_to_u8_inject [simp]: "point_type_to_u8 t = point_type_to_u8 t' \<longleftrightarrow> t = t'"
  using point_type_u8_roundtrip [of t] point_type_u8_roundtrip [of t'] by (metis option.inject)

lemma quality_u8_roundtrip [simp]: "quality_from_u8 (quality_to_u8 q) = q"
  by (cases q) (simp_all add: quality_from_u8_def)

lemma point_offset_nat: "unat POINT_OFFSET = 0x3FFFFFFF"
  by (simp add: POINT_OFFSET_def)

lemma type_offset_nat: "unat (type_offset t) = unat (point_type_to_u8 t) * 0x3FFFFFFF"
  by (cases t) (simp_all add: POINT_OFFSET_def)

lemma from_internal_id_nat:
  "from_internal_id i =
     (let k = unat i div 0x3FFFFFFF in
      (if k = 0 then Telemetry else if k = 1 then Signal else if k = 2 then Control else Adjustment,
       word_of_nat (unat i mod 0x3FFFFFFF)))"
proof -
  have d: "unat (i div POINT_OFFSET) = unat i div 0x3FFFFFFF"
    and m: "unat (i mod POINT_OFFSET) = unat i mod 0x3FFFFFFF"
    by (simp_all add: unat_div unat_mod point_offset_nat)
  have "i div POINT_OFFSET = n \<longleftrightarrow> unat i div 0x3FFFFFFF = unat n" for n :: u32
    using d word_unat_eq_iff [of "i div POINT_OFFSET" n] by simp
  moreover have "i mod POINT_OFFSET = word_of_nat (unat i mod 0x3FFFFFFF)"
    by (simp flip: m)
  ultimately show ?thesis by (simp add: from_internal_id_def Let_def)
qed

lemma div_mod_offset: "i < m \<Longrightarrow> (i + k * m) div m = k" "i < m \<Longrightarrow> (i + k * m) mod m = i" for i k m :: nat
  by simp_all

lemma internal_id_roundtrip:
  assumes "unat i < 0x3FFFFFFF"
  shows "from_internal_id (to_internal_id t i) = (t, i)"
proof -
  let ?k = "unat (point_type_to_u8 t)"
  have k: "?k < 4" by (cases t) simp_all
  then have "unat (to_internal_id t i) = unat i + ?k * 0x3FFFFFFF"
    using assms by (auto simp: to_internal_id_def unat_word_ariths type_offset_nat intro!: mod_less)
  then have "unat (to_internal_id t i) div 0x3FFFFFFF = ?k" "unat (to_internal_id t i) mod 0x3FFFFFFF = unat i"
    using div_mod_offset [OF assms] by (simp_all only:)
  moreover have "(if ?k = 0 then Telemetry else if ?k = 1 then Signal else if ?k = 2 then Control
      else Adjustment) = t" by (cases t) simp_all
  ultimately show ?thesis by (simp add: from_internal_id_nat Let_def)
qed

subsection \<open>The batch as a bounded list\<close>

definition batch_ok :: "point_batch \<Rightarrow> bool" where
  "batch_ok b \<longleftrightarrow> length (batch_buffer b) = MAX_BATCH_POINTS \<and> batch_count b \<le> MAX_BATCH_POINTS"

lemma batch_new_ok: "batch_ok (batch_new i)" "batch_readings (batch_new i) = []"
  by (simp_all add: batch_ok_def batch_new_def batch_readings_def)

lemma batch_push_ok: "batch_ok b \<Longrightarrow> batch_ok (snd (batch_push r b))"
  by (simp add: batch_ok_def batch_push_def)

lemma batch_push_readings:
  assumes "batch_ok b"
  shows "batch_readings (snd (batch_push r b)) =
      (if length (batch_readings b) < MAX_BATCH_POINTS then batch_readings b @ [r] else batch_readings b)"
    and "fst (batch_push r b) \<longleftrightarrow> length (batch_readings b) < MAX_BATCH_POINTS"
  using assms by (auto simp: batch_ok_def batch_push_def batch_readings_def take_Suc_conv_app_nth)

lemma batch_clear_ok: "batch_ok b \<Longrightarrow> batch_ok (batch_clear b)" "batch_readings (batch_clear b) = []"
  by (simp_all add: batch_ok_def batch_clear_def batch_readings_def)

text \<open>What a batch promises: the last 64 pushes since the last clear that fitted.\<close>

fun bounded_list_step :: "batch_op \<Rightarrow> point_reading list \<Rightarrow> point_reading list" where
  "bounded_list_step (Push r) rs = (if length rs < 64 then rs @ [r] else rs)"
| "bounded_list_step Clear rs = []"

lemma batch_run:
  assumes "batch_ok b"
  shows "batch_ok (fold batch_step ops b) \<and>
    batch_readings (fold batch_step ops b) = fold bounded_list_step ops (batch_readings b)"
  using assms
proof (induction ops arbitrary: b)
  case (Cons x ops)
  have "batch_ok (batch_step x b) \<and> batch_readings (batch_step x b) = bounded_list_step x (batch_readings b)"
    using Cons.prems
    by (cases x) (simp_all add: batch_push_ok batch_push_readings batch_clear_ok MAX_BATCH_POINTS_def)
  then show ?case using Cons.IH [of "batch_step x b"] by simp
qed simp

subsection \<open>Properties\<close>

text \<open>
  C24: encoding a point id together with its type loses nothing exactly for ids below
  \<open>POINT_OFFSET\<close>: the decoder gives back type and id if and only if the id is below that bound.
  The first id that does not fit is taken for the first id of the next type.
\<close>

theorem internal_id_roundtrip_iff:
  "(from_internal_id (to_internal_id t point_id) = (t, point_id) \<longleftrightarrow> point_id < POINT_OFFSET) \<and>
   from_internal_id (to_internal_id Telemetry POINT_OFFSET) = (Signal, 0)"
proof (intro conjI iffI)
  assume "from_internal_id (to_internal_id t point_id) = (t, point_id)"
  then have "point_id = to_internal_id t point_id mod POINT_OFFSET"
    by (simp add: from_internal_id_def Let_def)
  moreover have "POINT_OFFSET \<noteq> 0" by (simp add: POINT_OFFSET_def)
  ultimately show "point_id < POINT_OFFSET" by (metis word_mod_less_divisor word_neq_0_conv)
next
  assume "point_id < POINT_OFFSET"
  then show "from_internal_id (to_internal_id t point_id) = (t, point_id)"
    by (intro internal_id_roundtrip) (simp add: word_less_nat_alt point_offset_nat)
next
  show "from_internal_id (to_internal_id Telemetry POINT_OFFSET) = (Signal, 0)"
    by (simp add: from_internal_id_nat to_internal_id_def point_offset_nat)
qed

text \<open>
  A batch is a list of at most 64 readings: after any sequence of pushes and clears on a
  new batch, the readings are those the bounded list holds, in order.
\<close>

lemma batch_refines_bounded_list:
  "batch_readings (fold batch_step ops (batch_new i)) = fold bounded_list_step ops [] \<and>
   length (batch_readings (fold batch_step ops (batch_new i))) \<le> MAX_BATCH_POINTS"
proof -
  have "batch_ok (fold batch_step ops (batch_new i))" using batch_run batch_new_ok(1) by blast
  then have "length (batch_readings (fold batch_step ops (batch_new i))) \<le> MAX_BATCH_POINTS"
    by (simp add: batch_ok_def batch_readings_def)
  then show ?thesis using batch_run [OF batch_new_ok(1), of ops i] batch_new_ok(2) by simp
qed

end
