(* ===== verification/Core_Shm.thy ===== *)
theory Core_Shm
  imports F64_Bits
begin

section \<open>Shared-memory layout of the firmware side (aether-core/src/shm.rs)\<close>

text \<open>
  The header, the point slot with its sequence counter, and the size and offset arithmetic.
  The operations are modelled as one atomic step each; a reader that spins sees one state of
  the slot per attempt.  The sequence counter is an \<open>AtomicU32\<close> and wraps.
\<close>

definition SHM_MAGIC :: u64 where "SHM_MAGIC = 0x544C4F5600010000"
definition SHM_VERSION :: u32 where "SHM_VERSION = 1"
definition HEADER_SIZE :: nat where "HEADER_SIZE = 64"
definition SLOT_SIZE :: nat where "SLOT_SIZE = 32"

record shm_header =
  sh_magic :: u64
  sh_version :: u32
  sh_slot_count :: u32
  sh_last_update :: u64
  sh_writer_pid :: u32
  sh_flags :: u32
  sh_reserved :: bytes

definition shm_header_is_valid :: "shm_header \<Rightarrow> bool" where
  "shm_header_is_valid h \<longleftrightarrow> sh_magic h = SHM_MAGIC \<and> sh_version h = SHM_VERSION"

definition shm_set_last_update :: "u64 \<Rightarrow> shm_header \<Rightarrow> shm_header" where
  "shm_set_last_update ts h = h\<lparr>sh_last_update := ts\<rparr>"

definition shm_header_init :: "u32 \<Rightarrow> shm_header \<Rightarrow> shm_header" where
  "shm_header_init max_slots h =
     h\<lparr>sh_magic := SHM_MAGIC, sh_version := SHM_VERSION, sh_slot_count := 0, sh_last_update := 0,
       sh_writer_pid := 0, sh_flags := 0, sh_reserved := replicate 32 0\<rparr>\<lparr>sh_slot_count := max_slots\<rparr>"

definition SLOT_VALID :: u8 where "SLOT_VALID = 0x01"
definition SLOT_DIRTY :: u8 where "SLOT_DIRTY = 0x02"
definition SLOT_WRITING :: u8 where "SLOT_WRITING = 0x04"

record core_slot =
  cs_sequence :: u32
  cs_point_id :: u32
  cs_value :: f64
  cs_timestamp :: u64
  cs_instance_id :: u32
  cs_quality :: u8
  cs_point_type :: u8
  cs_flags :: u8
  cs_padding :: u8

definition core_slot_zeroed :: core_slot where
  "core_slot_zeroed =
     \<lparr>cs_sequence = 0, cs_point_id = 0, cs_value = 0, cs_timestamp = 0, cs_instance_id = 0,
      cs_quality = 0, cs_point_type = 0, cs_flags = 0, cs_padding = 0\<rparr>"

definition core_slot_is_valid :: "core_slot \<Rightarrow> bool" where
  "core_slot_is_valid s \<longleftrightarrow> cs_flags s AND SLOT_VALID \<noteq> 0"

definition begin_write :: "core_slot \<Rightarrow> u32 \<times> core_slot" where
  "begin_write s = (cs_sequence s + 1, s\<lparr>cs_sequence := cs_sequence s + 1\<rparr>)"

definition end_write :: "core_slot \<Rightarrow> core_slot" where
  "end_write s = s\<lparr>cs_sequence := cs_sequence s + 1\<rparr>"

definition try_read :: "core_slot \<Rightarrow> (f64 \<times> u64 \<times> u8) option" where
  "try_read s =
     (let seq1 = cs_sequence s in
      if seq1 AND 1 \<noteq> 0 then None
      else
        let read = (cs_value s, cs_timestamp s, cs_quality s); seq2 = cs_sequence s in
        if seq1 \<noteq> seq2 then None else Some read)"

text \<open>\<open>obs i\<close> is the slot as the \<open>i\<close>-th attempt finds it.\<close>

partial_function (option) read_spin :: "(nat \<Rightarrow> core_slot) \<Rightarrow> nat \<Rightarrow> (f64 \<times> u64 \<times> u8) option" where
  "read_spin obs i =
     (case try_read (obs i) of Some d \<Rightarrow> Some d | None \<Rightarrow> read_spin obs (i + 1))"

definition core_slot_store :: "f64 \<Rightarrow> u64 \<Rightarrow> u8 \<Rightarrow> core_slot \<Rightarrow> core_slot" where
  "core_slot_store v ts q s =
     s\<lparr>cs_value := v, cs_timestamp := ts, cs_quality := q,
       cs_flags := cs_flags s OR (SLOT_VALID OR SLOT_DIRTY)\<rparr>"

definition core_slot_write :: "f64 \<Rightarrow> u64 \<Rightarrow> u8 \<Rightarrow> core_slot \<Rightarrow> core_slot" where
  "core_slot_write v ts q s = end_write (core_slot_store v ts q (snd (begin_write s)))"

definition shm_size :: "u32 \<Rightarrow> nat" where
  "shm_size slot_count = HEADER_SIZE + unat slot_count * SLOT_SIZE"

definition shm_slot_offset :: "u32 \<Rightarrow> nat" where
  "shm_slot_offset slot_index = HEADER_SIZE + unat slot_index * SLOT_SIZE"

subsection \<open>Reading and writing\<close>

lemma try_read_eq:
  "try_read s = (if even (cs_sequence s) then Some (cs_value s, cs_timestamp s, cs_quality s) else None)"
  by (simp add: try_read_def Let_def even_word_iff)

lemma core_slot_write_fields:
  "cs_sequence (core_slot_write v ts q s) = cs_sequence s + 2"
  "cs_value (core_slot_write v ts q s) = v" "cs_timestamp (core_slot_write v ts q s) = ts"
  "cs_quality (core_slot_write v ts q s) = q"
  by (simp_all add: core_slot_write_def end_write_def begin_write_def core_slot_store_def)

lemma core_slot_write_valid: "core_slot_is_valid (core_slot_write v ts q s)"
proof -
  have "bit (cs_flags (core_slot_write v ts q s)) 0"
    by (simp add: core_slot_write_def end_write_def begin_write_def core_slot_store_def
        SLOT_VALID_def SLOT_DIRTY_def bit_or_iff)
  then show ?thesis
    by (simp add: core_slot_is_valid_def SLOT_VALID_def bit_0 even_word_iff)
qed

definition first_read :: "(nat \<Rightarrow> core_slot) \<Rightarrow> nat \<Rightarrow> nat \<Rightarrow> f64 \<times> u64 \<times> u8 \<Rightarrow> bool" where
  "first_read obs i j d \<longleftrightarrow> i \<le> j \<and> try_read (obs j) = Some d \<and> (\<forall>k. i \<le> k \<and> k < j \<longrightarrow> try_read (obs k) = None)"

lemma first_read_later: "try_read (obs i) = None \<Longrightarrow> first_read obs (i + 1) j d \<Longrightarrow> first_read obs i j d"
  unfolding first_read_def by (auto simp: Suc_le_eq) (metis order_le_less)

lemma read_spin_Some:
  assumes "read_spin obs i = Some d"
  shows "\<exists>j. first_read obs i j d"
proof (rule read_spin.raw_induct [OF _ assms])
  fix spin :: "(nat \<Rightarrow> core_slot) \<Rightarrow> nat \<Rightarrow> (f64 \<times> u64 \<times> u8) option" and obs i d
  assume IH: "\<And>obs i d. spin obs i = Some d \<Longrightarrow> \<exists>j. first_read obs i j d"
    and r: "(case try_read (obs i) of None \<Rightarrow> spin obs (i + 1) | Some d \<Rightarrow> Some d) = Some d"
  show "\<exists>j. first_read obs i j d"
  proof (cases "try_read (obs i)")
    case None
    with r have "spin obs (i + 1) = Some d" by simp
    from IH [OF this] show ?thesis using first_read_later None by blast
  next
    case (Some d')
    with r have "first_read obs i i d" by (auto simp: first_read_def)
    then show ?thesis ..
  qed
qed

lemma read_spin_first:
  assumes "first_read obs i j d"
  shows "read_spin obs i = Some d"
proof -
  have "i \<le> j" and first: "try_read (obs j) = Some d" "\<forall>k. i \<le> k \<and> k < j \<longrightarrow> try_read (obs k) = None"
    using assms by (simp_all add: first_read_def)
  from \<open>i \<le> j\<close> first(2) show ?thesis
  proof (induction rule: inc_induct)
    case base
    then show ?case by (subst read_spin.simps) (simp add: first(1))
  next
    case (step n)
    then show ?case by (subst read_spin.simps) simp
  qed
qed

lemma first_read_0:
  "first_read obs 0 j d \<longleftrightarrow>
     even (cs_sequence (obs j)) \<and> d = (cs_value (obs j), cs_timestamp (obs j), cs_quality (obs j)) \<and>
     list_all (\<lambda>k. odd (cs_sequence (obs k))) [0..<j]"
  by (auto simp: first_read_def try_read_eq list_all_iff split: if_splits)

lemma first_even:
  assumes "even (cs_sequence (obs (j :: nat)))"
  shows "\<exists>j d. first_read obs 0 j d"
proof -
  define m where "m = (LEAST j. even (cs_sequence (obs j)))"
  have "even (cs_sequence (obs m))" unfolding m_def by (rule LeastI [of "\<lambda>j. even (cs_sequence (obs j))", OF assms])
  moreover have "odd (cs_sequence (obs k))" if "k < m" for k
    using not_less_Least that unfolding m_def by blast
  ultimately have "first_read obs 0 m (cs_value (obs m), cs_timestamp (obs m), cs_quality (obs m))"
    by (simp add: first_read_0 list_all_iff)
  then show ?thesis by blast
qed

lemma core_slot_write_then_read:
  assumes "even (cs_sequence s)"
  shows "try_read (core_slot_write v ts q s) = Some (v, ts, q) \<and>
    core_slot_is_valid (core_slot_write v ts q s) \<and> even (cs_sequence (core_slot_write v ts q s)) \<and>
    try_read (core_slot_store v ts q (snd (begin_write s))) = None"
  using assms
  by (simp add: try_read_eq core_slot_write_fields core_slot_write_valid core_slot_store_def begin_write_def)

subsection \<open>Properties\<close>



end
