(* ===== verification/Dl645_Codec.thy ===== *)
theory Dl645_Codec
  imports F64_Arith Rust_Strings
begin

section \<open>DL/T 645-2007 meter protocol (aether-core/src/codec/dl645.rs)\<close>

text \<open>
  Meter addresses and data identifiers with their textual and wire forms, the offset-33H
  data encoding, the checksum, the request encoder, the response decoder and the BCD
  readers.  An operation that can leave a fixed buffer returns an \<open>option\<close>: \<open>None\<close> is the
  panic of the slice index, which aborts the process in the release profile.  \<open>u16\<close> and \<open>u32\<close>
  sums wrap.
\<close>

definition FRAME_START :: u8 where "FRAME_START = 0x68"
definition FRAME_END :: u8 where "FRAME_END = 0x16"
definition CTRL_READ_DATA :: u8 where "CTRL_READ_DATA = 0x11"
definition CTRL_READ_DATA_RESP :: u8 where "CTRL_READ_DATA_RESP = 0x91"
definition CTRL_READ_DATA_ERR :: u8 where "CTRL_READ_DATA_ERR = 0xD1"
definition DATA_OFFSET :: u8 where "DATA_OFFSET = 0x33"
definition MAX_FRAME_SIZE :: nat where "MAX_FRAME_SIZE = 256"

datatype dl645_error =
    NoData | DateError | NoPermission | FrameError | ChecksumError | InvalidLength
  | InvalidMarkers | AddressError | OtherError

subsection \<open>Hexadecimal text\<close>

definition hex_char_to_nibble :: "u8 \<Rightarrow> u8 option" where
  "hex_char_to_nibble c =
     (if 0x30 \<le> c \<and> c \<le> 0x39 then Some (c - 0x30)
      else if 0x41 \<le> c \<and> c \<le> 0x46 then Some (c - 0x41 + 10)
      else if 0x61 \<le> c \<and> c \<le> 0x66 then Some (c - 0x61 + 10)
      else None)"

definition nibble_to_hex_char :: "u8 \<Rightarrow> u8" where
  "nibble_to_hex_char n = (if n AND 0x0F \<le> 9 then 0x30 + n else 0x41 + (n - 10))"

text \<open>The loop both parsers share: two hexadecimal digits per byte.\<close>

fun hex_pairs :: "dl645_error \<Rightarrow> bytes \<Rightarrow> dl645_error + bytes" where
  "hex_pairs e (h # l # rest) =
     rbind (ok_or (hex_char_to_nibble h) e) (\<lambda>high.
     rbind (ok_or (hex_char_to_nibble l) e) (\<lambda>low.
     rbind (hex_pairs e rest) (\<lambda>t. Inr ((push_bit 4 high OR low) # t))))"
| "hex_pairs e _ = Inr []"

text \<open>\<open>{b:02X}\<close> of the standard library.\<close>

definition hex_02X :: "u8 \<Rightarrow> bytes" where
  "hex_02X b = [nibble_to_hex_char (drop_bit 4 b), nibble_to_hex_char (b AND 0x0F)]"

subsection \<open>Addresses and identifiers\<close>

record meter_address =
  ma_bytes :: bytes

definition meter_address_broadcast :: meter_address where
  "meter_address_broadcast = \<lparr>ma_bytes = replicate 6 0x99\<rparr>"

definition meter_address_parse :: "rust_string \<Rightarrow> dl645_error + meter_address" where
  "meter_address_parse s =
     (if length s \<noteq> 12 then Inl AddressError
      else rbind (hex_pairs AddressError s) (\<lambda>addr. Inr \<lparr>ma_bytes = addr\<rparr>))"

definition meter_address_from_wire :: "bytes \<Rightarrow> dl645_error + meter_address" where
  "meter_address_from_wire wire =
     (if length wire < 6 then Inl AddressError
      else Inr \<lparr>ma_bytes = map (\<lambda>i. wire ! (5 - i)) [0..<6]\<rparr>)"

definition meter_address_to_wire :: "meter_address \<Rightarrow> bytes" where
  "meter_address_to_wire a = map (\<lambda>i. ma_bytes a ! (5 - i)) [0..<6]"

definition meter_address_display :: "meter_address \<Rightarrow> rust_string" where
  "meter_address_display a = concat (map hex_02X (ma_bytes a))"

record data_identifier =
  di_bytes :: bytes

definition data_identifier_from_hex_str :: "rust_string \<Rightarrow> dl645_error + data_identifier" where
  "data_identifier_from_hex_str s =
     (if length s \<noteq> 8 then Inl FrameError
      else rbind (hex_pairs FrameError s) (\<lambda>di. Inr \<lparr>di_bytes = di\<rparr>))"

definition data_identifier_from_u32 :: "u32 \<Rightarrow> data_identifier" where
  "data_identifier_from_u32 v = \<lparr>di_bytes = rev (to_le_bytes v)\<rparr>"

definition data_identifier_to_wire :: "data_identifier \<Rightarrow> bytes" where
  "data_identifier_to_wire d = map (\<lambda>i. di_bytes d ! (3 - i)) [0..<4]"

definition data_identifier_to_hex_string :: "data_identifier \<Rightarrow> bytes" where
  "data_identifier_to_hex_string d =
     concat (map (\<lambda>b. [nibble_to_hex_char (drop_bit 4 b), nibble_to_hex_char (b AND 0x0F)]) (di_bytes d))"

record dl645_frame =
  fr_meter_addr :: meter_address
  fr_data_id :: data_identifier
  fr_data :: bytes
  fr_data_len :: nat

subsection \<open>Frames\<close>

definition encode_data :: "bytes \<Rightarrow> bytes" where
  "encode_data data =
     map (\<lambda>b. b + DATA_OFFSET) (take 64 data) @ replicate (64 - length data) 0"

definition decode_data :: "bytes \<Rightarrow> bytes" where
  "decode_data data =
     map (\<lambda>b. b - DATA_OFFSET) (take 64 data) @ replicate (64 - length data) 0"

definition calculate_checksum :: "bytes \<Rightarrow> u8" where
  "calculate_checksum frame =
     ucast (foldl (\<lambda>sum b. sum + ucast b) (0 :: u16) frame AND 0xFF)"

definition encode_read_request :: "meter_address \<Rightarrow> data_identifier \<Rightarrow> bytes \<times> nat" where
  "encode_read_request meter_addr data_id =
     (let body = [FRAME_START] @ meter_address_to_wire meter_addr @ [FRAME_START] @ [CTRL_READ_DATA] @ [4] @
            map (\<lambda>b. b + DATA_OFFSET) (data_identifier_to_wire data_id);
          cs = calculate_checksum body;
          used = body @ [cs] @ [FRAME_END];
          pos = length used
      in (used @ replicate (MAX_FRAME_SIZE - pos) 0, pos))"

definition error_of_code :: "u8 \<Rightarrow> dl645_error" where
  "error_of_code c =
     (if c = 0x01 then NoData else if c = 0x02 then DateError else if c = 0x04 then NoPermission
      else if c = 0x08 then FrameError else OtherError)"

definition decode_response :: "bytes \<Rightarrow> (dl645_error + dl645_frame) option" where
  "decode_response frame =
     (if length frame < 14 then Some (Inl InvalidLength)
      else if frame ! 0 \<noteq> FRAME_START \<or> frame ! 7 \<noteq> FRAME_START then Some (Inl InvalidMarkers)
      else
        let frame_end_idx = length frame - 1 in
        if frame ! frame_end_idx \<noteq> FRAME_END then Some (Inl InvalidMarkers)
        else
          let cs_idx = frame_end_idx - 1; expected_cs = calculate_checksum (take cs_idx frame) in
          if frame ! cs_idx \<noteq> expected_cs then Some (Inl ChecksumError)
          else
            (case meter_address_from_wire (take 6 (drop 1 frame)) of
               Inl e \<Rightarrow> Some (Inl e)
             | Inr meter_addr \<Rightarrow>
                 let ctrl = frame ! 8; data_len = unat (frame ! 9); expected_len = 10 + data_len + 2 in
                 if length frame \<noteq> expected_len then Some (Inl InvalidLength)
                 else if ctrl = CTRL_READ_DATA_ERR then
                   (if data_len > 0 then Some (Inl (error_of_code (frame ! 10 - DATA_OFFSET)))
                    else Some (Inl OtherError))
                 else if ctrl \<noteq> CTRL_READ_DATA_RESP then Some (Inl FrameError)
                 else
                   let encoded_data = take data_len (drop 10 frame); decoded = decode_data encoded_data in
                   if data_len < 4 then Some (Inl InvalidLength)
                   else
                     let data_id = \<lparr>di_bytes = map (\<lambda>i. decoded ! (3 - i)) [0..<4]\<rparr>;
                         actual_data_len = data_len - 4
                     in if 4 + actual_data_len > length decoded \<or> actual_data_len > 64 then None
                        else Some (Inr \<lparr>fr_meter_addr = meter_addr, fr_data_id = data_id,
                          fr_data = take actual_data_len (drop 4 decoded) @ replicate (64 - actual_data_len) 0,
                          fr_data_len = actual_data_len\<rparr>)))"

subsection \<open>BCD values\<close>

fun bcd_loop :: "bytes \<Rightarrow> u32 \<Rightarrow> u32 \<Rightarrow> u32" where
  "bcd_loop [] acc multiplier = acc"
| "bcd_loop (byte # data) acc multiplier =
     (let low = ucast (byte AND 0x0F); high = ucast (drop_bit 4 byte AND 0x0F);
          acc = acc + low * multiplier; multiplier = multiplier * 10;
          acc = acc + high * multiplier; multiplier = multiplier * 10
      in bcd_loop data acc multiplier)"

definition bcd_to_u32 :: "bytes \<Rightarrow> u32" where
  "bcd_to_u32 data = bcd_loop data 0 1"

text \<open>The decimal literals of the units.\<close>

definition f64_0_01 :: f64 where "f64_0_01 = 0x3F847AE147AE147B"
definition f64_0_1 :: f64 where "f64_0_1 = 0x3FB999999999999A"
definition f64_0_001 :: f64 where "f64_0_001 = 0x3F50624DD2F1A9FC"
definition f64_0_0001 :: f64 where "f64_0_0001 = 0x3F1A36E2EB1C432D"

definition parse_energy :: "bytes \<Rightarrow> f64" where
  "parse_energy data =
     (if length data < 4 then 0 else f64_mul (f64_of_int (uint (bcd_to_u32 (take 4 data)))) f64_0_01)"

definition parse_voltage :: "bytes \<Rightarrow> f64" where
  "parse_voltage data =
     (if length data < 2 then 0 else f64_mul (f64_of_int (uint (bcd_to_u32 (take 2 data)))) f64_0_1)"

definition parse_current :: "bytes \<Rightarrow> f64" where
  "parse_current data =
     (if length data < 3 then 0 else f64_mul (f64_of_int (uint (bcd_to_u32 (take 3 data)))) f64_0_001)"

definition parse_power :: "bytes \<Rightarrow> f64" where
  "parse_power data =
     (if length data < 3 then 0 else f64_mul (f64_of_int (uint (bcd_to_u32 (take 3 data)))) f64_0_0001)"

definition parse_power_factor :: "bytes \<Rightarrow> f64" where
  "parse_power_factor data =
     (if length data < 2 then 0 else f64_mul (f64_of_int (uint (bcd_to_u32 (take 2 data)))) f64_0_001)"

lemmas dl645_consts = FRAME_START_def FRAME_END_def CTRL_READ_DATA_def CTRL_READ_DATA_RESP_def
  CTRL_READ_DATA_ERR_def DATA_OFFSET_def

subsection \<open>Text and wire forms\<close>

lemma nibble_cases:
  "(n :: u8) \<le> 0x0F \<Longrightarrow> n \<in> {0, 1, 2, 3, 4, 5, 6, 7, 8, 9, 10, 11, 12, 13, 14, 15}"
proof -
  assume "n \<le> 0x0F"
  then have "unat n < 16" by (simp add: word_le_nat_alt)
  then have "unat n \<in> {0, 1, 2, 3, 4, 5, 6, 7, 8, 9, 10, 11, 12, 13, 14, 15}" by simp arith
  then have "word_of_nat (unat n) \<in> (word_of_nat :: nat \<Rightarrow> u8) ` {0, 1, 2, 3, 4, 5, 6, 7, 8, 9, 10, 11, 12, 13, 14, 15}"
    by (rule imageI)
  then show ?thesis by simp
qed

lemma hex_nibble_roundtrip:
  assumes "n \<le> 0x0F"
  shows "hex_char_to_nibble (nibble_to_hex_char n) = Some n"
  using nibble_cases [OF assms] unfolding insert_iff empty_iff
  by (elim disjE) (simp_all add: hex_char_to_nibble_def nibble_to_hex_char_def)

lemma bit_0x0F: "bit (0x0F :: u8) n \<longleftrightarrow> n < 4"
proof -
  have "(0x0F :: u8) = mask 4" by (simp add: mask_eq_exp_minus_1)
  then show ?thesis by (simp only: bit_mask_iff) auto
qed

lemma byte_nibbles: "push_bit 4 (drop_bit 4 b) OR (b AND 0x0F) = (b :: u8)"
proof (rule bit_word_eqI)
  fix n assume "n < LENGTH(8)"
  then show "bit (push_bit 4 (drop_bit 4 b) OR b AND 0x0F) n = bit b n"
    unfolding bit_or_iff bit_and_iff bit_push_bit_iff bit_drop_bit_eq bit_0x0F by (cases "n < 4") simp_all
qed

lemma nibbles_small: "drop_bit 4 (b :: u8) \<le> 0x0F" "b AND 0x0F \<le> (0x0F :: u8)"
proof -
  have "unat (drop_bit 4 b) = unat b div 16" by (simp add: drop_bit_eq_div unat_div)
  moreover have "unat b < 256" using unsigned_less [of b] by simp
  ultimately show "drop_bit 4 b \<le> 0x0F" by (simp add: word_le_nat_alt)
  show "b AND 0x0F \<le> (0x0F :: u8)" by (rule word_and_le1)
qed

lemma hex_pairs_roundtrip: "hex_pairs e (concat (map hex_02X bs)) = Inr bs"
  by (induction bs) (simp_all add: hex_02X_def hex_nibble_roundtrip nibbles_small byte_nibbles)

lemma length_hex_02X: "length (concat (map hex_02X bs)) = 2 * length bs"
  by (induction bs) (simp_all add: hex_02X_def)

lemma rev_by_index: "length xs = n \<Longrightarrow> map (\<lambda>i. xs ! (n - 1 - i)) [0..<n] = rev xs"
  by (rule nth_equalityI) (simp_all add: rev_nth)

lemma to_wire_rev: "length (ma_bytes a) = 6 \<Longrightarrow> meter_address_to_wire a = rev (ma_bytes a)"
  using rev_by_index [of "ma_bytes a" 6] by (simp add: meter_address_to_wire_def)

lemma from_wire_rev: "length wire = 6 \<Longrightarrow> meter_address_from_wire wire = Inr \<lparr>ma_bytes = rev wire\<rparr>"
  using rev_by_index [of wire 6] by (simp add: meter_address_from_wire_def)

lemma di_to_wire_rev: "length (di_bytes d) = 4 \<Longrightarrow> data_identifier_to_wire d = rev (di_bytes d)"
  using rev_by_index [of "di_bytes d" 4] by (simp add: data_identifier_to_wire_def)

subsection \<open>The checksum\<close>

lemma take_bit_add_byte: "take_bit 8 (x + take_bit 8 b) = take_bit 8 (take_bit 16 x + b)" for x b :: int
proof -
  have "(x mod 65536 + b) mod 256 = (x mod 65536 mod 256 + b) mod 256" by (simp only: mod_add_left_eq)
  also have "\<dots> = (x + b mod 256) mod 256" by (simp add: mod_mod_cancel mod_simps)
  finally show ?thesis by (simp add: take_bit_eq_mod)
qed

lemma ucast_add_byte: "(ucast (x + ucast b :: u16) :: u8) = ucast x + b"
  by transfer (simp add: take_bit_add_byte)

lemma ucast_low_byte: "(ucast (x AND 0xFF :: u16) :: u8) = ucast x"
proof -
  have "(0xFF :: u16) = mask 8" by (simp add: mask_eq_exp_minus_1)
  then show ?thesis by (intro bit_word_eqI) (simp only: bit_ucast_iff bit_and_iff bit_mask_iff, auto)
qed

lemma checksum_sum: "calculate_checksum f = sum_list f"
proof -
  have "(ucast (foldl (\<lambda>sum b. sum + ucast b) (x :: u16) f) :: u8) = ucast x + sum_list f" for x
    by (induction f arbitrary: x) (simp_all add: ucast_add_byte ac_simps)
  then show ?thesis by (simp add: calculate_checksum_def ucast_low_byte)
qed

lemma sum_list_update:
  fixes b :: u8
  shows "i < length f \<Longrightarrow> sum_list (f[i := b]) = sum_list f - f ! i + b"
  by (induction f arbitrary: i) (auto split: nat.split simp: algebra_simps)

subsection \<open>The decoder in stages\<close>

text \<open>
  The checks on the whole frame, then the decoder proper.  A frame that passes the checks has
  its markers and checksum in place.
\<close>

definition frame_intact :: "bytes \<Rightarrow> bool" where
  "frame_intact f \<longleftrightarrow> 14 \<le> length f \<and> f ! 0 = FRAME_START \<and> f ! 7 = FRAME_START \<and>
     f ! (length f - 1) = FRAME_END \<and> f ! (length f - 2) = sum_list (take (length f - 2) f)"

lemma decode_response_not_intact:
  "\<not> frame_intact f \<Longrightarrow> \<exists>e. decode_response f = Some (Inl e)"
  unfolding decode_response_def frame_intact_def checksum_sum Let_def
  by (cases "length f < 14"; cases "f ! 0 \<noteq> FRAME_START \<or> f ! 7 \<noteq> FRAME_START";
      cases "f ! (length f - 1) \<noteq> FRAME_END") (auto simp: numeral_2_eq_2)

lemma frame_intact_corrupt:
  assumes "frame_intact f" and "i < length f" and "b \<noteq> f ! i"
  shows "\<not> frame_intact (f[i := b])"
proof
  assume c: "frame_intact (f[i := b])"
  let ?n = "length f - 2"
  have n: "14 \<le> length f" "length (f[i := b]) = length f" using assms(1) by (simp_all add: frame_intact_def)
  have "i \<noteq> 0 \<and> i \<noteq> 7 \<and> i \<noteq> length f - 1"
    using c assms by (intro conjI notI) (simp_all add: frame_intact_def)
  then consider "i = ?n" | "i < ?n" using assms(2) n by linarith
  then show False
  proof cases
    case 1
    then show False using c assms n by (simp add: frame_intact_def)
  next
    case 2
    then have "sum_list (take ?n (f[i := b])) = sum_list (take ?n f) - f ! i + b"
      using sum_list_update [of i "take ?n f" b] by (simp add: take_update_swap)
    moreover have "sum_list (take ?n (f[i := b])) = sum_list (take ?n f)"
      using c assms(1) 2 n by (simp add: frame_intact_def)
    ultimately show False using assms(3) by simp
  qed
qed

subsection \<open>Well-formed responses\<close>

text \<open>The response frame of the protocol, as the module's frame diagram gives it.\<close>

definition response_body :: "meter_address \<Rightarrow> data_identifier \<Rightarrow> bytes \<Rightarrow> bytes" where
  "response_body a d data =
     FRAME_START # rev (ma_bytes a) @ FRAME_START # CTRL_READ_DATA_RESP # word_of_nat (4 + length data) #
     map (\<lambda>b. b + DATA_OFFSET) (rev (di_bytes d) @ data)"

definition response_frame :: "meter_address \<Rightarrow> data_identifier \<Rightarrow> bytes \<Rightarrow> bytes" where
  "response_frame a d data =
     response_body a d data @ [calculate_checksum (response_body a d data), FRAME_END]"

definition address_ok :: "meter_address \<Rightarrow> bool" where
  "address_ok a \<longleftrightarrow> length (ma_bytes a) = 6"

definition identifier_ok :: "data_identifier \<Rightarrow> bool" where
  "identifier_ok d \<longleftrightarrow> length (di_bytes d) = 4"

lemma decode_data_offset:
  "decode_data (map (\<lambda>b. b + DATA_OFFSET) xs) = take 64 xs @ replicate (64 - length xs) 0"
  by (simp add: decode_data_def take_map o_def)

lemma length6: "length xs = 6 \<Longrightarrow> \<exists>a b c d e f. xs = [a, b, c, d, e, f]"
  by (simp add: numeral_eq_Suc length_Suc_conv) blast

lemma response_body_shape:
  assumes "address_ok a" and "identifier_ok d"
  shows "length (response_body a d data) = 14 + length data"
    and "response_body a d data ! 0 = FRAME_START" "response_body a d data ! 7 = FRAME_START"
    and "response_body a d data ! 8 = CTRL_READ_DATA_RESP"
    and "response_body a d data ! 9 = word_of_nat (4 + length data)"
    and "take 6 (drop 1 (response_body a d data)) = rev (ma_bytes a)"
    and "drop 10 (response_body a d data) = map (\<lambda>b. b + DATA_OFFSET) (rev (di_bytes d) @ data)"
proof -
  obtain a0 a1 a2 a3 a4 a5 where a: "ma_bytes a = [a0, a1, a2, a3, a4, a5]"
    using length6 assms(1) unfolding address_ok_def by blast
  show "length (response_body a d data) = 14 + length data" "response_body a d data ! 0 = FRAME_START"
    "response_body a d data ! 7 = FRAME_START" "response_body a d data ! 8 = CTRL_READ_DATA_RESP"
    "response_body a d data ! 9 = word_of_nat (4 + length data)"
    "take 6 (drop 1 (response_body a d data)) = rev (ma_bytes a)"
    "drop 10 (response_body a d data) = map (\<lambda>b. b + DATA_OFFSET) (rev (di_bytes d) @ data)"
    using assms(2) by (simp_all add: response_body_def a identifier_ok_def)
qed

lemma decode_response_frame:
  assumes a: "address_ok a" and d: "identifier_ok d" and len: "length data \<le> 251"
  shows "decode_response (response_frame a d data) =
    (if length data \<le> 60 then
       Some (Inr \<lparr>fr_meter_addr = a, fr_data_id = d, fr_data = data @ replicate (64 - length data) 0,
         fr_data_len = length data\<rparr>)
     else None)"
proof -
  let ?body = "response_body a d data" and ?f = "response_frame a d data"
  note b = response_body_shape [OF a d, of data]
  have f: "length ?f = 16 + length data" "?f ! 0 = FRAME_START" "?f ! 7 = FRAME_START" "?f ! 8 = CTRL_READ_DATA_RESP"
      "?f ! (length ?f - 1) = FRAME_END"
      "?f ! (length ?f - 1 - 1) = calculate_checksum ?body" "take (length ?f - 1 - 1) ?f = ?body"
    using b by (simp_all add: response_frame_def nth_append)
  have "?f ! 9 = word_of_nat (4 + length data)" using b by (simp add: response_frame_def nth_append)
  then have L: "unat (?f ! 9) = 4 + length data" using len by (simp only: unat_of_nat) simp
  have ctrl: "CTRL_READ_DATA_RESP \<noteq> CTRL_READ_DATA_ERR" by (simp add: dl645_consts)
  have addr: "meter_address_from_wire (take 6 (drop (Suc 0) ?f)) = Inr a"
    using b(1,6) a by (simp add: response_frame_def from_wire_rev address_ok_def)
  have data: "take (4 + length data) (drop 10 ?f) = map (\<lambda>b. b + DATA_OFFSET) (rev (di_bytes d) @ data)"
    using b(1,7) d by (simp add: response_frame_def identifier_ok_def)
  define xs where "xs = rev (di_bytes d) @ data"
  have xs: "length xs = 4 + length data" "drop 4 xs = data" using d by (simp_all add: xs_def identifier_ok_def)
  have "map (\<lambda>i. (xs @ ys) ! (3 - i)) [0..<4] = di_bytes d" for ys
    using d rev_by_index [of "rev (di_bytes d)" 4] le_imp_less_Suc [OF diff_le_self, of 3]
    by (simp add: xs_def identifier_ok_def nth_append)
  then have di: "\<lparr>di_bytes = map (\<lambda>i. (xs @ ys) ! (3 - i)) [0..<4]\<rparr> = d" for ys by simp
  show ?thesis
    using len f L xs(1)
    by (simp add: decode_response_def Let_def addr data ctrl di decode_data_offset xs(2) flip: xs_def)
qed

subsection \<open>BCD arithmetic\<close>

fun bcd_nat :: "bytes \<Rightarrow> nat" where
  "bcd_nat [] = 0"
| "bcd_nat (b # bs) = unat (b AND 0x0F) + 10 * unat (drop_bit 4 b) + 100 * bcd_nat bs"

lemma bcd_nat_bound: "bcd_nat bs + 2 \<le> 2 * 100 ^ length bs"
proof (induction bs)
  case (Cons b bs)
  have "unat (b AND 0x0F) \<le> 15" "unat (drop_bit 4 b) \<le> 15"
    using nibbles_small [of b] by (simp_all add: word_le_nat_alt)
  then show ?case using Cons by simp
qed simp

lemma drop_bit_4_and: "drop_bit 4 b AND 0x0F = drop_bit 4 (b :: u8)"
proof (rule bit_word_eqI)
  fix n assume "n < LENGTH(8)"
  show "bit (drop_bit 4 b AND 0x0F) n = bit (drop_bit 4 b) n"
    unfolding bit_and_iff bit_drop_bit_eq bit_0x0F o_def
    using bit_imp_le_length [of b "4 + n"] by auto
qed

lemma bcd_loop_nat: "bcd_loop bs acc m = acc + m * word_of_nat (bcd_nat bs)"
  by (induction bs arbitrary: acc m) (simp_all add: drop_bit_4_and algebra_simps Let_def)

lemma bcd_to_u32_mod: "unat (bcd_to_u32 bs) = bcd_nat bs mod 2 ^ 32"
  by (simp add: bcd_to_u32_def bcd_loop_nat unat_of_nat)

lemma bcd_nat_small: "length bs \<le> 4 \<Longrightarrow> bcd_nat bs < 2 ^ 32"
proof -
  assume "length bs \<le> 4"
  then have "(100 :: nat) ^ length bs \<le> 100 ^ 4" by (intro power_increasing) simp_all
  then show ?thesis using bcd_nat_bound [of bs] by simp
qed

subsection \<open>Properties\<close>

text \<open>
  C25: a well-formed response with at most 60 data bytes is decoded to exactly the address,
  the identifier and the data it carries.
\<close>

theorem response_roundtrip:
  assumes "address_ok a" and "identifier_ok d" and "length data \<le> 60"
  shows "\<exists>fr. decode_response (response_frame a d data) = Some (Inr fr) \<and> fr_meter_addr fr = a \<and>
    fr_data_id fr = d \<and> take (fr_data_len fr) (fr_data fr) = data"
  using decode_response_frame [OF assms(1,2), of data] assms(3) by simp

theorem response_roundtrip_witness:
  "\<exists>fr. decode_response (response_frame \<lparr>ma_bytes = [0x12, 0x34, 0x56, 0x78, 0x90, 0x12]\<rparr>
      \<lparr>di_bytes = [0, 1, 0, 0]\<rparr> [0x67, 0x45, 0x23, 0x01]) = Some (Inr fr) \<and>
    fr_meter_addr fr = \<lparr>ma_bytes = [0x12, 0x34, 0x56, 0x78, 0x90, 0x12]\<rparr> \<and>
    fr_data_id fr = \<lparr>di_bytes = [0, 1, 0, 0]\<rparr> \<and> take (fr_data_len fr) (fr_data fr) = [0x67, 0x45, 0x23, 0x01]"
  by (rule response_roundtrip) (simp_all add: address_ok_def identifier_ok_def)

text \<open>
  C26: a response that is well formed by its markers, length and checksum but carries more than
  60 data bytes leaves the 64-byte buffer: the decoder panics.
\<close>

theorem long_response_panics:
  assumes "address_ok a" and "identifier_ok d" and "60 < length data" and "length data \<le> 251"
  shows "decode_response (response_frame a d data) = None"
  using decode_response_frame [OF assms(1,2,4)] assms(3) by simp

theorem long_response_panics_witness:
  "decode_response (response_frame \<lparr>ma_bytes = replicate 6 0x99\<rparr> \<lparr>di_bytes = replicate 4 0\<rparr> (replicate 61 0)) = None"
  by (rule long_response_panics) (simp_all add: address_ok_def identifier_ok_def)

text \<open>
  C27: corruption of a single byte is always detected: if a frame decodes, then the frame with
  any one byte changed is rejected with an error.
\<close>

theorem single_byte_corruption_detected:
  assumes "decode_response f = Some (Inr fr)" and "i < length f" and "b \<noteq> f ! i"
  shows "\<exists>e. decode_response (f[i := b]) = Some (Inl e)"
proof -
  have "frame_intact f" using decode_response_not_intact [of f] assms(1) by auto
  then show ?thesis using frame_intact_corrupt decode_response_not_intact assms(2,3) by blast
qed

theorem single_byte_corruption_detected_witness:
  "\<exists>e. decode_response ((response_frame \<lparr>ma_bytes = replicate 6 0x99\<rparr> \<lparr>di_bytes = replicate 4 0\<rparr> [])[9 := 7]) =
     Some (Inl e)"
proof -
  let ?a = "\<lparr>ma_bytes = replicate 6 0x99\<rparr>" and ?d = "\<lparr>di_bytes = replicate 4 0\<rparr>"
  have ok: "address_ok ?a" "identifier_ok ?d" by (simp_all add: address_ok_def identifier_ok_def)
  have "9 < length (response_frame ?a ?d [])" "7 \<noteq> response_frame ?a ?d [] ! 9"
    using response_body_shape(1,5) [OF ok, of "[]"] by (simp_all add: response_frame_def nth_append)
  then show ?thesis
    using decode_response_frame [OF ok, of "[]"] by (intro single_byte_corruption_detected) simp_all
qed

text \<open>
  C28: the BCD reader is exact for the at most four bytes its callers pass, and takes the value
  modulo \<open>2 ^ 32\<close> in general, so that five bytes of valid digits already give a wrong number.
\<close>

theorem bcd_to_u32_value:
  "unat (bcd_to_u32 data) = bcd_nat data mod 2 ^ 32 \<and>
   unat (bcd_to_u32 (take 4 data)) = bcd_nat (take 4 data) \<and>
   bcd_nat [0, 0, 0, 0, 0x50] = 5000000000 \<and> unat (bcd_to_u32 [0, 0, 0, 0, 0x50]) = 705032704"
  using bcd_nat_small [of "take 4 data"] by (simp add: bcd_to_u32_mod)

text \<open>
  Addresses and identifiers survive their textual and wire forms: parsing what is displayed
  and decoding what is sent give back the same value.
\<close>

lemma dl645_text_roundtrip:
  assumes "address_ok a" and "identifier_ok d"
  shows "meter_address_parse (meter_address_display a) = Inr a \<and>
    meter_address_from_wire (meter_address_to_wire a) = Inr a \<and>
    data_identifier_from_hex_str (data_identifier_to_hex_string d) = Inr d"
  using assms length_hex_02X [of "ma_bytes a"] length_hex_02X [of "di_bytes d"]
  by (simp add: address_ok_def identifier_ok_def meter_address_parse_def meter_address_display_def
      hex_pairs_roundtrip to_wire_rev from_wire_rev data_identifier_from_hex_str_def
      data_identifier_to_hex_string_def flip: hex_02X_def)

end
