(* ===== verification/Can_Codec.thy ===== *)
theory Can_Codec
  imports F64_Arith
begin

section \<open>CAN frame decoder (aether-core/src/codec/can.rs)\<close>

text \<open>
  Extraction of a field from the data of a CAN frame and its interpretation as an integer, a
  float or text.  An \<open>i64\<close> is its 64-bit pattern; a conversion from a narrower signed type
  extends the sign.
\<close>

datatype can_data_type = UInt8 | UInt16 | Int16 | UInt32 | Int32 | Float32 | Ascii

fun can_bit_length :: "can_data_type \<Rightarrow> u8" where
  "can_bit_length UInt8 = 8"
| "can_bit_length UInt16 = 16"
| "can_bit_length Int16 = 16"
| "can_bit_length UInt32 = 32"
| "can_bit_length Int32 = 32"
| "can_bit_length Float32 = 32"
| "can_bit_length Ascii = 64"

datatype can_decode_error =
    OffsetOutOfRange | InvalidBitPosition | InsufficientData | UnsupportedBitLength

record extracted_field =
  ef_data :: bytes
  ef_len :: u8

definition field_new :: "bytes \<Rightarrow> extracted_field" where
  "field_new bs =
     (let len = min (length bs) 8
      in \<lparr>ef_data = take len bs @ replicate (8 - len) 0, ef_len = word_of_nat len\<rparr>)"

definition field_single :: "u8 \<Rightarrow> extracted_field" where
  "field_single b = \<lparr>ef_data = [b, 0, 0, 0, 0, 0, 0, 0], ef_len = 1\<rparr>"

definition field_as_slice :: "extracted_field \<Rightarrow> bytes" where
  "field_as_slice f = take (unat (ef_len f)) (ef_data f)"

definition field_is_empty :: "extracted_field \<Rightarrow> bool" where
  "field_is_empty f \<longleftrightarrow> ef_len f = 0"

definition extract_field :: "bytes \<Rightarrow> u8 \<Rightarrow> u8 \<Rightarrow> u8 \<Rightarrow> can_decode_error + extracted_field" where
  "extract_field data byte_offset bit_position bit_length =
     (let byte_offset = unat byte_offset in
      if byte_offset \<ge> length data then Inl OffsetOutOfRange
      else if bit_length = 2 then
        (if bit_position > 6 then Inl InvalidBitPosition
         else Inr (field_single (drop_bit (unat bit_position) (data ! byte_offset) AND 0x03)))
      else if bit_length = 8 then
        (if bit_position \<noteq> 0 then Inl InvalidBitPosition
         else Inr (field_single (data ! byte_offset)))
      else if bit_length = 16 then
        (if bit_position \<noteq> 0 then Inl InvalidBitPosition
         else if byte_offset + 2 > length data then Inl InsufficientData
         else Inr (field_new (take 2 (drop byte_offset data))))
      else if bit_length = 32 then
        (if bit_position \<noteq> 0 then Inl InvalidBitPosition
         else if byte_offset + 4 > length data then Inl InsufficientData
         else Inr (field_new (take 4 (drop byte_offset data))))
      else if bit_length = 64 then
        (if bit_position \<noteq> 0 then Inl InvalidBitPosition
         else if byte_offset + 8 > length data then Inl InsufficientData
         else Inr (field_new (take 8 (drop byte_offset data))))
      else Inl UnsupportedBitLength)"

datatype can_value = CanInteger u64 | CanFloat f64 | CanString bytes u8

definition can_f64_one :: f64 where
  "can_f64_one = 0x3FF0000000000000"

fun apply_transform :: "can_value \<Rightarrow> f64 \<Rightarrow> f64 \<Rightarrow> can_value" where
  "apply_transform (CanInteger i) scale offset =
     (if \<not> f64_eq scale can_f64_one \<or> \<not> f64_eq offset 0
      then CanFloat (f64_add (f64_mul (f64_of_int (sint i)) scale) offset)
      else CanInteger i)"
| "apply_transform other scale offset = other"

fun can_as_f64 :: "can_value \<Rightarrow> f64 option" where
  "can_as_f64 (CanInteger i) = Some (f64_of_int (sint i))"
| "can_as_f64 (CanFloat f) = Some f"
| "can_as_f64 (CanString _ _) = None"

text \<open>The loop over the bytes of a text field: it stops at the first NUL.\<close>

fun ascii_loop :: "bytes \<Rightarrow> bytes \<Rightarrow> u8 \<Rightarrow> bytes \<times> u8" where
  "ascii_loop [] buf len = (buf, len)"
| "ascii_loop (b # bs) buf len =
     (if b = 0 then (buf, len)
      else if len < 8 then ascii_loop bs (buf[unat len := b]) (len + 1)
      else ascii_loop bs buf len)"

definition decode_value :: "extracted_field \<Rightarrow> can_data_type \<Rightarrow> can_decode_error + can_value" where
  "decode_value field data_type =
     (let bytes = field_as_slice field in
      case data_type of
        UInt8 \<Rightarrow>
          if bytes = [] then Inl InsufficientData else Inr (CanInteger (ucast (bytes ! 0)))
      | UInt16 \<Rightarrow>
          if length bytes < 2 then Inl InsufficientData
          else Inr (CanInteger (ucast (from_le_bytes [bytes ! 0, bytes ! 1] :: u16)))
      | Int16 \<Rightarrow>
          if length bytes < 2 then Inl InsufficientData
          else Inr (CanInteger (scast (from_le_bytes [bytes ! 0, bytes ! 1] :: u16)))
      | UInt32 \<Rightarrow>
          if length bytes < 4 then Inl InsufficientData
          else Inr (CanInteger (ucast (from_le_bytes [bytes ! 0, bytes ! 1, bytes ! 2, bytes ! 3] :: u32)))
      | Int32 \<Rightarrow>
          if length bytes < 4 then Inl InsufficientData
          else Inr (CanInteger (scast (from_le_bytes [bytes ! 0, bytes ! 1, bytes ! 2, bytes ! 3] :: u32)))
      | Float32 \<Rightarrow>
          if length bytes < 4 then Inl InsufficientData
          else Inr (CanFloat (f32_as_f64 (from_le_bytes [bytes ! 0, bytes ! 1, bytes ! 2, bytes ! 3])))
      | Ascii \<Rightarrow>
          let (buf, len) = ascii_loop bytes (replicate 8 0) 0 in Inr (CanString buf len))"

subsection \<open>Fields\<close>

definition field_ok :: "extracted_field \<Rightarrow> bool" where
  "field_ok f \<longleftrightarrow> length (ef_data f) = 8 \<and> unat (ef_len f) \<le> 8"

lemma field_new_slice: "field_as_slice (field_new bs) = take 8 bs"
proof -
  have "unat (word_of_nat (min (length bs) 8) :: u8) = min (length bs) 8"
    by (simp add: unat_of_nat)
  then show ?thesis by (cases "length bs \<le> 8") (simp_all add: field_as_slice_def field_new_def Let_def)
qed

lemma field_single_slice [simp]: "field_as_slice (field_single b) = [b]"
  by (simp add: field_as_slice_def field_single_def)

lemma length4_nth: "length bs = 4 \<Longrightarrow> [bs ! 0, bs ! 1, bs ! 2, bs ! 3] = bs"
  by (rule nth_equalityI) (auto simp: less_Suc_eq numeral_eq_Suc)

lemma length2_nth: "length bs = 2 \<Longrightarrow> [bs ! 0, bs ! 1] = bs"
  by (rule nth_equalityI) (auto simp: less_Suc_eq numeral_eq_Suc)

text \<open>The encodings a sender uses for the scalar types.\<close>

lemma to_from_u16: "from_le_bytes (to_le_bytes w) = (w :: u16)"
  by (rule from_to_le_bytes_dvd) simp

lemma length_to_le_u16: "length (to_le_bytes (w :: u16)) = 2"
  by (simp add: length_to_le_bytes)

lemma extract_scalar:
  assumes "data = pre @ bs @ post" and "unat off = length pre" and "length bs = n" and "n = 2 \<or> n = 4 \<or> n = 8"
  shows "extract_field data off 0 (word_of_nat (8 * n)) = Inr (field_new bs)"
proof -
  have "unat off < length data" "unat off + n \<le> length data" using assms by auto
  moreover have "take n (drop (unat off) data) = bs" using assms by simp
  ultimately show ?thesis using assms(4) by (elim disjE) (simp_all add: extract_field_def Let_def)
qed

subsection \<open>Text\<close>

lemma ascii_loop_spec:
  assumes "length buf = 8" and "unat len + length bs \<le> 8"
  shows "ascii_loop bs buf len =
    (let t = takeWhile (\<lambda>b. b \<noteq> 0) bs
     in (take (unat len) buf @ t @ drop (unat len + length t) buf, len + word_of_nat (length t)))"
  using assms
proof (induction bs arbitrary: buf len)
  case (Cons b bs)
  let ?k = "unat len"
  have k: "?k < 8" "unat (len + 1) = ?k + 1" "len < 8"
    using Cons.prems by (auto simp: unat_word_ariths word_less_nat_alt)
  have "take (?k + 1) (buf[?k := b]) = take ?k buf @ [b]"
    using k Cons.prems(1) by (simp add: take_Suc_conv_app_nth)
  then show ?case
    using Cons.IH [of "buf[?k := b]" "len + 1"] Cons.prems k by (simp add: Let_def ac_simps)
qed (simp add: Let_def)

lemma decode_ascii:
  assumes "field_ok f"
  shows "decode_value f Ascii =
    (let t = takeWhile (\<lambda>b. b \<noteq> 0) (field_as_slice f)
     in Inr (CanString (t @ replicate (8 - length t) 0) (word_of_nat (length t))))"
proof -
  have "length (field_as_slice f) \<le> 8" using assms by (simp add: field_ok_def field_as_slice_def)
  then show ?thesis
    using ascii_loop_spec [of "replicate 8 0" 0 "field_as_slice f"] by (simp add: decode_value_def Let_def)
qed

lemma field_new_ok: "field_ok (field_new bs)"
  by (cases "length bs \<le> 8") (simp_all add: field_ok_def field_new_def Let_def unat_of_nat)

lemma field_single_ok: "field_ok (field_single b)"
  by (simp add: field_ok_def field_single_def)

lemma extract_field_ok: "extract_field data off pos len = Inr f \<Longrightarrow> field_ok f"
  by (auto simp: extract_field_def Let_def field_new_ok field_single_ok split: if_splits)

text \<open>Extraction with the bit length of a type, then decoding as that type.\<close>

definition can_read :: "bytes \<Rightarrow> u8 \<Rightarrow> can_data_type \<Rightarrow> can_decode_error + can_value" where
  "can_read data off t = rbind (extract_field data off 0 (can_bit_length t)) (\<lambda>f. decode_value f t)"

lemma can_read_u16:
  assumes "unat off = length pre"
  shows "can_read (pre @ to_le_bytes (v :: u16) @ post) off UInt16 = Inr (CanInteger (ucast v))"
    and "can_read (pre @ to_le_bytes (v :: u16) @ post) off Int16 = Inr (CanInteger (scast v))"
  using extract_scalar [OF refl assms length_to_le_u16, of v post]
    length2_nth [of "to_le_bytes v"] length_to_le_u16 [of v]
  by (simp_all add: can_read_def decode_value_def field_new_slice to_from_u16)

lemma can_read_u32:
  assumes "unat off = length pre"
  shows "can_read (pre @ to_le_bytes (v :: u32) @ post) off UInt32 = Inr (CanInteger (ucast v))"
    and "can_read (pre @ to_le_bytes (v :: u32) @ post) off Int32 = Inr (CanInteger (scast v))"
    and "can_read (pre @ to_le_bytes (v :: u32) @ post) off Float32 = Inr (CanFloat (f32_as_f64 v))"
  using extract_scalar [OF refl assms length_to_le_bytes_u32, of v post]
    length4_nth [of "to_le_bytes v"]
  by (simp_all add: can_read_def decode_value_def field_new_slice)

lemma sint_scast_u16: "sint (scast (v :: u16) :: u64) = sint v"
  by (simp add: sint_up_scast is_up)

lemma sint_scast_u32: "sint (scast (v :: u32) :: u64) = sint v"
  by (simp add: sint_up_scast is_up)

lemma sint_ucast_u32: "sint (ucast (v :: u32) :: u64) = uint v"
  by transfer (simp add: signed_take_bit_take_bit)

lemma sint_ucast_u16: "sint (ucast (v :: u16) :: u64) = uint v"
  by transfer (simp add: signed_take_bit_take_bit)

lemma extract_field_Inr_iff:
  "(\<exists>f. extract_field data off pos len = Inr f) \<longleftrightarrow>
     unat off < length data \<and>
     (len = 2 \<and> pos \<le> 6 \<or>
      len \<in> {8, 16, 32, 64} \<and> pos = 0 \<and> unat off + unat len div 8 \<le> length data)"
  by (auto simp: extract_field_def Let_def not_less not_le)

lemma decode_extracted:
  assumes "extract_field data off 0 (can_bit_length t) = Inr f"
  shows "\<exists>v. decode_value f t = Inr v"
proof (cases t)
  case Ascii
  then show ?thesis using decode_ascii [OF extract_field_ok [OF assms]] by (simp add: Let_def)
qed (use assms in \<open>auto simp: extract_field_def decode_value_def Let_def field_new_slice split: if_splits\<close>)

subsection \<open>Properties\<close>

text \<open>
  C29: a number placed little-endian at any byte offset of a frame is read back: extraction
  with the type's own bit length and decoding give the same integer, negative ones included,
  and the same binary32 pattern widened.
\<close>

theorem can_numbers_roundtrip:
  assumes "unat off = length pre"
  shows "\<exists>i16 u16 i32 u32.
    can_read (pre @ to_le_bytes (v :: u16) @ post) off Int16 = Inr (CanInteger i16) \<and> sint i16 = sint v \<and>
    can_read (pre @ to_le_bytes v @ post) off UInt16 = Inr (CanInteger u16) \<and> sint u16 = uint v \<and>
    can_read (pre @ to_le_bytes (w :: u32) @ post) off Int32 = Inr (CanInteger i32) \<and> sint i32 = sint w \<and>
    can_read (pre @ to_le_bytes w @ post) off UInt32 = Inr (CanInteger u32) \<and> sint u32 = uint w \<and>
    can_read (pre @ to_le_bytes w @ post) off Float32 = Inr (CanFloat (f32_as_f64 w))"
  using can_read_u16 [OF assms, of v post] can_read_u32 [OF assms, of w post]
    sint_scast_u16 [of v] sint_ucast_u16 [of v] sint_scast_u32 [of w] sint_ucast_u32 [of w]
  by simp

theorem can_numbers_roundtrip_witness:
  "\<exists>i. can_read ([7] @ to_le_bytes (0xFF9C :: u16) @ []) 1 Int16 = Inr (CanInteger i) \<and> sint i = - 100"
  using can_numbers_roundtrip [of 1 "[7]" "0xFF9C" "[]"] by auto

text \<open>
  Extraction succeeds exactly for a 2-bit field inside one byte and for byte-aligned 8, 16,
  32 and 64-bit fields that lie inside the frame, and a field extracted with the bit length of
  a type always decodes as that type.
\<close>

lemma can_field_errors:
  "((\<exists>f. extract_field data off pos len = Inr f) \<longleftrightarrow>
      unat off < length data \<and>
      (len = 2 \<and> pos \<le> 6 \<or>
       len \<in> {8, 16, 32, 64} \<and> pos = 0 \<and> unat off + unat len div 8 \<le> length data)) \<and>
   ((\<exists>v. can_read data off t = Inr v) \<longleftrightarrow> unat off + unat (can_bit_length t) div 8 \<le> length data)"
proof -
  have "(\<exists>v. can_read data off t = Inr v) \<longleftrightarrow> (\<exists>f. extract_field data off 0 (can_bit_length t) = Inr f)"
    using decode_extracted unfolding can_read_def by (auto simp: rbind_Inr_iff)
  then show ?thesis
    unfolding extract_field_Inr_iff by (cases t) auto
qed

end
