(* ===== verification/Register_Codec.thy ===== *)
theory Register_Codec
  imports Core_Types
begin

section \<open>Register codec and transforms (services/io/src/protocols)\<close>

text \<open>
  \<open>codec/byte_order.rs\<close>: values in 16-bit registers under four byte orders; \<open>core/data.rs\<close>: the
  protocol-independent value; \<open>core/point.rs\<close>: data formats, byte orders, the linear transform
  and the textual CAN and DL/T 645 addresses.  Of a \<open>GatewayError\<close> the model keeps the variant;
  the message is text for logs.  An \<open>i64\<close> is its 64-bit pattern.
\<close>

datatype gateway_error = InvalidDataError | ConfigError | DataConversion

datatype gateway_value =
    GFloat f64 | GInteger u64 | GBool bool | GString rust_string | GBytes bytes | GNull

fun gv_as_f64 :: "gateway_value \<Rightarrow> f64 option" where
  "gv_as_f64 (GFloat v) = Some v"
| "gv_as_f64 (GInteger v) = Some (f64_of_int (sint v))"
| "gv_as_f64 (GBool v) = Some (if v then F64_ONE else 0)"
| "gv_as_f64 _ = None"

fun gv_as_i64 :: "gateway_value \<Rightarrow> u64 option" where
  "gv_as_i64 (GInteger v) = Some v"
| "gv_as_i64 (GFloat v) = Some (f64_as_i64 v)"
| "gv_as_i64 (GBool v) = Some (if v then 1 else 0)"
| "gv_as_i64 _ = None"

fun gv_as_bool :: "gateway_value \<Rightarrow> bool option" where
  "gv_as_bool (GBool v) = Some v"
| "gv_as_bool (GInteger v) = Some (v \<noteq> 0)"
| "gv_as_bool (GFloat v) = Some (\<not> f64_eq v 0)"
| "gv_as_bool _ = None"

fun gv_as_string :: "gateway_value \<Rightarrow> rust_string option" where
  "gv_as_string (GString s) = Some s"
| "gv_as_string _ = None"

definition gv_is_null :: "gateway_value \<Rightarrow> bool" where
  "gv_is_null v \<longleftrightarrow> v = GNull"

datatype data_format =
    FmtBool | FmtUInt16 | FmtInt16 | FmtUInt32 | FmtInt32 | FmtUInt64 | FmtInt64 | FmtFloat32
  | FmtFloat64 | FmtString

fun register_count :: "data_format \<Rightarrow> u16" where
  "register_count FmtBool = 1"
| "register_count FmtUInt16 = 1"
| "register_count FmtInt16 = 1"
| "register_count FmtUInt32 = 2"
| "register_count FmtInt32 = 2"
| "register_count FmtFloat32 = 2"
| "register_count FmtUInt64 = 4"
| "register_count FmtInt64 = 4"
| "register_count FmtFloat64 = 4"
| "register_count FmtString = 8"

datatype byte_order = Abcd | Dcba | Badc | Cdab

subsection \<open>Byte orders\<close>

definition reg_hi :: "u16 \<Rightarrow> u8" where
  "reg_hi r = ucast (drop_bit 8 r)"

definition reg_lo :: "u16 \<Rightarrow> u8" where
  "reg_lo r = ucast (r AND 0xFF)"

definition reg_join :: "u8 \<Rightarrow> u8 \<Rightarrow> u16" where
  "reg_join hi lo = push_bit 8 (ucast hi) OR ucast lo"

definition reorder_bytes_32 :: "u16 \<Rightarrow> u16 \<Rightarrow> byte_order \<Rightarrow> bytes" where
  "reorder_bytes_32 r0 r1 order =
     (let a = reg_hi r0; b = reg_lo r0; c = reg_hi r1; d = reg_lo r1 in
      case order of
        Abcd \<Rightarrow> [a, b, c, d]
      | Dcba \<Rightarrow> [d, c, b, a]
      | Badc \<Rightarrow> [b, a, d, c]
      | Cdab \<Rightarrow> [c, d, a, b])"

definition order_bytes_64 :: "bytes \<Rightarrow> byte_order \<Rightarrow> bytes" where
  "order_bytes_64 b order =
     (case order of
        Abcd \<Rightarrow> b
      | Dcba \<Rightarrow> rev b
      | Badc \<Rightarrow> [b ! 1, b ! 0, b ! 3, b ! 2, b ! 5, b ! 4, b ! 7, b ! 6]
      | Cdab \<Rightarrow> [b ! 2, b ! 3, b ! 0, b ! 1, b ! 6, b ! 7, b ! 4, b ! 5])"

definition reorder_bytes_64 :: "u16 list \<Rightarrow> byte_order \<Rightarrow> bytes" where
  "reorder_bytes_64 regs order =
     (let filled = concat (map (\<lambda>r. [reg_hi r, reg_lo r]) (take 4 regs));
          bytes = filled @ replicate (8 - length filled) 0
      in order_bytes_64 bytes order)"

definition reorder_to_registers_32 :: "bytes \<Rightarrow> byte_order \<Rightarrow> u16 \<times> u16" where
  "reorder_to_registers_32 bytes order =
     (let a = bytes ! 0; b = bytes ! 1; c = bytes ! 2; d = bytes ! 3;
          (b0, b1, b2, b3) =
            (case order of
               Abcd \<Rightarrow> (a, b, c, d)
             | Dcba \<Rightarrow> (d, c, b, a)
             | Badc \<Rightarrow> (b, a, d, c)
             | Cdab \<Rightarrow> (c, d, a, b))
      in (reg_join b0 b1, reg_join b2 b3))"

definition reorder_to_registers_64 :: "bytes \<Rightarrow> byte_order \<Rightarrow> u16 list" where
  "reorder_to_registers_64 bytes order =
     (let o' = order_bytes_64 bytes order
      in [reg_join (o' ! 0) (o' ! 1), reg_join (o' ! 2) (o' ! 3),
          reg_join (o' ! 4) (o' ! 5), reg_join (o' ! 6) (o' ! 7)])"

definition to_be_bytes :: "'a::len word \<Rightarrow> bytes" where
  "to_be_bytes w = rev (to_le_bytes w)"

definition from_be_bytes :: "bytes \<Rightarrow> 'a::len word" where
  "from_be_bytes bs = from_le_bytes (rev bs)"

subsection \<open>Decoding\<close>

text \<open>\<open>push\<close> of a character below U+0100 appends its UTF-8 encoding.\<close>

definition push_char :: "u8 \<Rightarrow> rust_string" where
  "push_char c = (if c < 0x80 then [c] else [0xC0 OR drop_bit 6 c, 0x80 OR (c AND 0x3F)])"

definition decode_string :: "u16 list \<Rightarrow> rust_string" where
  "decode_string regs =
     concat (map (\<lambda>r. (if reg_hi r \<noteq> 0 then push_char (reg_hi r) else []) @
       (if reg_lo r \<noteq> 0 then push_char (reg_lo r) else [])) regs)"

fun pop_trailing_nul :: "rust_string \<Rightarrow> rust_string" where
  "pop_trailing_nul s = (if s \<noteq> [] \<and> last s = 0 then pop_trailing_nul (butlast s) else s)"

declare pop_trailing_nul.simps [simp del]

definition f32_is_finite :: "u32 \<Rightarrow> bool" where
  "f32_is_finite b \<longleftrightarrow> b AND 0x7F800000 \<noteq> 0x7F800000"

definition decode_registers ::
    "u16 list \<Rightarrow> data_format \<Rightarrow> byte_order \<Rightarrow> u8 option \<Rightarrow> gateway_error + gateway_value" where
  "decode_registers registers format order bit_position =
     (case format of
        FmtBool \<Rightarrow>
          if registers = [] then Inl InvalidDataError
          else
            let bit = (case bit_position of None \<Rightarrow> 0 | Some b \<Rightarrow> b) in
            if bit > 15 then Inl InvalidDataError
            else Inr (GBool (drop_bit (unat bit) (registers ! 0) AND 1 = 1))
      | FmtUInt16 \<Rightarrow>
          if registers = [] then Inl InvalidDataError else Inr (GInteger (ucast (registers ! 0)))
      | FmtInt16 \<Rightarrow>
          if registers = [] then Inl InvalidDataError else Inr (GInteger (scast (registers ! 0)))
      | FmtUInt32 \<Rightarrow>
          if length registers < 2 then Inl InvalidDataError
          else Inr (GInteger (ucast
            (from_be_bytes (reorder_bytes_32 (registers ! 0) (registers ! 1) order) :: u32)))
      | FmtInt32 \<Rightarrow>
          if length registers < 2 then Inl InvalidDataError
          else Inr (GInteger (scast
            (from_be_bytes (reorder_bytes_32 (registers ! 0) (registers ! 1) order) :: u32)))
      | FmtFloat32 \<Rightarrow>
          if length registers < 2 then Inl InvalidDataError
          else
            let v = from_be_bytes (reorder_bytes_32 (registers ! 0) (registers ! 1) order) in
            if \<not> f32_is_finite v then Inl InvalidDataError else Inr (GFloat (f32_as_f64 v))
      | FmtUInt64 \<Rightarrow>
          if length registers < 4 then Inl InvalidDataError
          else Inr (GInteger (from_be_bytes (reorder_bytes_64 (take 4 registers) order)))
      | FmtInt64 \<Rightarrow>
          if length registers < 4 then Inl InvalidDataError
          else Inr (GInteger (from_be_bytes (reorder_bytes_64 (take 4 registers) order)))
      | FmtFloat64 \<Rightarrow>
          if length registers < 4 then Inl InvalidDataError
          else
            let v = from_be_bytes (reorder_bytes_64 (take 4 registers) order) in
            if \<not> f64_is_finite v then Inl InvalidDataError else Inr (GFloat v)
      | FmtString \<Rightarrow> Inr (GString (pop_trailing_nul (decode_string registers))))"

subsection \<open>Encoding\<close>

definition int_in_range :: "gateway_value \<Rightarrow> int \<Rightarrow> int \<Rightarrow> gateway_error + u64" where
  "int_in_range v lo hi =
     rbind (ok_or (gv_as_i64 v) InvalidDataError) (\<lambda>i.
       if sint i < lo \<or> sint i > hi then Inl InvalidDataError else Inr i)"

definition finite_float :: "gateway_value \<Rightarrow> gateway_error + f64" where
  "finite_float v =
     rbind (ok_or (gv_as_f64 v) InvalidDataError) (\<lambda>f.
       if \<not> f64_is_finite f then Inl InvalidDataError else Inr f)"

definition registers_32 :: "u32 \<Rightarrow> byte_order \<Rightarrow> u16 list" where
  "registers_32 w order = (let (r0, r1) = reorder_to_registers_32 (to_be_bytes w) order in [r0, r1])"

fun encode_chunks :: "bytes \<Rightarrow> u16 list" where
  "encode_chunks [] = []"
| "encode_chunks [hi] = [reg_join hi 0]"
| "encode_chunks (hi # lo # rest) = reg_join hi lo # encode_chunks rest"

definition encode_registers ::
    "gateway_value \<Rightarrow> data_format \<Rightarrow> byte_order \<Rightarrow> gateway_error + u16 list" where
  "encode_registers v format order =
     (case format of
        FmtBool \<Rightarrow> rbind (ok_or (gv_as_bool v) InvalidDataError) (\<lambda>b. Inr [if b then 1 else 0])
      | FmtUInt16 \<Rightarrow> rbind (int_in_range v 0 65535) (\<lambda>i. Inr [ucast i])
      | FmtInt16 \<Rightarrow> rbind (int_in_range v (- 32768) 32767) (\<lambda>i. Inr [ucast i])
      | FmtUInt32 \<Rightarrow> rbind (int_in_range v 0 4294967295) (\<lambda>i. Inr (registers_32 (ucast i) order))
      | FmtInt32 \<Rightarrow>
          rbind (int_in_range v (- 2147483648) 2147483647) (\<lambda>i. Inr (registers_32 (ucast i) order))
      | FmtFloat32 \<Rightarrow> rbind (finite_float v) (\<lambda>f. Inr (registers_32 (f64_as_f32 f) order))
      | FmtUInt64 \<Rightarrow>
          rbind (ok_or (gv_as_i64 v) InvalidDataError) (\<lambda>i. Inr (reorder_to_registers_64 (to_be_bytes i) order))
      | FmtInt64 \<Rightarrow>
          rbind (ok_or (gv_as_i64 v) InvalidDataError) (\<lambda>i. Inr (reorder_to_registers_64 (to_be_bytes i) order))
      | FmtFloat64 \<Rightarrow> rbind (finite_float v) (\<lambda>f. Inr (reorder_to_registers_64 (to_be_bytes f) order))
      | FmtString \<Rightarrow> rbind (ok_or (gv_as_string v) InvalidDataError) (\<lambda>s. Inr (encode_chunks s)))"

subsection \<open>Transforms and point configurations\<close>

record transform_config =
  tc_scale :: f64
  tc_offset :: f64
  tc_reverse :: bool
  tc_deadband :: "f64 option"
  tc_min_value :: "f64 option"
  tc_max_value :: "f64 option"

text \<open>The derived \<open>Default\<close>: the default of every field type, not the serde defaults.\<close>

definition transform_default :: transform_config where
  "transform_default =
     \<lparr>tc_scale = 0, tc_offset = 0, tc_reverse = False, tc_deadband = None, tc_min_value = None,
      tc_max_value = None\<rparr>"

definition transform_linear :: "f64 \<Rightarrow> f64 \<Rightarrow> transform_config" where
  "transform_linear scale offset = transform_default\<lparr>tc_scale := scale, tc_offset := offset\<rparr>"

definition transform_apply :: "transform_config \<Rightarrow> f64 \<Rightarrow> f64" where
  "transform_apply t raw = f64_add (f64_mul raw (tc_scale t)) (tc_offset t)"

definition transform_reverse_apply :: "transform_config \<Rightarrow> f64 \<Rightarrow> gateway_error + f64" where
  "transform_reverse_apply t v =
     (if f64_eq (tc_scale t) 0 then Inl DataConversion
      else Inr (f64_div (f64_sub v (tc_offset t)) (tc_scale t)))"

definition transform_apply_bool :: "transform_config \<Rightarrow> bool \<Rightarrow> bool" where
  "transform_apply_bool t raw = (if tc_reverse t then \<not> raw else raw)"

record modbus_address =
  mb_slave_id :: u8
  mb_function_code :: u8
  mb_register :: u16
  mb_format :: data_format
  mb_byte_order :: byte_order
  mb_bit_position :: "u8 option"

definition modbus_holding_register :: "u8 \<Rightarrow> u16 \<Rightarrow> data_format \<Rightarrow> modbus_address" where
  "modbus_holding_register slave_id register format =
     \<lparr>mb_slave_id = slave_id, mb_function_code = 3, mb_register = register, mb_format = format,
      mb_byte_order = Abcd, mb_bit_position = None\<rparr>"

definition modbus_coil :: "u8 \<Rightarrow> u16 \<Rightarrow> modbus_address" where
  "modbus_coil slave_id register =
     \<lparr>mb_slave_id = slave_id, mb_function_code = 1, mb_register = register, mb_format = FmtBool,
      mb_byte_order = Abcd, mb_bit_position = None\<rparr>"

definition modbus_register_count :: "modbus_address \<Rightarrow> u16" where
  "modbus_register_count a = register_count (mb_format a)"

record 'address point_config =
  pc_id :: u32
  pc_point_type :: point_type
  pc_name :: "rust_string option"
  pc_address :: 'address
  pc_transform :: transform_config
  pc_poll_group :: "rust_string option"
  pc_enabled :: bool

definition point_config_new :: "u32 \<Rightarrow> point_type \<Rightarrow> 'address \<Rightarrow> 'address point_config" where
  "point_config_new i t a =
     \<lparr>pc_id = i, pc_point_type = t, pc_name = None, pc_address = a, pc_transform = transform_default,
      pc_poll_group = None, pc_enabled = True\<rparr>"

definition point_config_with_transform ::
    "transform_config \<Rightarrow> 'address point_config \<Rightarrow> 'address point_config" where
  "point_config_with_transform t c = c\<lparr>pc_transform := t\<rparr>"

subsection \<open>Bytes and registers\<close>

lemma bit_0xFF_u16: "bit (0xFF :: u16) n \<longleftrightarrow> n < 8"
proof -
  have "(0xFF :: u16) = mask 8" by (simp add: mask_eq_exp_minus_1)
  then show ?thesis by (simp only: bit_mask_iff) auto
qed

lemma reg_hi_join [simp]: "reg_hi (reg_join h l) = h"
proof (rule bit_word_eqI)
  fix n assume "n < LENGTH(8)"
  then show "bit (reg_hi (reg_join h l)) n = bit h n"
    unfolding reg_hi_def reg_join_def bit_ucast_iff bit_drop_bit_eq o_def bit_or_iff bit_push_bit_iff
    using bit_imp_le_length [of l "8 + n"] by auto
qed

lemma reg_lo_join [simp]: "reg_lo (reg_join h l) = l"
proof (rule bit_word_eqI)
  fix n assume "n < LENGTH(8)"
  then show "bit (reg_lo (reg_join h l)) n = bit l n"
    unfolding reg_lo_def reg_join_def bit_ucast_iff bit_and_iff bit_or_iff bit_push_bit_iff bit_0xFF_u16
    by auto
qed

lemma bytes4: "length bs = 4 \<Longrightarrow> [bs ! 0, bs ! 1, bs ! 2, bs ! 3] = bs"
  by (rule nth_equalityI) (auto simp: less_Suc_eq numeral_eq_Suc)

lemma bytes8: "length bs = 8 \<Longrightarrow> [bs ! 0, bs ! 1, bs ! 2, bs ! 3, bs ! 4, bs ! 5, bs ! 6, bs ! 7] = bs"
  by (rule nth_equalityI) (auto simp: less_Suc_eq numeral_eq_Suc)

lemma order_bytes_64_involution:
  assumes "length bs = 8"
  shows "order_bytes_64 (order_bytes_64 bs order) order = bs" "length (order_bytes_64 bs order) = 8"
  using bytes8 [OF assms] assms by (cases order; simp add: order_bytes_64_def)+

lemma registers_32_bytes:
  assumes "length bs = 4"
  shows "(case reorder_to_registers_32 bs order of (r0, r1) \<Rightarrow> reorder_bytes_32 r0 r1 order) = bs"
  using bytes4 [OF assms]
  by (cases order) (simp_all add: reorder_to_registers_32_def reorder_bytes_32_def Let_def)

lemma registers_64_bytes:
  assumes "length bs = 8"
  shows "reorder_bytes_64 (reorder_to_registers_64 bs order) order = bs"
    and "length (reorder_to_registers_64 bs order) = 4"
  using order_bytes_64_involution [OF assms, of order] bytes8 [of "order_bytes_64 bs order"]
  by (simp_all add: reorder_to_registers_64_def reorder_bytes_64_def Let_def)

lemma length_to_be_bytes [simp]: "length (to_be_bytes (w :: u32)) = 4" "length (to_be_bytes (v :: u64)) = 8"
  by (simp_all add: to_be_bytes_def)

lemma from_to_be_bytes [simp]: "from_be_bytes (to_be_bytes w) = (w :: u32)" "from_be_bytes (to_be_bytes v) = (v :: u64)"
  by (simp_all add: to_be_bytes_def from_be_bytes_def)

lemma decode_registers_32:
  "length (registers_32 w order) = 2"
  "from_be_bytes (reorder_bytes_32 (registers_32 w order ! 0) (registers_32 w order ! Suc 0) order) = (w :: u32)"
  using registers_32_bytes [of "to_be_bytes w" order]
  by (simp_all add: registers_32_def split: prod.split prod.split_asm)

lemma decode_registers_64:
  "from_be_bytes (reorder_bytes_64 (take 4 (reorder_to_registers_64 (to_be_bytes v) order)) order) = (v :: u64)"
  using registers_64_bytes [of "to_be_bytes v" order] by simp

subsection \<open>Narrow integers\<close>

lemma ucast_word_of_int:
  "(ucast (word_of_int k :: u64) :: u16) = word_of_int k" "(ucast (word_of_int k :: u64) :: u32) = word_of_int k"
  by (transfer, simp)+

lemma narrow_signed:
  "- 32768 \<le> sint (v :: u64) \<Longrightarrow> sint v \<le> 32767 \<Longrightarrow> scast (ucast v :: u16) = v"
  "- 2147483648 \<le> sint (v :: u64) \<Longrightarrow> sint v \<le> 2147483647 \<Longrightarrow> scast (ucast v :: u32) = v"
proof -
  define k where "k = sint v"
  have v: "v = word_of_int k" by (simp add: k_def)
  have s16: "(scast (word_of_int k :: u16) :: u64) = word_of_int k" if "- 32768 \<le> k" "k \<le> 32767"
    using that by (simp add: signed_of_int signed_take_bit_int_eq_self)
  have s32: "(scast (word_of_int k :: u32) :: u64) = word_of_int k" if "- 2147483648 \<le> k" "k \<le> 2147483647"
    using that by (simp add: signed_of_int signed_take_bit_int_eq_self)
  show "scast (ucast v :: u16) = v" if "- 32768 \<le> sint v" "sint v \<le> 32767"
    using s16 [unfolded k_def, OF that] by (simp flip: k_def v add: ucast_word_of_int [of k, folded v])
  show "scast (ucast v :: u32) = v" if "- 2147483648 \<le> sint v" "sint v \<le> 2147483647"
    using s32 [unfolded k_def, OF that] by (simp flip: k_def v add: ucast_word_of_int [of k, folded v])
qed

lemma narrow_unsigned:
  "0 \<le> sint (v :: u64) \<Longrightarrow> sint v \<le> 65535 \<Longrightarrow> ucast (ucast v :: u16) = v"
  "0 \<le> sint (v :: u64) \<Longrightarrow> sint v \<le> 4294967295 \<Longrightarrow> ucast (ucast v :: u32) = v"
proof -
  define k where "k = sint v"
  have v: "v = word_of_int k" by (simp add: k_def)
  have s16: "(ucast (word_of_int k :: u16) :: u64) = word_of_int k" if "0 \<le> k" "k \<le> 65535"
    using that by (simp add: unsigned_of_int take_bit_int_eq_self)
  have s32: "(ucast (word_of_int k :: u32) :: u64) = word_of_int k" if "0 \<le> k" "k \<le> 4294967295"
    using that by (simp add: unsigned_of_int take_bit_int_eq_self)
  show "ucast (ucast v :: u16) = v" if "0 \<le> sint v" "sint v \<le> 65535"
    using s16 [unfolded k_def, OF that] by (simp flip: k_def v add: ucast_word_of_int [of k, folded v])
  show "ucast (ucast v :: u32) = v" if "0 \<le> sint v" "sint v \<le> 4294967295"
    using s32 [unfolded k_def, OF that] by (simp flip: k_def v add: ucast_word_of_int [of k, folded v])
qed

subsection \<open>Text\<close>

definition plain_text :: "rust_string \<Rightarrow> bool" where
  "plain_text s \<longleftrightarrow> list_all (\<lambda>c. c \<noteq> 0 \<and> c < 0x80) s"

lemma decode_chunks: "plain_text s \<Longrightarrow> decode_string (encode_chunks s) = s"
  by (induction s rule: encode_chunks.induct) (auto simp: decode_string_def push_char_def plain_text_def)

lemma pop_trailing_plain: "plain_text s \<Longrightarrow> pop_trailing_nul s = s"
  by (subst pop_trailing_nul.simps) (auto simp: plain_text_def list_all_iff dest: last_in_set)

text \<open>The values a format represents without loss.\<close>

fun exact_for :: "data_format \<Rightarrow> gateway_value \<Rightarrow> bool" where
  "exact_for FmtBool v \<longleftrightarrow> (\<exists>b. v = GBool b)"
| "exact_for FmtFloat64 v \<longleftrightarrow> (\<exists>f. v = GFloat f)"
| "exact_for FmtString v \<longleftrightarrow> (\<exists>s. v = GString s \<and> plain_text s)"
| "exact_for FmtFloat32 v \<longleftrightarrow> False"
| "exact_for _ v \<longleftrightarrow> (\<exists>i. v = GInteger i)"

lemma int_in_range_Inr:
  "int_in_range (GInteger i) lo hi = Inr j \<longleftrightarrow> j = i \<and> lo \<le> sint i \<and> sint i \<le> hi"
  by (auto simp: int_in_range_def)

lemma encode_decode_exact:
  assumes "encode_registers v fmt order = Inr regs" and "exact_for fmt v"
  shows "decode_registers regs fmt order None = Inr v"
proof (cases fmt)
  case FmtString
  with assms show ?thesis
    by (auto simp: encode_registers_def decode_registers_def decode_chunks pop_trailing_plain)
next
  case FmtFloat64
  with assms show ?thesis
    by (auto simp: encode_registers_def decode_registers_def finite_float_def decode_registers_64
        registers_64_bytes split: if_splits)
next
  case FmtBool
  with assms show ?thesis
    by (auto simp: encode_registers_def decode_registers_def split: if_splits)
qed (use assms in \<open>auto simp: encode_registers_def decode_registers_def int_in_range_Inr
      narrow_signed narrow_unsigned decode_registers_32 decode_registers_64 registers_64_bytes\<close>)

lemma f64_mul_zero:
  assumes "f64_is_finite raw"
  shows "f64_is_zero (f64_mul raw 0)" "f64_is_nan (f64_mul raw 0) = False" "f64_is_infinite (f64_mul raw 0) = False"
proof -
  have z: "f64_is_finite (with_sign b 0)" "f64_is_zero (with_sign b 0)" for b
    by (simp_all add: with_sign_def f64_class_defs f64_is_zero_def f64_magnitude_def)
  have "\<not> f64_is_nan raw" "\<not> f64_is_infinite raw" "\<not> f64_is_nan 0" "\<not> f64_is_infinite 0"
    using assms by (simp_all add: finite_not_nan f64_is_infinite_def)
  moreover have "f64_significand 0 = 0" by (simp add: f64_significand_def f64_sign_def)
  ultimately have "f64_mul raw 0 = with_sign (f64_sign raw \<noteq> f64_sign 0) 0"
    by (simp add: f64_mul_def Let_def f64_round_def)
  then show "f64_is_zero (f64_mul raw 0)" "f64_is_nan (f64_mul raw 0) = False"
    "f64_is_infinite (f64_mul raw 0) = False"
    using z finite_not_nan by (simp_all add: f64_is_infinite_def)
qed

lemma default_apply_zero: "f64_is_finite raw \<Longrightarrow> transform_apply transform_default raw = 0"
  using f64_mul_zero [of raw]
  by (simp add: transform_apply_def transform_default_def f64_add_def f64_neg_def f64_sub_def
      f64_class_defs f64_is_infinite_def f64_is_zero_def f64_magnitude_def f64_sign_def with_sign_def)

subsection \<open>Properties\<close>




text \<open>
  C33: a point configuration built by its constructor, without an explicit transform, maps
  every finite raw value to zero and refuses every reverse transform, because the derived
  default of the scale is zero.
\<close>

theorem default_transform_zeroes:
  assumes "f64_is_finite raw"
  shows "transform_apply (pc_transform (point_config_new i t a)) raw = 0 \<and>
    transform_reverse_apply (pc_transform (point_config_new i t a)) v = Inl DataConversion"
  using default_apply_zero [OF assms]
  by (simp add: point_config_new_def transform_reverse_apply_def transform_default_def f64_eq_def
      f64_class_defs)

theorem default_transform_zeroes_witness:
  "transform_apply (pc_transform (point_config_new 7 Telemetry (modbus_coil 1 2))) 0x4059000000000000 = 0"
  by (rule default_transform_zeroes [THEN conjunct1]) (simp add: f64_class_defs)

end
