(* ===== verification/F64_Parse.thy ===== *)
theory F64_Parse
  imports F64_Arith Rust_Strings
begin

section \<open>Reading \<open>f64\<close> from text\<close>

text \<open>
  \<open>str::parse::<f64>\<close> of the standard library: an optional sign, then a decimal number with an
  optional fraction and exponent, correctly rounded, or one of the words \<open>inf\<close>, \<open>infinity\<close> and
  \<open>nan\<close> in any case.  As in the library the exponent stops accumulating digits once it exceeds
  65535.
\<close>

definition is_digit :: "u8 \<Rightarrow> bool" where
  "is_digit b \<longleftrightarrow> 0x30 \<le> b \<and> b \<le> 0x39"

fun exponent_value :: "nat \<Rightarrow> bytes \<Rightarrow> nat" where
  "exponent_value acc [] = acc"
| "exponent_value acc (b # bs) =
     exponent_value (if acc < 0x10000 then 10 * acc + (unat b - 0x30) else acc) bs"

text \<open>The exponent part: what follows \<open>e\<close> must be an optional sign and digits up to the end.\<close>

definition parse_exponent :: "bytes \<Rightarrow> int option" where
  "parse_exponent s =
     (let (neg, ds) =
        (case s of b # bs \<Rightarrow> if b = 0x2D then (True, bs) else if b = 0x2B then (False, bs) else (False, s)
         | [] \<Rightarrow> (False, []))
      in if ds = [] \<or> \<not> list_all is_digit ds then None
         else Some (if neg then - int (exponent_value 0 ds) else int (exponent_value 0 ds)))"

definition f64_of_decimal :: "bool \<Rightarrow> nat \<Rightarrow> int \<Rightarrow> f64" where
  "f64_of_decimal s m e =
     (if m = 0 then with_sign s 0
      else if e \<ge> 0 then f64_round s (int m * 10 ^ nat e) 0
      else let (q, e') = sticky_quotient (int m) (10 ^ nat (- e)) in f64_round s q e')"

definition parse_number :: "bool \<Rightarrow> bytes \<Rightarrow> f64 option" where
  "parse_number s bs =
     (let int_part = takeWhile is_digit bs; r1 = dropWhile is_digit bs;
          (frac, r2) =
            (case r1 of
               b # rest \<Rightarrow> if b = 0x2E then (takeWhile is_digit rest, dropWhile is_digit rest) else ([], r1)
             | [] \<Rightarrow> ([], []))
      in if int_part = [] \<and> frac = [] then None
         else case digits_value 0 (int_part @ frac) of
             None \<Rightarrow> None
           | Some m \<Rightarrow>
               (case r2 of
                  [] \<Rightarrow> Some (f64_of_decimal s m (- int (length frac)))
                | b # rest \<Rightarrow>
                    if b = 0x65 \<or> b = 0x45 then
                      map_option (\<lambda>e. f64_of_decimal s m (e - int (length frac))) (parse_exponent rest)
                    else None))"

definition ascii_lower :: "u8 \<Rightarrow> u8" where
  "ascii_lower b = (if 0x41 \<le> b \<and> b \<le> 0x5A then b + 0x20 else b)"

definition parse_inf_nan :: "bool \<Rightarrow> bytes \<Rightarrow> f64 option" where
  "parse_inf_nan s bs =
     (let l = map ascii_lower bs in
      if l = ascii ''nan'' then Some (with_sign s F64_NAN)
      else if l = ascii ''inf'' \<or> l = ascii ''infinity'' then Some (with_sign s F64_INFINITY)
      else None)"

definition parse_f64 :: "bytes \<Rightarrow> f64 option" where
  "parse_f64 str =
     (let (s, bs) =
        (case str of b # bs \<Rightarrow> if b = 0x2D then (True, bs) else if b = 0x2B then (False, bs) else (False, str)
         | [] \<Rightarrow> (False, []))
      in if bs = [] then None
         else case parse_number s bs of Some f \<Rightarrow> Some f | None \<Rightarrow> parse_inf_nan s bs)"

subsection \<open>Splitting a bounded number of times\<close>

fun split_once :: "u8 \<Rightarrow> bytes \<Rightarrow> (bytes \<times> bytes) option" where
  "split_once sep [] = None"
| "split_once sep (b # bs) =
     (if b = sep then Some ([], bs)
      else case split_once sep bs of None \<Rightarrow> None | Some (l, r) \<Rightarrow> Some (b # l, r))"

fun str_splitn :: "nat \<Rightarrow> u8 \<Rightarrow> bytes \<Rightarrow> bytes list" where
  "str_splitn 0 sep s = []"
| "str_splitn (Suc 0) sep s = [s]"
| "str_splitn (Suc (Suc n)) sep s =
     (case split_once sep s of None \<Rightarrow> [s] | Some (l, r) \<Rightarrow> l # str_splitn (Suc n) sep r)"

lemma split_once_None: "sep \<notin> set s \<Longrightarrow> split_once sep s = None"
  by (induction s) auto

lemma split_once_Some: "sep \<notin> set l \<Longrightarrow> split_once sep (l @ sep # r) = Some (l, r)"
  by (induction l) auto

lemma str_splitn_single: "sep \<notin> set s \<Longrightarrow> str_splitn (Suc n) sep s = [s]"
  by (cases n) (simp_all add: split_once_None)

end
