(* ===== verification/Routing_Cache.thy ===== *)
theory Routing_Cache
  imports Core_Types F64_Parse "HOL-Library.AList" "HOL-Library.Product_Lexorder" "HOL-Library.Multiset"
begin

section \<open>Routing cache (libs/aether-routing/src/routing_cache.rs)\<close>

text \<open>
  The three routing tables, built from string maps, and the reverse table.  A hash map is an
  association list with distinct keys in its iteration order; inserting replaces.  The string
  maps are lists in the order in which the source iterates over them, which is arbitrary.  The
  hasher of \<open>content_hash\<close> is third-party code and a parameter.
\<close>

record c2m_target =
  c2m_instance_id :: u32
  c2m_point_id :: u32

record c2c_target =
  c2c_channel_id :: u32
  c2c_point_type :: point_type
  c2c_point_id :: u32
  c2c_scale :: f64
  c2c_offset :: f64

record m2c_target =
  m2c_channel_id :: u32
  m2c_point_type :: point_type
  m2c_point_id :: u32

type_synonym route_key = "u32 \<times> point_type \<times> u32"

definition c2m_display :: "c2m_target \<Rightarrow> rust_string" where
  "c2m_display t =
     dec_digits (unat (c2m_instance_id t)) @ ascii '':M:'' @ dec_digits (unat (c2m_point_id t))"

definition route_string :: "route_key \<Rightarrow> rust_string" where
  "route_string k =
     (case k of (i, t, p) \<Rightarrow>
        dec_digits (unat i) @ ascii '':'' @ point_type_as_str t @ ascii '':'' @ dec_digits (unat p))"

definition c2c_display :: "c2c_target \<Rightarrow> rust_string" where
  "c2c_display t = route_string (c2c_channel_id t, c2c_point_type t, c2c_point_id t)"

definition m2c_display :: "m2c_target \<Rightarrow> rust_string" where
  "m2c_display t = route_string (m2c_channel_id t, m2c_point_type t, m2c_point_id t)"

definition c2c_transform :: "c2c_target \<Rightarrow> f64 \<Rightarrow> f64" where
  "c2c_transform t v = f64_add (f64_mul (c2c_scale t) v) (c2c_offset t)"

definition is_identity_transform :: "c2c_target \<Rightarrow> bool" where
  "is_identity_transform t \<longleftrightarrow> f64_eq (c2c_scale t) F64_ONE \<and> f64_eq (c2c_offset t) 0"

subsection \<open>Parsing\<close>

definition parse_c2m_target :: "rust_string \<Rightarrow> c2m_target option" where
  "parse_c2m_target s =
     (let parts = str_split 0x3A s in
      if length parts \<noteq> 3 then None
      else
        case parse_u32 (parts ! 0) of None \<Rightarrow> None
        | Some instance_id \<Rightarrow>
            (case parse_u32 (parts ! 2) of None \<Rightarrow> None
             | Some point_id \<Rightarrow> Some \<lparr>c2m_instance_id = instance_id, c2m_point_id = point_id\<rparr>))"

definition parse_point_type :: "rust_string \<Rightarrow> point_type option" where
  "parse_point_type s =
     (if s = ascii ''T'' then Some Telemetry else if s = ascii ''S'' then Some Signal
      else if s = ascii ''C'' then Some Control else if s = ascii ''A'' then Some Adjustment
      else None)"

definition parse_channel_point :: "rust_string \<Rightarrow> route_key option" where
  "parse_channel_point s =
     (let parts = str_split 0x3A s in
      if length parts \<noteq> 3 then None
      else
        case parse_u32 (parts ! 0) of None \<Rightarrow> None
        | Some i \<Rightarrow>
            (case parse_point_type (parts ! 1) of None \<Rightarrow> None
             | Some t \<Rightarrow>
                 (case parse_u32 (parts ! 2) of None \<Rightarrow> None | Some p \<Rightarrow> Some (i, t, p))))"

definition parse_route_key :: "rust_string \<Rightarrow> route_key option" where
  "parse_route_key s =
     (let parts = str_split 0x3A s in
      if length parts \<noteq> 3 then None
      else
        case parse_u32 (parts ! 0) of None \<Rightarrow> None
        | Some i \<Rightarrow>
            (case parse_point_type (parts ! 1) of None \<Rightarrow> None
             | Some t \<Rightarrow>
                 (case parse_u32 (parts ! 2) of None \<Rightarrow> None | Some p \<Rightarrow> Some (i, t, p))))"

definition part_or :: "bytes list \<Rightarrow> nat \<Rightarrow> f64 \<Rightarrow> f64" where
  "part_or parts n dflt =
     (if n < length parts then (case parse_f64 (parts ! n) of Some f \<Rightarrow> f | None \<Rightarrow> dflt) else dflt)"

definition parse_c2c_value :: "rust_string \<Rightarrow> c2c_target option" where
  "parse_c2c_value s =
     (let parts = str_splitn 3 0x7C s in
      case parts of [] \<Rightarrow> None
      | target_str # _ \<Rightarrow>
          (case parse_channel_point target_str of None \<Rightarrow> None
           | Some (channel_id, point_type, point_id) \<Rightarrow>
               Some \<lparr>c2c_channel_id = channel_id, c2c_point_type = point_type, c2c_point_id = point_id,
                     c2c_scale = part_or parts 1 F64_ONE, c2c_offset = part_or parts 2 0\<rparr>))"

definition m2c_from_parts :: "route_key \<Rightarrow> m2c_target" where
  "m2c_from_parts k =
     (case k of (i, t, p) \<Rightarrow> \<lparr>m2c_channel_id = i, m2c_point_type = t, m2c_point_id = p\<rparr>)"

subsection \<open>The cache\<close>

type_synonym string_map = "(rust_string \<times> rust_string) list"

record routing_cache =
  rc_c2m :: "(route_key \<times> c2m_target) list"
  rc_c2c :: "(route_key \<times> c2c_target) list"
  rc_m2c :: "(route_key \<times> m2c_target) list"
  rc_c2m_reverse :: "((u32 \<times> u32) \<times> route_key) list"

fun build_c2m ::
    "string_map \<Rightarrow> (route_key \<times> c2m_target) list \<times> ((u32 \<times> u32) \<times> route_key) list \<Rightarrow>
     (route_key \<times> c2m_target) list \<times> ((u32 \<times> u32) \<times> route_key) list" where
  "build_c2m [] st = st"
| "build_c2m ((k, v) # data) (c2m, back) =
     build_c2m data
       (case (parse_route_key k, parse_c2m_target v) of
          (Some key, Some t) \<Rightarrow>
            (AList.update key t c2m, AList.update (c2m_instance_id t, c2m_point_id t) key back)
        | _ \<Rightarrow> (c2m, back))"

fun build_m2c :: "string_map \<Rightarrow> (route_key \<times> m2c_target) list \<Rightarrow> (route_key \<times> m2c_target) list" where
  "build_m2c [] m2c = m2c"
| "build_m2c ((k, v) # data) m2c =
     build_m2c data
       (case (parse_route_key k, parse_channel_point v) of
          (Some key, Some parts) \<Rightarrow> AList.update key (m2c_from_parts parts) m2c
        | _ \<Rightarrow> m2c)"

fun build_c2c :: "string_map \<Rightarrow> (route_key \<times> c2c_target) list \<Rightarrow> (route_key \<times> c2c_target) list" where
  "build_c2c [] c2c = c2c"
| "build_c2c ((k, v) # data) c2c =
     build_c2c data
       (case (parse_route_key k, parse_c2c_value v) of
          (Some key, Some t) \<Rightarrow> AList.update key t c2c
        | _ \<Rightarrow> c2c)"

definition build_tables :: "string_map \<Rightarrow> string_map \<Rightarrow> string_map \<Rightarrow> routing_cache" where
  "build_tables c2m_data m2c_data c2c_data =
     (let (c2m, c2m_reverse) = build_c2m c2m_data ([], [])
      in \<lparr>rc_c2m = c2m, rc_c2c = build_c2c c2c_data [], rc_m2c = build_m2c m2c_data [],
          rc_c2m_reverse = c2m_reverse\<rparr>)"

definition routing_cache_new :: routing_cache where
  "routing_cache_new = \<lparr>rc_c2m = [], rc_c2c = [], rc_m2c = [], rc_c2m_reverse = []\<rparr>"

definition from_maps :: "string_map \<Rightarrow> string_map \<Rightarrow> string_map \<Rightarrow> routing_cache" where
  "from_maps c2m_data m2c_data c2c_data = build_tables c2m_data m2c_data c2c_data"

text \<open>\<open>update\<close> swaps the four tables one after the other; \<open>n\<close> swaps have happened.\<close>

definition update_after :: "nat \<Rightarrow> routing_cache \<Rightarrow> routing_cache \<Rightarrow> routing_cache" where
  "update_after n new old =
     (let s1 = (if n \<ge> 1 then old\<lparr>rc_c2m := rc_c2m new\<rparr> else old);
          s2 = (if n \<ge> 2 then s1\<lparr>rc_c2c := rc_c2c new\<rparr> else s1);
          s3 = (if n \<ge> 3 then s2\<lparr>rc_m2c := rc_m2c new\<rparr> else s2)
      in if n \<ge> 4 then s3\<lparr>rc_c2m_reverse := rc_c2m_reverse new\<rparr> else s3)"

definition routing_update :: "string_map \<Rightarrow> string_map \<Rightarrow> string_map \<Rightarrow> routing_cache \<Rightarrow> routing_cache" where
  "routing_update c2m_data m2c_data c2c_data old =
     update_after 4 (build_tables c2m_data m2c_data c2c_data) old"

definition lookup_c2m_by_parts :: "routing_cache \<Rightarrow> u32 \<Rightarrow> point_type \<Rightarrow> u32 \<Rightarrow> c2m_target option" where
  "lookup_c2m_by_parts c i t p = map_of (rc_c2m c) (i, t, p)"

definition lookup_c2m :: "routing_cache \<Rightarrow> rust_string \<Rightarrow> c2m_target option" where
  "lookup_c2m c key =
     (case parse_route_key key of None \<Rightarrow> None | Some k \<Rightarrow> map_of (rc_c2m c) k)"

definition lookup_c2m_reverse :: "routing_cache \<Rightarrow> u32 \<Rightarrow> u32 \<Rightarrow> route_key option" where
  "lookup_c2m_reverse c i p = map_of (rc_c2m_reverse c) (i, p)"

definition lookup_m2c :: "routing_cache \<Rightarrow> rust_string \<Rightarrow> m2c_target option" where
  "lookup_m2c c key =
     (case parse_route_key key of None \<Rightarrow> None | Some k \<Rightarrow> map_of (rc_m2c c) k)"

definition lookup_m2c_by_parts :: "routing_cache \<Rightarrow> u32 \<Rightarrow> point_type \<Rightarrow> u32 \<Rightarrow> m2c_target option" where
  "lookup_m2c_by_parts c i t p = map_of (rc_m2c c) (i, t, p)"

definition lookup_c2c_by_parts :: "routing_cache \<Rightarrow> u32 \<Rightarrow> point_type \<Rightarrow> u32 \<Rightarrow> c2c_target option" where
  "lookup_c2c_by_parts c i t p = map_of (rc_c2c c) (i, t, p)"

definition routing_stats :: "routing_cache \<Rightarrow> nat \<times> nat \<times> nat" where
  "routing_stats c = (length (rc_c2m c), length (rc_m2c c), length (rc_c2c c))"

definition c2m_iter :: "routing_cache \<Rightarrow> (route_key \<times> c2m_target) list" where
  "c2m_iter c = rc_c2m c"

definition m2c_iter :: "routing_cache \<Rightarrow> (route_key \<times> m2c_target) list" where
  "m2c_iter c = rc_m2c c"

subsection \<open>The content hash\<close>

datatype hash_write = WriteU32 u32 | WriteU8 u8

fun route_sort_key :: "route_key \<times> 'v \<Rightarrow> u32 \<times> u8 \<times> u32" where
  "route_sort_key ((i, t, p), _) = (i, point_type_to_u8 t, p)"

fun c2m_writes :: "route_key \<times> c2m_target \<Rightarrow> hash_write list" where
  "c2m_writes ((i, t, p), target) =
     [WriteU32 i, WriteU8 (point_type_to_u8 t), WriteU32 p, WriteU32 (c2m_instance_id target),
      WriteU32 (c2m_point_id target)]"

fun m2c_writes :: "route_key \<times> m2c_target \<Rightarrow> hash_write list" where
  "m2c_writes ((i, t, p), target) =
     [WriteU32 i, WriteU8 (point_type_to_u8 t), WriteU32 p, WriteU32 (m2c_channel_id target),
      WriteU8 (point_type_to_u8 (m2c_point_type target)), WriteU32 (m2c_point_id target)]"

definition content_hash_writes :: "routing_cache \<Rightarrow> hash_write list" where
  "content_hash_writes c =
     concat (map c2m_writes (sort_key route_sort_key (rc_c2m c))) @
     concat (map m2c_writes (sort_key route_sort_key (rc_m2c c)))"

definition content_hash :: "('h \<Rightarrow> hash_write \<Rightarrow> 'h) \<Rightarrow> ('h \<Rightarrow> u64) \<Rightarrow> 'h \<Rightarrow> routing_cache \<Rightarrow> u64" where
  "content_hash write_hash finish hasher c =
     finish (foldl write_hash hasher (content_hash_writes c))"

subsection \<open>Strings and keys\<close>

lemma colon_not_digit: "0x3A \<notin> set (dec_digits n)" "0x7C \<notin> set (dec_digits n)"
  by (rule dec_digits_no_sep; simp)+

lemma point_type_str_no_sep: "0x3A \<notin> set (point_type_as_str t)" "0x7C \<notin> set (point_type_as_str t)"
  by (cases t; simp add: ascii_def)+

lemma parse_point_type_as_str: "parse_point_type (point_type_as_str t) = Some t"
  by (cases t) (simp_all add: parse_point_type_def ascii_def)

lemma ascii_colon: "ascii '':'' = [0x3A]" "ascii '':M:'' = [0x3A, 0x4D, 0x3A]"
  by (simp_all add: ascii_def)

lemma split_route_string:
  "str_split 0x3A (route_string (i, t, p)) = [dec_digits (unat i), point_type_as_str t, dec_digits (unat p)]"
  by (simp add: route_string_def ascii_colon str_split_cons str_split_no_sep colon_not_digit
      point_type_str_no_sep)

lemma parse_route_string [simp]: "parse_route_key (route_string k) = Some k"
  by (cases k) (simp add: parse_route_key_def split_route_string parse_point_type_as_str)

lemma parse_channel_point_eq: "parse_channel_point = parse_route_key"
  by (simp add: fun_eq_iff parse_channel_point_def parse_route_key_def)

lemma split_c2m_display:
  "str_split 0x3A (c2m_display t) = [dec_digits (unat (c2m_instance_id t)), [0x4D], dec_digits (unat (c2m_point_id t))]"
  using str_split_cons [of "0x3A" "[0x4D]" "dec_digits (unat (c2m_point_id t))"]
  by (simp add: c2m_display_def ascii_colon str_split_cons str_split_no_sep colon_not_digit)

lemma parse_c2m_display [simp]: "parse_c2m_target (c2m_display t) = Some t"
  by (simp add: parse_c2m_target_def split_c2m_display)

lemma route_string_no_bar: "0x7C \<notin> set (route_string k)"
  by (cases k) (simp add: route_string_def ascii_colon colon_not_digit point_type_str_no_sep)

lemma parse_c2c_display:
  "parse_c2c_value (c2c_display t) = Some (t\<lparr>c2c_scale := F64_ONE, c2c_offset := 0\<rparr>)"
proof -
  have "str_splitn 3 0x7C (c2c_display t) = [c2c_display t]"
    using str_splitn_single [OF route_string_no_bar, of 2] by (simp add: c2c_display_def numeral_eq_Suc)
  then show ?thesis
    by (simp add: parse_c2c_value_def parse_channel_point_eq part_or_def c2c_display_def)
qed

subsection \<open>Tables\<close>

text \<open>The entries of a string map that parse, in iteration order.\<close>

definition parsed_c2m :: "string_map \<Rightarrow> (route_key \<times> c2m_target) list" where
  "parsed_c2m data =
     List.map_filter (\<lambda>(k, v). case (parse_route_key k, parse_c2m_target v) of
        (Some key, Some t) \<Rightarrow> Some (key, t) | _ \<Rightarrow> None) data"

fun add_c2m ::
    "route_key \<times> c2m_target \<Rightarrow> (route_key \<times> c2m_target) list \<times> ((u32 \<times> u32) \<times> route_key) list \<Rightarrow>
     (route_key \<times> c2m_target) list \<times> ((u32 \<times> u32) \<times> route_key) list" where
  "add_c2m (key, t) (c2m, back) =
     (AList.update key t c2m, AList.update (c2m_instance_id t, c2m_point_id t) key back)"

lemma build_c2m_fold: "build_c2m data st = fold add_c2m (parsed_c2m data) st"
proof (induction data st rule: build_c2m.induct)
  case (2 k v data c2m r)
  then show ?case
    by (cases "parse_route_key k"; cases "parse_c2m_target v")
      (simp_all add: parsed_c2m_def map_filter_simps)
qed (simp add: parsed_c2m_def map_filter_simps)

text \<open>A reverse table is consistent with a forward table if each inverts the other.\<close>

definition inverse_tables :: "('t \<Rightarrow> 'i) \<Rightarrow> ('k \<rightharpoonup> 't) \<Rightarrow> ('i \<rightharpoonup> 'k) \<Rightarrow> bool" where
  "inverse_tables g fwd back \<longleftrightarrow>
     (\<forall>i k. back i = Some k \<longrightarrow> (\<exists>t. fwd k = Some t \<and> i = g t)) \<and>
     (\<forall>k t. fwd k = Some t \<longrightarrow> back (g t) \<noteq> None)"

lemma inverse_tables_insert:
  assumes "inverse_tables g fwd back" and "fwd k = None"
  shows "inverse_tables g (fwd(k \<mapsto> t)) (back(g t \<mapsto> k))"
  using assms unfolding inverse_tables_def by (auto split: if_splits) (metis option.distinct(1))+

lemma map_add_insert:
  "f k = None \<Longrightarrow> m k = None \<Longrightarrow> f(k \<mapsto> v) ++ m = f ++ m(k \<mapsto> v)"
  by (auto simp: fun_eq_iff map_add_def split: option.split)

definition c2m_of :: "c2m_target \<Rightarrow> u32 \<times> u32" where
  "c2m_of t = (c2m_instance_id t, c2m_point_id t)"

definition tables_ok :: "(route_key \<times> c2m_target) list \<times> ((u32 \<times> u32) \<times> route_key) list \<Rightarrow> bool" where
  "tables_ok st \<longleftrightarrow> distinct (map fst (fst st)) \<and> inverse_tables c2m_of (map_of (fst st)) (map_of (snd st))"

lemma add_c2m_distinct:
  "distinct (map fst (fst st)) \<Longrightarrow> distinct (map fst (fst (add_c2m e st)))"
  by (cases e; cases st) (simp add: distinct_update)

lemma fst_add_c2m: "map_of (fst (add_c2m e st)) = (map_of (fst st))(fst e \<mapsto> snd e)"
  by (cases e; cases st) (simp add: update_conv')

lemma snd_add_c2m: "map_of (snd (add_c2m e st)) = (map_of (snd st))(c2m_of (snd e) \<mapsto> fst e)"
  by (cases e; cases st) (simp add: update_conv' c2m_of_def)

lemma add_c2m_ok:
  assumes "tables_ok st" and "map_of (fst st) (fst e) = None"
  shows "tables_ok (add_c2m e st)"
  using assms inverse_tables_insert [of c2m_of "map_of (fst st)" "map_of (snd st)" "fst e" "snd e"]
  by (simp add: tables_ok_def fst_add_c2m snd_add_c2m add_c2m_distinct)

lemma build_c2m_ok:
  assumes "distinct (map fst es)" and "tables_ok st" and "\<forall>e\<in>set es. map_of (fst st) (fst e) = None"
  shows "tables_ok (fold add_c2m es st) \<and> map_of (fst (fold add_c2m es st)) = map_of (fst st) ++ map_of es"
  using assms
proof (induction es arbitrary: st)
  case (Cons e es)
  have fresh: "map_of (fst st) (fst e) = None" "map_of es (fst e) = None"
    using Cons.prems by (simp_all add: map_of_eq_None_iff)
  have later: "\<forall>e'\<in>set es. map_of (fst (add_c2m e st)) (fst e') = None"
  proof
    fix e' assume e': "e' \<in> set es"
    have "fst e \<notin> fst ` set es" using Cons.prems(1) by simp
    moreover have "fst e' \<in> fst ` set es" using e' by (rule imageI)
    ultimately have "fst e' \<noteq> fst e" by metis
    then show "map_of (fst (add_c2m e st)) (fst e') = None" using Cons.prems(3) e' by (simp add: fst_add_c2m)
  qed
  have "distinct (map fst es)" using Cons.prems(1) by simp
  note IH = Cons.IH [OF this add_c2m_ok [OF Cons.prems(2) fresh(1)] later]
  moreover have "map_of (fst (add_c2m e st)) ++ map_of es = map_of (fst st) ++ map_of (e # es)"
    unfolding fst_add_c2m map_of.simps by (rule map_add_insert) (rule fresh)+
  ultimately show ?case by (simp only: fold_simps)
qed simp

lemma from_maps_c2m:
  assumes "distinct (map fst (parsed_c2m c2m))" and c: "c = from_maps c2m m2c c2c"
  shows "map_of (rc_c2m c) = map_of (parsed_c2m c2m)"
    and "inverse_tables c2m_of (map_of (rc_c2m c)) (map_of (rc_c2m_reverse c))"
proof -
  have ok: "tables_ok ([], [])" by (simp add: tables_ok_def inverse_tables_def)
  have r: "rc_c2m c = fst (fold add_c2m (parsed_c2m c2m) ([], []))"
      "rc_c2m_reverse c = snd (fold add_c2m (parsed_c2m c2m) ([], []))"
    by (simp_all add: c from_maps_def build_tables_def build_c2m_fold split: prod.split)
  have built: "tables_ok (fold add_c2m (parsed_c2m c2m) ([], [])) \<and>
      map_of (fst (fold add_c2m (parsed_c2m c2m) ([], []))) = map_of (parsed_c2m c2m)"
    using build_c2m_ok [OF assms(1) ok] by simp
  show "map_of (rc_c2m c) = map_of (parsed_c2m c2m)" using built unfolding r by simp
  show "inverse_tables c2m_of (map_of (rc_c2m c)) (map_of (rc_c2m_reverse c))"
    using built unfolding r tables_ok_def by blast
qed

subsection \<open>Order independence\<close>

definition routing_ok :: "routing_cache \<Rightarrow> bool" where
  "routing_ok c \<longleftrightarrow> distinct (map fst (rc_c2m c)) \<and> distinct (map fst (rc_m2c c)) \<and>
     distinct (map fst (rc_c2c c)) \<and> distinct (map fst (rc_c2m_reverse c))"

lemma build_c2m_distinct:
  "distinct (map fst (fst st)) \<Longrightarrow> distinct (map fst (snd st)) \<Longrightarrow>
     distinct (map fst (fst (build_c2m data st))) \<and> distinct (map fst (snd (build_c2m data st)))"
  by (induction data st rule: build_c2m.induct) (auto simp: distinct_update split: option.split)

lemma build_m2c_distinct: "distinct (map fst m) \<Longrightarrow> distinct (map fst (build_m2c data m))"
  by (induction data m rule: build_m2c.induct) (auto simp: distinct_update split: option.split)

lemma build_c2c_distinct: "distinct (map fst m) \<Longrightarrow> distinct (map fst (build_c2c data m))"
  by (induction data m rule: build_c2c.induct) (auto simp: distinct_update split: option.split)

lemma from_maps_ok: "routing_ok (from_maps c2m m2c c2c)"
  using build_c2m_distinct [of "([], [])" c2m] build_m2c_distinct [of "[]" m2c] build_c2c_distinct [of "[]" c2c]
  by (cases "build_c2m c2m ([], [])") (simp add: routing_ok_def from_maps_def build_tables_def)

lemma route_sort_key_inj: "inj_on fst (A :: (route_key \<times> 'v) set) \<Longrightarrow> inj_on route_sort_key A"
proof (rule inj_onI)
  fix x y :: "route_key \<times> 'v"
  assume "inj_on fst A" "x \<in> A" "y \<in> A" "route_sort_key x = route_sort_key y"
  moreover from this(4) have "fst x = fst y"
    by (cases x rule: route_sort_key.cases; cases y rule: route_sort_key.cases) simp
  ultimately show "x = y" by (simp add: inj_on_def)
qed

lemma sorted_entries_unique:
  fixes xs ys :: "(route_key \<times> 'v) list"
  assumes "distinct (map fst xs)" "distinct (map fst ys)" "map_of xs = map_of ys"
  shows "sort_key route_sort_key xs = sort_key route_sort_key ys"
proof -
  have set: "set xs = set ys" using map_of_inject_set [OF assms(1,2)] assms(3) by simp
  have inj: "inj_on route_sort_key (set xs)"
    using assms(1) by (intro route_sort_key_inj) (simp add: distinct_map)
  have "distinct (map route_sort_key (sort_key route_sort_key zs))"
    if "distinct (map fst zs)" "set zs = set xs" for zs :: "(route_key \<times> 'v) list"
    using that inj by (simp add: distinct_map)
  then show ?thesis
    using set inj assms(1,2)
    by (intro map_sorted_distinct_set_unique [of route_sort_key]) simp_all
qed

lemma c2m_writes_inj: "c2m_writes x @ r = c2m_writes y @ r' \<Longrightarrow> x = y \<and> r = r'"
  by (cases x rule: c2m_writes.cases; cases y rule: c2m_writes.cases) simp

lemma m2c_writes_inj: "m2c_writes x @ r = m2c_writes y @ r' \<Longrightarrow> x = y \<and> r = r'"
  by (cases x rule: m2c_writes.cases; cases y rule: m2c_writes.cases) simp

lemma writes_differ: "c2m_writes x @ r \<noteq> m2c_writes y @ r'" "c2m_writes x @ r \<noteq> []" "m2c_writes y @ r \<noteq> []"
  by (cases x rule: c2m_writes.cases; cases y rule: m2c_writes.cases; simp)+

lemma m2c_blocks_inj: "concat (map m2c_writes zs) = concat (map m2c_writes ws) \<Longrightarrow> zs = ws"
proof (induction zs arbitrary: ws)
  case Nil
  then show ?case
    using writes_differ(3) [of "hd ws" "[]"] by (cases ws) (simp_all del: m2c_writes.simps)
next
  case (Cons z zs)
  then obtain w ws' where ws: "ws = w # ws'" 
    using writes_differ(3) [of z "[]"] by (cases ws) (simp_all del: m2c_writes.simps)
  then have "z = w \<and> concat (map m2c_writes zs) = concat (map m2c_writes ws')"
    using m2c_writes_inj [of z "concat (map m2c_writes zs)" w "concat (map m2c_writes ws')"] Cons.prems
    by (simp del: m2c_writes.simps)
  then show ?case using Cons.IH ws by simp
qed

lemma blocks_inj:
  "concat (map c2m_writes xs) @ concat (map m2c_writes zs) =
   concat (map c2m_writes ys) @ concat (map m2c_writes ws) \<Longrightarrow> xs = ys \<and> zs = ws"
proof (induction xs arbitrary: ys)
  case Nil
  then have "ys = []"
    using writes_differ(1,2) [of "hd ys"] by (cases ys; cases zs) (auto simp del: c2m_writes.simps m2c_writes.simps dest: sym)
  with Nil show ?case using m2c_blocks_inj by simp
next
  case (Cons x xs)
  show ?case
  proof (cases ys)
    case Nil
    then show ?thesis
      using Cons.prems writes_differ(1,2) [of x] by (cases ws) (auto simp del: c2m_writes.simps m2c_writes.simps)
  next
    case (Cons y ys')
    then show ?thesis
      using Cons.prems Cons.IH [of ys'] c2m_writes_inj
        [of x "concat (map c2m_writes xs) @ concat (map m2c_writes zs)" y "concat (map c2m_writes ys') @ concat (map m2c_writes ws)"]
      by (simp del: c2m_writes.simps m2c_writes.simps)
  qed
qed

lemma sort_key_eq_maps:
  fixes xs ys :: "(route_key \<times> 'v) list"
  assumes "distinct (map fst xs)" "distinct (map fst ys)"
  shows "sort_key route_sort_key xs = sort_key route_sort_key ys \<longleftrightarrow> map_of xs = map_of ys"
  using sorted_entries_unique [OF assms] map_of_inject_set [OF assms] set_sort by metis

subsection \<open>Properties\<close>

text \<open>
  Keys and targets are read back from the strings that display them; a displayed forwarding
  target is read with the identity transform.
\<close>

lemma route_strings_roundtrip:
  "parse_route_key (route_string k) = Some k \<and> parse_c2m_target (c2m_display t) = Some t \<and>
   map_option m2c_from_parts (parse_channel_point (m2c_display m)) = Some m \<and>
   parse_c2c_value (c2c_display c) = Some (c\<lparr>c2c_scale := F64_ONE, c2c_offset := 0\<rparr>)"
  by (simp add: parse_c2c_display parse_channel_point_eq m2c_display_def m2c_from_parts_def)

text \<open>
  C34: when no two routes of the configuration denote the same key, the cache holds exactly the
  parsed routes, string and structured lookups agree, and the reverse table inverts the
  forward table: what it returns for an instance point is routed to that point, and every
  routed point has an entry.
\<close>

theorem c2m_tables_consistent:
  assumes "distinct (map fst (parsed_c2m c2m))" and "c = from_maps c2m m2c c2c"
  shows "lookup_c2m_by_parts c i t p = map_of (parsed_c2m c2m) (i, t, p) \<and>
    lookup_c2m c (route_string (i, t, p)) = lookup_c2m_by_parts c i t p \<and>
    (lookup_c2m_reverse c inst pt = Some (i, t, p) \<longrightarrow>
       lookup_c2m_by_parts c i t p = Some \<lparr>c2m_instance_id = inst, c2m_point_id = pt\<rparr>) \<and>
    (lookup_c2m_by_parts c i t p = Some tgt \<longrightarrow>
       lookup_c2m_reverse c (c2m_instance_id tgt) (c2m_point_id tgt) \<noteq> None)"
proof -
  note tables = from_maps_c2m [OF assms]
  have fwd: "lookup_c2m_by_parts c i t p = map_of (rc_c2m c) (i, t, p)" by (simp add: lookup_c2m_by_parts_def)
  have 1: "\<exists>tgt. map_of (rc_c2m c) k = Some tgt \<and> (inst, pt) = c2m_of tgt"
    if "map_of (rc_c2m_reverse c) (inst, pt) = Some k" for k
    using tables(2) that unfolding inverse_tables_def by blast
  have 2: "map_of (rc_c2m_reverse c) (c2m_of tgt) \<noteq> None" if "map_of (rc_c2m c) k = Some tgt" for k
    using tables(2) that unfolding inverse_tables_def by blast
  show ?thesis
    using 1 [of "(i, t, p)"] 2 [of "(i, t, p)"] unfolding fwd tables(1) [symmetric]
    by (auto simp: lookup_c2m_def lookup_c2m_reverse_def c2m_of_def)
qed

theorem c2m_tables_consistent_witness:
  "lookup_c2m_by_parts (from_maps [(route_string (2, Telemetry, 1),
       c2m_display \<lparr>c2m_instance_id = 23, c2m_point_id = 1\<rparr>)] [] []) 2 Telemetry 1 =
     Some \<lparr>c2m_instance_id = 23, c2m_point_id = 1\<rparr>"
  using c2m_tables_consistent [of "[(route_string (2, Telemetry, 1),
       c2m_display \<lparr>c2m_instance_id = 23, c2m_point_id = 1\<rparr>)]", OF _ refl, of "[]" "[]" 2 Telemetry 1]
  by (simp add: parsed_c2m_def map_filter_simps)





end
