(* ===== verification/F64_Show.thy ===== *)
theory F64_Show
  imports F64_Parse
begin

section \<open>Writing numbers as text\<close>

text \<open>
  The formatting of the standard library that audit details use: \<open>{:032x}\<close> for command
  identifiers and \<open>{:?}\<close> for \<open>f64\<close>.  The latter prints the shortest decimal that lies in the
  rounding interval of the value, the nearer one when the two neighbours of that length both
  do, and switches to the exponent form below \<open>1e-4\<close> and from \<open>1e16\<close>.
\<close>

definition hex_digit_char :: "nat \<Rightarrow> u8" where
  "hex_digit_char d = word_of_nat (if d < 10 then 0x30 + d else 0x57 + d)"

fun hex_digits :: "nat \<Rightarrow> nat \<Rightarrow> bytes" where
  "hex_digits 0 n = []"
| "hex_digits (Suc w) n = hex_digits w (n div 16) @ [hex_digit_char (n mod 16)]"

definition show_unsigned :: "'a::len word \<Rightarrow> bytes" where
  "show_unsigned w = dec_digits (unat w)"

definition show_bool :: "bool \<Rightarrow> bytes" where
  "show_bool b = (if b then ascii ''true'' else ascii ''false'')"

text \<open>
  The value is \<open>v / d\<close>, its rounding interval runs from \<open>l / d\<close> to \<open>u / d\<close>; a power of two has
  its lower neighbour at half the distance.
\<close>

definition rounding_interval :: "f64 \<Rightarrow> int \<times> int \<times> int \<times> int" where
  "rounding_interval b =
     (let m = f64_significand (f64_abs b); e = f64_exponent b - 2;
          n = (if e \<ge> 0 then 2 ^ nat e else 1); d = (if e \<ge> 0 then 1 else 2 ^ nat (- e))
      in ((4 * m - (if m = 2 ^ 52 then 1 else 2)) * n, 4 * m * n, (4 * m + 2) * n, d))"

text \<open>The \<open>k\<close> with \<open>10^(k - 1) \<le> v / d < 10^k\<close>.\<close>

definition decimal_exponent :: "int \<Rightarrow> int \<Rightarrow> int" where
  "decimal_exponent v d =
     (if v \<ge> d then int (length (dec_digits (nat (v div d))))
      else 1 - int (length (dec_digits (nat ((d - 1) div v)))))"

fun shortest_from :: "nat \<Rightarrow> int \<Rightarrow> int \<Rightarrow> int \<Rightarrow> int \<Rightarrow> int \<Rightarrow> bool \<Rightarrow> int \<times> int" where
  "shortest_from fuel p l v u d incl =
     (let tp = 10 ^ nat p; tn = 10 ^ nat (- p);
          lo = v * tn div (tp * d); hi = lo + 1;
          inside = (\<lambda>c. if incl then l * tn \<le> c * tp * d \<and> c * tp * d \<le> u * tn
                         else l * tn < c * tp * d \<and> c * tp * d < u * tn)
      in if inside lo \<and> inside hi then
           (if v * tn - lo * tp * d < hi * tp * d - v * tn then lo else hi, p)
         else if inside lo then (lo, p)
         else if inside hi then (hi, p)
         else case fuel of 0 \<Rightarrow> (lo, p) | Suc f \<Rightarrow> shortest_from f (p - 1) l v u d incl)"

declare shortest_from.simps [simp del]

definition strip_zeros :: "bytes \<Rightarrow> bytes" where
  "strip_zeros ds = rev (dropWhile (\<lambda>b. b = 0x30) (rev ds))"

text \<open>Digits and the position of the decimal point, for a finite nonzero value.\<close>

definition shortest_digits :: "f64 \<Rightarrow> bytes \<times> int" where
  "shortest_digits b =
     (let (l, v, u, d) = rounding_interval b;
          (c, p) = shortest_from 16 (decimal_exponent v d - 1) l v u d (even (f64_significand b));
          ds = dec_digits (nat c)
      in (strip_zeros ds, p + int (length ds)))"

definition show_int :: "int \<Rightarrow> bytes" where
  "show_int i = (if i < 0 then 0x2D # dec_digits (nat (- i)) else dec_digits (nat i))"

definition decimal_form :: "bytes \<Rightarrow> int \<Rightarrow> bytes" where
  "decimal_form ds k =
     (if k \<le> 0 then ascii ''0.'' @ replicate (nat (- k)) 0x30 @ ds
      else if nat k < length ds then take (nat k) ds @ [0x2E] @ drop (nat k) ds
      else ds @ replicate (nat k - length ds) 0x30 @ ascii ''.0'')"

definition exponent_form :: "bytes \<Rightarrow> int \<Rightarrow> bytes" where
  "exponent_form ds k =
     take 1 ds @ (if length ds > 1 then [0x2E] @ drop 1 ds else []) @ [0x65] @ show_int (k - 1)"

definition f64_debug :: "f64 \<Rightarrow> bytes" where
  "f64_debug b =
     (if f64_is_nan b then ascii ''NaN''
      else (if f64_sign b then [0x2D] else []) @
        (if f64_is_infinite b then ascii ''inf''
         else if f64_is_zero b then ascii ''0.0''
         else let (ds, k) = shortest_digits b in
           if k > 16 \<or> k < - 3 then exponent_form ds k else decimal_form ds k))"

text \<open>\<open>{}\<close> prints without exponent and without a fraction where there is none.\<close>

definition plain_form :: "bytes \<Rightarrow> int \<Rightarrow> bytes" where
  "plain_form ds k = (if nat k < length ds then decimal_form ds k else ds @ replicate (nat k - length ds) 0x30)"

definition f64_display :: "f64 \<Rightarrow> bytes" where
  "f64_display b =
     (if f64_is_nan b then ascii ''NaN''
      else (if f64_sign b then [0x2D] else []) @
        (if f64_is_infinite b then ascii ''inf''
         else if f64_is_zero b then ascii ''0''
         else let (ds, k) = shortest_digits b in plain_form ds k))"

end
