(* ===== verification/App_Governance.thy ===== *)
theory App_Governance
  imports Edge_Domain F64_Show
begin

section \<open>Authorization and audit (aether-application/src)\<close>

text \<open>
  The invocation context, the capability catalogue, the deny-by-default policy, the audit
  records and the accepted outcomes that every application facade shares.  A capability port
  is a function on the state \<open>'s\<close> of its environment, so what other tasks do between two
  awaits is part of the next port's behaviour.  Here a \<open>PortError\<close> keeps its message, because
  the message becomes part of an audit detail.
\<close>

subsection \<open>Port errors with their messages (aether-ports/src/error.rs)\<close>

record port_fault =
  pf_kind :: port_error
  pf_message :: rust_string

type_synonym ('s, 'a) port_call = "'s \<Rightarrow> (port_fault + 'a) \<times> 's"

fun port_error_debug :: "port_error \<Rightarrow> rust_string" where
  "port_error_debug Unavailable = ascii ''Unavailable''"
| "port_error_debug Timeout = ascii ''Timeout''"
| "port_error_debug NotFound = ascii ''NotFound''"
| "port_error_debug Rejected = ascii ''Rejected''"
| "port_error_debug InvalidData = ascii ''InvalidData''"
| "port_error_debug Conflict = ascii ''Conflict''"
| "port_error_debug Permanent = ascii ''Permanent''"

definition port_fault_display :: "port_fault \<Rightarrow> rust_string" where
  "port_fault_display e = port_error_debug (pf_kind e) @ ascii '': '' @ pf_message e"

subsection \<open>Domain errors as text (aether-domain/src/error.rs)\<close>

fun point_kind_debug :: "point_kind \<Rightarrow> rust_string" where
  "point_kind_debug Telemetry = ascii ''Telemetry''"
| "point_kind_debug Status = ascii ''Status''"
| "point_kind_debug Command = ascii ''Command''"
| "point_kind_debug Action = ascii ''Action''"

fun domain_error_display :: "domain_error \<Rightarrow> rust_string" where
  "domain_error_display (PointNotWritable k) =
     ascii ''point kind '' @ point_kind_debug k @ ascii '' is not writable''"
| "domain_error_display (PointNotAcquisitionOwned k) =
     ascii ''point kind '' @ point_kind_debug k @ ascii '' is not acquisition-owned''"
| "domain_error_display (PointNotCommandOwned k) =
     ascii ''point kind '' @ point_kind_debug k @ ascii '' is not command-owned''"
| "domain_error_display NonFiniteAcquiredValue = ascii ''acquired engineering value must be finite''"
| "domain_error_display NonFiniteAcquiredRawValue = ascii ''acquired raw value must be finite''"
| "domain_error_display NonFiniteCommandValue = ascii ''command value must be finite''"
| "domain_error_display InvalidCommandWindow =
     ascii ''command expiry must be later than its issue time''"
| "domain_error_display CommandExpired = ascii ''command has expired''"
| "domain_error_display InvalidCommandConstraints = ascii ''command constraints are invalid''"
| "domain_error_display CommandValueOutOfRange =
     ascii ''command value is outside the allowed range''"
| "domain_error_display CommandValueOffStep =
     ascii ''command value is not aligned to the allowed step''"
| "domain_error_display InvalidAlarmSeverity = ascii ''alarm severity must be between 1 and 3''"
| "domain_error_display InvalidAlarmComparator = ascii ''alarm comparison operator is invalid''"
| "domain_error_display InvalidAlarmTarget = ascii ''alarm target is invalid''"
| "domain_error_display InvalidAlarmRuleName = ascii ''alarm rule name must not be empty''"
| "domain_error_display NonFiniteAlarmThreshold = ascii ''alarm threshold must be finite''"

subsection \<open>Actors and requests (context.rs)\<close>

record actor =
  actor_id :: rust_string
  permissions :: "rust_string set"

definition actor_new :: "rust_string \<Rightarrow> actor" where
  "actor_new i = \<lparr>actor_id = i, permissions = {}\<rparr>"

definition with_permission :: "actor \<Rightarrow> rust_string \<Rightarrow> actor" where
  "with_permission a p = a\<lparr>permissions := insert p (permissions a)\<rparr>"

definition has_permission :: "actor \<Rightarrow> rust_string \<Rightarrow> bool" where
  "has_permission a p \<longleftrightarrow> p \<in> permissions a"

record request_context =
  rc_request_id :: rust_string
  rc_actor :: actor
  rc_confirmed :: bool
  rc_timestamp :: u64

subsection \<open>Capabilities (capability.rs)\<close>

datatype operation_kind = Query | CommandOperation

datatype risk_level = LowRisk | MediumRisk | HighRisk

datatype confirmation_policy = ConfirmNever | ConfirmPolicy | ConfirmAlways

datatype audit_policy = AuditNotRequired | AuditRequired

record capability_descriptor =
  cap_name :: rust_string
  cap_kind :: operation_kind
  cap_risk :: risk_level
  cap_permission :: rust_string
  cap_confirmation :: confirmation_policy
  cap_audit :: audit_policy
  cap_idempotent :: bool

definition query_capability :: "string \<Rightarrow> risk_level \<Rightarrow> string \<Rightarrow> confirmation_policy \<Rightarrow> audit_policy \<Rightarrow> bool \<Rightarrow> capability_descriptor" where
  "query_capability n r p c a i =
     \<lparr>cap_name = ascii n, cap_kind = Query, cap_risk = r, cap_permission = ascii p,
      cap_confirmation = c, cap_audit = a, cap_idempotent = i\<rparr>"

text \<open>Every command of the catalogue is high risk, confirmed, audited and not idempotent.\<close>

definition command_capability :: "string \<Rightarrow> string \<Rightarrow> capability_descriptor" where
  "command_capability n p =
     \<lparr>cap_name = ascii n, cap_kind = CommandOperation, cap_risk = HighRisk, cap_permission = ascii p,
      cap_confirmation = ConfirmAlways, cap_audit = AuditRequired, cap_idempotent = False\<rparr>"

definition READ_POINT_CAPABILITY :: capability_descriptor where
  "READ_POINT_CAPABILITY =
     query_capability ''device.read_point'' LowRisk ''device.read'' ConfirmNever AuditNotRequired True"

definition WRITE_POINT_CAPABILITY :: capability_descriptor where
  "WRITE_POINT_CAPABILITY = command_capability ''device.write_point'' ''device.control''"

definition EXECUTE_RULE_CAPABILITY :: capability_descriptor where
  "EXECUTE_RULE_CAPABILITY = command_capability ''automation.rule.execute'' ''automation.rule.execute''"

definition MANAGE_RULE_CAPABILITY :: capability_descriptor where
  "MANAGE_RULE_CAPABILITY = command_capability ''automation.rule.manage'' ''automation.rule.manage''"

definition MANAGE_ROUTING_CAPABILITY :: capability_descriptor where
  "MANAGE_ROUTING_CAPABILITY =
     command_capability ''automation.routing.manage'' ''automation.routing.manage''"

definition MANAGE_INSTANCE_CAPABILITY :: capability_descriptor where
  "MANAGE_INSTANCE_CAPABILITY =
     command_capability ''automation.instance.manage'' ''automation.instance.manage''"

definition MANAGE_CHANNEL_CAPABILITY :: capability_descriptor where
  "MANAGE_CHANNEL_CAPABILITY = command_capability ''io.channel.manage'' ''io.channel.manage''"

definition RECONCILE_CHANNELS_CAPABILITY :: capability_descriptor where
  "RECONCILE_CHANNELS_CAPABILITY = command_capability ''io.channel.reconcile'' ''io.channel.manage''"

definition MANAGE_ALARM_RULE_CAPABILITY :: capability_descriptor where
  "MANAGE_ALARM_RULE_CAPABILITY = command_capability ''alarm.rule.manage'' ''alarm.rule.manage''"

definition RESOLVE_ALERT_CAPABILITY :: capability_descriptor where
  "RESOLVE_ALERT_CAPABILITY = command_capability ''alarm.alert.resolve'' ''alarm.alert.resolve''"

definition TASKS_LIST_CAPABILITY :: capability_descriptor where
  "TASKS_LIST_CAPABILITY =
     query_capability ''data_processing.tasks.list'' LowRisk ''data_processing.read'' ConfirmNever
       AuditNotRequired True"

definition PROCESSOR_HEALTH_CAPABILITY :: capability_descriptor where
  "PROCESSOR_HEALTH_CAPABILITY =
     query_capability ''data_processing.processors.health'' LowRisk ''data_processing.read'' ConfirmNever
       AuditNotRequired True"

definition PROCESS_DATA_CAPABILITY :: capability_descriptor where
  "PROCESS_DATA_CAPABILITY =
     query_capability ''data_processing.process'' MediumRisk ''data_processing.run'' ConfirmPolicy
       AuditRequired False"

definition capability_catalog :: "capability_descriptor list" where
  "capability_catalog =
     [READ_POINT_CAPABILITY, WRITE_POINT_CAPABILITY, EXECUTE_RULE_CAPABILITY, MANAGE_RULE_CAPABILITY,
      MANAGE_ROUTING_CAPABILITY, MANAGE_INSTANCE_CAPABILITY, MANAGE_CHANNEL_CAPABILITY,
      RECONCILE_CHANNELS_CAPABILITY, MANAGE_ALARM_RULE_CAPABILITY, RESOLVE_ALERT_CAPABILITY,
      TASKS_LIST_CAPABILITY, PROCESSOR_HEALTH_CAPABILITY, PROCESS_DATA_CAPABILITY]"

subsection \<open>Errors and the policy (error.rs, policy.rs)\<close>

text \<open>The constructors of \<open>ApplicationError\<close> that belong to data processing do not occur here.\<close>

datatype application_error =
    PermissionDenied rust_string rust_string
  | ConfirmationRequired rust_string
  | InvalidCommand domain_error
  | AuditUnavailable port_fault
  | PortFailure port_fault

fun application_error_display :: "application_error \<Rightarrow> rust_string" where
  "application_error_display (PermissionDenied c p) =
     ascii ''capability '' @ c @ ascii '' requires permission '' @ p"
| "application_error_display (ConfirmationRequired c) =
     ascii ''capability '' @ c @ ascii '' requires explicit confirmation''"
| "application_error_display (InvalidCommand e) = ascii ''invalid command: '' @ domain_error_display e"
| "application_error_display (AuditUnavailable e) =
     ascii ''mandatory audit unavailable: '' @ port_fault_display e"
| "application_error_display (PortFailure e) = ascii ''extension failure: '' @ port_fault_display e"

definition authorize :: "capability_descriptor \<Rightarrow> request_context \<Rightarrow> application_error + unit" where
  "authorize d ctx =
     (if \<not> has_permission (rc_actor ctx) (cap_permission d) then
        Inl (PermissionDenied (cap_name d) (cap_permission d))
      else if cap_confirmation d = ConfirmAlways \<and> \<not> rc_confirmed ctx then
        Inl (ConfirmationRequired (cap_name d))
      else Inr ())"

lemma authorize_ok_iff:
  "authorize d ctx = Inr () \<longleftrightarrow>
     cap_permission d \<in> permissions (rc_actor ctx) \<and>
     (cap_confirmation d = ConfirmAlways \<longrightarrow> rc_confirmed ctx)"
  by (auto simp: authorize_def has_permission_def)

lemma authorize_command_ok_iff:
  "authorize (command_capability n p) ctx = Inr () \<longleftrightarrow>
     ascii p \<in> permissions (rc_actor ctx) \<and> rc_confirmed ctx"
  by (simp add: authorize_ok_iff command_capability_def)

subsection \<open>Audit records (aether-ports/src/audit.rs) and accepted outcomes (acceptance.rs)\<close>

datatype audit_outcome = AuditRejected | AuditAttempted | AuditSucceeded | AuditFailed

record audit_record =
  ar_request_id :: rust_string
  ar_actor_id :: rust_string
  ar_capability :: rust_string
  ar_outcome :: audit_outcome
  ar_timestamp :: u64
  ar_detail :: "rust_string option"

type_synonym 's audit_sink = "audit_record \<Rightarrow> ('s, unit) port_call"

datatype completion_audit_status = CompletionRecorded | CompletionIncomplete port_fault

record 'r accepted_outcome =
  ao_receipt :: 'r
  ao_request_id :: rust_string
  ao_completion_audit :: completion_audit_status

definition outcome_recorded :: "'r \<Rightarrow> rust_string \<Rightarrow> 'r accepted_outcome" where
  "outcome_recorded r q =
     \<lparr>ao_receipt = r, ao_request_id = q, ao_completion_audit = CompletionRecorded\<rparr>"

definition outcome_audit_incomplete :: "'r \<Rightarrow> rust_string \<Rightarrow> port_fault \<Rightarrow> 'r accepted_outcome" where
  "outcome_audit_incomplete r q f =
     \<lparr>ao_receipt = r, ao_request_id = q, ao_completion_audit = CompletionIncomplete f\<rparr>"

text \<open>Handing a record to the sink; a failure becomes \<open>AuditUnavailable\<close>.\<close>

definition submit_audit ::
    "'s audit_sink \<Rightarrow> audit_record \<Rightarrow> 's \<Rightarrow> (application_error + unit) \<times> 's" where
  "submit_audit sink r s = apfst (map_sum AuditUnavailable id) (sink r s)"

definition audit_entry ::
    "request_context \<Rightarrow> capability_descriptor \<Rightarrow> audit_outcome \<Rightarrow> rust_string option \<Rightarrow> audit_record" where
  "audit_entry ctx d out detail =
     \<lparr>ar_request_id = rc_request_id ctx, ar_actor_id = actor_id (rc_actor ctx),
      ar_capability = cap_name d, ar_outcome = out, ar_timestamp = rc_timestamp ctx,
      ar_detail = detail\<rparr>"

text \<open>The \<open>?\<close> operator on calls that thread the environment.\<close>

definition try_bind ::
    "('s \<Rightarrow> ('e + 'a) \<times> 's) \<Rightarrow> ('a \<Rightarrow> 's \<Rightarrow> ('e + 'b) \<times> 's) \<Rightarrow> 's \<Rightarrow> ('e + 'b) \<times> 's" where
  "try_bind m f s = (case m s of (Inl e, s') \<Rightarrow> (Inl e, s') | (Inr a, s') \<Rightarrow> f a s')"

definition return_err :: "'e \<Rightarrow> 's \<Rightarrow> ('e + 'a) \<times> 's" where
  "return_err e s = (Inl e, s)"

text \<open>
  The \<open>match\<close> on the terminal audit of an accepted command, the same in every facade: a
  missing audit record degrades the outcome and never turns it into an error.
\<close>

definition accept_after_audit ::
    "'r \<Rightarrow> rust_string \<Rightarrow> (application_error + unit) \<times> 's \<Rightarrow>
      (application_error + 'r accepted_outcome) \<times> 's" where
  "accept_after_audit receipt q y =
     (case y of
        (Inr _, s) \<Rightarrow> (Inr (outcome_recorded receipt q), s)
      | (Inl (AuditUnavailable failure), s) \<Rightarrow> (Inr (outcome_audit_incomplete receipt q failure), s)
      | (Inl e, s) \<Rightarrow> (Inl e, s))"

subsection \<open>The in-memory sink (store-local/src/audit.rs)\<close>

record memory_audit_sink =
  mas_records :: "audit_record list"
  mas_poisoned :: bool

definition lock_error :: "string \<Rightarrow> port_fault" where
  "lock_error r = \<lparr>pf_kind = Permanent, pf_message = ascii r @ ascii '' lock was poisoned''\<rparr>"

definition memory_sink_new :: memory_audit_sink where
  "memory_sink_new = \<lparr>mas_records = [], mas_poisoned = False\<rparr>"

definition memory_sink_records :: "memory_audit_sink \<Rightarrow> port_fault + audit_record list" where
  "memory_sink_records s = (if mas_poisoned s then Inl (lock_error ''audit'') else Inr (mas_records s))"

definition memory_sink_record :: "memory_audit_sink audit_sink" where
  "memory_sink_record r s =
     (if mas_poisoned s then (Inl (lock_error ''audit''), s)
      else (Inr (), s\<lparr>mas_records := mas_records s @ [r]\<rparr>))"

subsection \<open>What every audited command promises\<close>

text \<open>
  The facades repeat one scheme around different ports: decide, announce, execute, conclude.
  \<open>audit_entries\<close> are the records a call may write, \<open>governed_run\<close> the scheme as a function of
  the decision, and \<open>governed\<close> its contract as the possible sequences of port calls.
\<close>

record 'r audit_entries =
  ae_rejected :: "application_error \<Rightarrow> audit_record"
  ae_attempted :: audit_record
  ae_succeeded :: "'r \<Rightarrow> audit_record"
  ae_failed :: "port_fault \<Rightarrow> audit_record"

definition conclude ::
    "'s audit_sink \<Rightarrow> 'r audit_entries \<Rightarrow> rust_string \<Rightarrow> port_fault + 'r \<Rightarrow> 's \<Rightarrow>
      (application_error + 'r accepted_outcome) \<times> 's" where
  "conclude sink A q result s =
     (case result of
        Inr r \<Rightarrow>
          (case sink (ae_succeeded A r) s of
             (Inr _, s') \<Rightarrow> (Inr (outcome_recorded r q), s')
           | (Inl f, s') \<Rightarrow> (Inr (outcome_audit_incomplete r q f), s'))
      | Inl e \<Rightarrow>
          (case sink (ae_failed A e) s of
             (Inr _, s') \<Rightarrow> (Inl (PortFailure e), s')
           | (Inl f, s') \<Rightarrow> (Inl (AuditUnavailable f), s')))"

definition governed_run ::
    "'s audit_sink \<Rightarrow> ('c \<Rightarrow> ('s, 'r) port_call) \<Rightarrow> 'r audit_entries \<Rightarrow> rust_string \<Rightarrow>
      application_error + 'c \<Rightarrow> 's \<Rightarrow> (application_error + 'r accepted_outcome) \<times> 's" where
  "governed_run sink exec A q decision s =
     (case decision of
        Inl e \<Rightarrow>
          (case sink (ae_rejected A e) s of
             (Inr _, s') \<Rightarrow> (Inl e, s')
           | (Inl f, s') \<Rightarrow> (Inl (AuditUnavailable f), s'))
      | Inr c \<Rightarrow>
          (case sink (ae_attempted A) s of
             (Inl f, s') \<Rightarrow> (Inl (AuditUnavailable f), s')
           | (Inr _, s') \<Rightarrow> (let (result, s'') = exec c s' in conclude sink A q result s'')))"

text \<open>How the code spells the steps of the scheme.\<close>

lemma try_bind_submit_audit:
  "try_bind (submit_audit sink r) g s =
     (case sink r s of (Inl f, s') \<Rightarrow> (Inl (AuditUnavailable f), s') | (Inr u, s') \<Rightarrow> g u s')"
  by (cases "sink r s"; cases "fst (sink r s)") (auto simp: try_bind_def submit_audit_def)

lemma reject_is_governed:
  assumes "rejected = ae_rejected A e"
  shows "try_bind (submit_audit sink rejected) (\<lambda>_. return_err e) s = governed_run sink exec A q (Inl e) s"
  unfolding assms
  by (cases "sink (ae_rejected A e) s"; cases "fst (sink (ae_rejected A e) s)")
    (auto simp: try_bind_submit_audit governed_run_def return_err_def)

lemma accept_after_submit:
  "accept_after_audit r q (submit_audit sink (ae_succeeded A r) s) = conclude sink A q (Inr r) s"
  by (cases "sink (ae_succeeded A r) s"; cases "fst (sink (ae_succeeded A r) s)")
    (auto simp: accept_after_audit_def submit_audit_def conclude_def)

lemma fail_after_submit:
  "try_bind (submit_audit sink (ae_failed A e)) (\<lambda>_. return_err (PortFailure e)) s =
     conclude sink A q (Inl e) s"
  by (cases "sink (ae_failed A e) s"; cases "fst (sink (ae_failed A e) s)")
    (auto simp: try_bind_submit_audit conclude_def return_err_def)

lemma execute_is_governed:
  assumes "attempted = ae_attempted A" and "\<And>r. succeeded r = ae_succeeded A r"
    and "\<And>e. failed e = ae_failed A e" and "\<And>s1. call s1 = exec c s1"
  shows "try_bind (submit_audit sink attempted)
     (\<lambda>_ s1. case call s1 of
         (Inr r, s2) \<Rightarrow> accept_after_audit r q (submit_audit sink (succeeded r) s2)
       | (Inl e, s2) \<Rightarrow>
           try_bind (submit_audit sink (failed e)) (\<lambda>_. return_err (PortFailure e)) s2) s =
   governed_run sink exec A q (Inr c) s"
  unfolding assms try_bind_submit_audit [of sink "ae_attempted A"] accept_after_submit
  by (auto simp: governed_run_def fail_after_submit [of _ _ _ _ q] split: prod.split sum.split)

datatype ('c, 'r) port_event =
    AuditCall audit_record "port_fault + unit"
  | ExecCall 'c "port_fault + 'r"

text \<open>
  Ports that log every call with its answer; the answers are arbitrary functions of the
  history.
\<close>

definition observed_sink ::
    "(('c, 'r) port_event list \<Rightarrow> audit_record \<Rightarrow> port_fault + unit) \<Rightarrow>
      ('c, 'r) port_event list audit_sink" where
  "observed_sink au r tr = (au tr r, tr @ [AuditCall r (au tr r)])"

definition observed_exec ::
    "(('c, 'r) port_event list \<Rightarrow> 'c \<Rightarrow> port_fault + 'r) \<Rightarrow>
      'c \<Rightarrow> (('c, 'r) port_event list, 'r) port_call" where
  "observed_exec ex c tr = (ex tr c, tr @ [ExecCall c (ex tr c)])"

inductive governed ::
    "'r audit_entries \<Rightarrow> rust_string \<Rightarrow> application_error + 'c \<Rightarrow>
      application_error + 'r accepted_outcome \<Rightarrow> ('c, 'r) port_event list \<Rightarrow> bool"
  for A :: "'r audit_entries" and q :: rust_string where
  governed_rejected:
    "governed A q (Inl e) (Inl e) [AuditCall (ae_rejected A e) (Inr ())]"
| governed_rejection_unaudited:
    "governed A q (Inl e) (Inl (AuditUnavailable f)) [AuditCall (ae_rejected A e) (Inl f)]"
| governed_not_attempted:
    "governed A q (Inr c) (Inl (AuditUnavailable f)) [AuditCall (ae_attempted A) (Inl f)]"
| governed_succeeded:
    "governed A q (Inr c) (Inr (outcome_recorded r q))
       [AuditCall (ae_attempted A) (Inr ()), ExecCall c (Inr r), AuditCall (ae_succeeded A r) (Inr ())]"
| governed_success_unaudited:
    "governed A q (Inr c) (Inr (outcome_audit_incomplete r q f))
       [AuditCall (ae_attempted A) (Inr ()), ExecCall c (Inr r), AuditCall (ae_succeeded A r) (Inl f)]"
| governed_failed:
    "governed A q (Inr c) (Inl (PortFailure e))
       [AuditCall (ae_attempted A) (Inr ()), ExecCall c (Inl e), AuditCall (ae_failed A e) (Inr ())]"
| governed_failure_unaudited:
    "governed A q (Inr c) (Inl (AuditUnavailable f))
       [AuditCall (ae_attempted A) (Inr ()), ExecCall c (Inl e), AuditCall (ae_failed A e) (Inl f)]"

inductive_cases governed_errE: "governed A q d (Inl e) tr"
inductive_cases governed_okE: "governed A q d (Inr a) tr"

lemma conclude_governed:
  "\<exists>ev. snd (conclude (observed_sink au) A q x tr) = tr @ [ev] \<and>
     governed A q (Inr c) (fst (conclude (observed_sink au) A q x tr))
       [AuditCall (ae_attempted A) (Inr ()), ExecCall c x, ev]"
proof (cases x)
  case (Inl e)
  then show ?thesis
    by (cases "au tr (ae_failed A e)")
      (auto simp: conclude_def observed_sink_def intro: governed.intros)
next
  case (Inr r)
  then show ?thesis
    by (cases "au tr (ae_succeeded A r)")
      (auto simp: conclude_def observed_sink_def intro: governed.intros)
qed

lemma governed_run_governed:
  "\<exists>tr'. snd (governed_run (observed_sink au) (observed_exec ex) A q d tr) = tr @ tr' \<and>
     governed A q d (fst (governed_run (observed_sink au) (observed_exec ex) A q d tr)) tr'"
proof (cases d)
  case (Inl e)
  then show ?thesis
    by (cases "au tr (ae_rejected A e)")
      (auto simp: governed_run_def observed_sink_def intro: governed.intros)
next
  case (Inr c)
  show ?thesis
  proof (cases "au tr (ae_attempted A)")
    case (Inl f)
    with \<open>d = Inr c\<close> show ?thesis
      by (auto simp: governed_run_def observed_sink_def intro: governed.intros)
  next
    case attempted: (Inr u)
    define tr1 where "tr1 = tr @ [AuditCall (ae_attempted A) (Inr ())]"
    have run: "governed_run (observed_sink au) (observed_exec ex) A q d tr =
        conclude (observed_sink au) A q (ex tr1 c) (tr1 @ [ExecCall c (ex tr1 c)])"
      using \<open>d = Inr c\<close> attempted
      by (simp add: governed_run_def observed_sink_def observed_exec_def tr1_def)
    show ?thesis
      using conclude_governed [of au A q "ex tr1 c" "tr1 @ [ExecCall c (ex tr1 c)]" c]
      unfolding run by (auto simp: tr1_def \<open>d = Inr c\<close>)
  qed
qed

definition authorized_decision ::
    "capability_descriptor \<Rightarrow> request_context \<Rightarrow> 'i \<Rightarrow> application_error + 'i" where
  "authorized_decision cap ctx i = map_sum id (\<lambda>_. i) (authorize cap ctx)"

lemma authorized_decision_ok: "authorized_decision cap ctx i = Inr c \<Longrightarrow> authorize cap ctx = Inr ()"
  by (cases "authorize cap ctx") (auto simp: authorized_decision_def)

fun exec_answers :: "('c, 'r) port_event list \<Rightarrow> (port_fault + 'r) list" where
  "exec_answers [] = []"
| "exec_answers (AuditCall _ _ # tr) = exec_answers tr"
| "exec_answers (ExecCall _ x # tr) = x # exec_answers tr"

definition announces :: "capability_descriptor \<Rightarrow> request_context \<Rightarrow> ('c, 'r) port_event list \<Rightarrow> bool" where
  "announces cap ctx tr =
     (case tr of
        AuditCall r (Inr _) # ExecCall _ _ # _ \<Rightarrow>
          ar_outcome r = AuditAttempted \<and> ar_request_id r = rc_request_id ctx \<and>
          ar_actor_id r = actor_id (rc_actor ctx) \<and> ar_capability r = cap_name cap
      | _ \<Rightarrow> False)"

text \<open>
  The port was called at most once.  If it was, the request was authorized and announced, and
  the answer is positive exactly when the port accepted; if it was not, the answer is an error.
\<close>

definition audited_call ::
    "capability_descriptor \<Rightarrow> request_context \<Rightarrow> application_error + 'r accepted_outcome \<Rightarrow>
      ('c, 'r) port_event list \<Rightarrow> bool" where
  "audited_call cap ctx res tr =
     (case exec_answers tr of
        [] \<Rightarrow> isl res
      | [x] \<Rightarrow> authorize cap ctx = Inr () \<and> announces cap ctx tr \<and>
          (case res of
             Inr a \<Rightarrow> x = Inr (ao_receipt a) \<and> ao_request_id a = rc_request_id ctx
           | Inl _ \<Rightarrow> isl x)
      | _ \<Rightarrow> False)"

text \<open>
  A facade for which the scheme is proved inherits its consequences: nothing executes without
  an authorized request whose announcement has been recorded, nothing executes twice, and the
  answer tells whether the port accepted the command.
\<close>

locale audited_facade =
  fixes run ::
      "(('c, 'r) port_event list \<Rightarrow> audit_record \<Rightarrow> port_fault + unit) \<Rightarrow>
        (('c, 'r) port_event list \<Rightarrow> 'c \<Rightarrow> port_fault + 'r) \<Rightarrow> request_context \<Rightarrow> 'i \<Rightarrow>
        ('c, 'r) port_event list \<Rightarrow>
        (application_error + 'r accepted_outcome) \<times> ('c, 'r) port_event list"
    and cap :: capability_descriptor
    and decide :: "request_context \<Rightarrow> 'i \<Rightarrow> application_error + 'c"
    and entries :: "request_context \<Rightarrow> 'i \<Rightarrow> 'r audit_entries"
  assumes refines:
      "run au ex ctx i tr =
         governed_run (observed_sink au) (observed_exec ex) (entries ctx i) (rc_request_id ctx)
           (decide ctx i) tr"
    and authorized: "decide ctx i = Inr c \<Longrightarrow> authorize cap ctx = Inr ()"
    and announced: "\<exists>d. ae_attempted (entries ctx i) = audit_entry ctx cap AuditAttempted d"
begin

lemma run_governed:
  assumes "run au ex ctx i [] = (res, tr)"
  shows "governed (entries ctx i) (rc_request_id ctx) (decide ctx i) res tr"
  using governed_run_governed [of au ex "entries ctx i" "rc_request_id ctx" "decide ctx i" "[]"] assms
  unfolding refines by auto

lemma executes_after_attempt:
  assumes "run au ex ctx i [] = (res, tr)" and "ExecCall c x \<in> set tr"
  shows "authorize cap ctx = Inr () \<and> decide ctx i = Inr c \<and>
    (\<exists>r y. tr = [AuditCall (ae_attempted (entries ctx i)) (Inr ()), ExecCall c x, AuditCall r y])"
  using run_governed [OF assms(1)] assms(2) authorized by cases auto

lemma run_audited: "case run au ex ctx i [] of (res, tr) \<Rightarrow> audited_call cap ctx res tr"
proof -
  obtain res tr where run: "run au ex ctx i [] = (res, tr)" by (cases "run au ex ctx i []")
  have "audited_call cap ctx res tr"
    using run_governed [OF run] authorized announced [of ctx i]
    by cases (auto simp: audited_call_def announces_def audit_entry_def outcome_recorded_def
        outcome_audit_incomplete_def)
  then show ?thesis by (simp add: run)
qed

end

text \<open>
  A sink whose log grows by exactly the records it acknowledges.  With a command that leaves
  the log alone, an audited call extends it by the story of the call.
\<close>

locale audit_log =
  fixes sink :: "'s audit_sink" and log :: "'s \<Rightarrow> audit_record list"
  assumes recorded: "sink r s = (Inr (), s') \<Longrightarrow> log s' = log s @ [r]"
    and refused: "sink r s = (Inl f, s') \<Longrightarrow> log s' = log s"
begin

lemma conclude_log:
  assumes "conclude sink A q x s = (res, s')"
  shows "(case res of
      Inr a \<Rightarrow> x = Inr (ao_receipt a) \<and> log s' = log s @
        (case ao_completion_audit a of CompletionRecorded \<Rightarrow> [ae_succeeded A (ao_receipt a)]
         | CompletionIncomplete _ \<Rightarrow> [])
    | Inl e \<Rightarrow> \<exists>f. x = Inl f \<and>
        (e = PortFailure f \<and> log s' = log s @ [ae_failed A f] \<or>
         (\<exists>g. e = AuditUnavailable g) \<and> log s' = log s))"
proof (cases x)
  case (Inl f)
  obtain y s1 where "sink (ae_failed A f) s = (y, s1)" by (cases "sink (ae_failed A f) s")
  then show ?thesis
    using assms Inl recorded refused by (cases y) (auto simp: conclude_def)
next
  case (Inr r)
  obtain y s1 where "sink (ae_succeeded A r) s = (y, s1)" by (cases "sink (ae_succeeded A r) s")
  then show ?thesis
    using assms Inr recorded refused
    by (cases y) (auto simp: conclude_def outcome_recorded_def outcome_audit_incomplete_def)
qed

lemma governed_run_log:
  assumes run: "governed_run sink exec A q d s = (res, s')"
    and quiet: "\<And>c s. log (snd (exec c s)) = log s"
  shows "(case res of
      Inr a \<Rightarrow> log s' = log s @ ae_attempted A #
        (case ao_completion_audit a of CompletionRecorded \<Rightarrow> [ae_succeeded A (ao_receipt a)]
         | CompletionIncomplete _ \<Rightarrow> [])
    | Inl (AuditUnavailable _) \<Rightarrow> True
    | Inl (PortFailure f) \<Rightarrow> d = Inl (PortFailure f) \<or> log s' = log s @ [ae_attempted A, ae_failed A f]
    | Inl e \<Rightarrow> d = Inl e \<and> log s' = log s @ [ae_rejected A e])"
proof (cases d)
  case (Inl e)
  obtain y s1 where "sink (ae_rejected A e) s = (y, s1)" by (cases "sink (ae_rejected A e) s")
  then show ?thesis
    using run Inl recorded by (cases y) (auto simp: governed_run_def split: application_error.splits)
next
  case (Inr c)
  obtain y s1 where first: "sink (ae_attempted A) s = (y, s1)" by (cases "sink (ae_attempted A) s")
  show ?thesis
  proof (cases y)
    case (Inl f)
    then show ?thesis using run Inr first by (auto simp: governed_run_def)
  next
    case attempted: (Inr u)
    obtain x s2 where exec: "exec c s1 = (x, s2)" by (cases "exec c s1")
    have log2: "log s2 = log s @ [ae_attempted A]"
      using quiet [of c s1] exec first attempted recorded by simp
    have "conclude sink A q x s2 = (res, s')"
      using run Inr first attempted exec by (simp add: governed_run_def)
    from conclude_log [OF this] show ?thesis
      by (cases res) (auto simp: log2)
  qed
qed

end

text \<open>A sink that accepts every record while it is healthy leaves no gap in the story.\<close>

locale reliable_audit_log = audit_log +
  fixes healthy :: "'s \<Rightarrow> bool"
  assumes accepts: "healthy s \<Longrightarrow> \<exists>s'. sink r s = (Inr (), s') \<and> healthy s'"
begin

lemma healthy_run_log:
  assumes run: "governed_run sink exec A q d s = (res, s')" and "healthy s"
    and quiet: "\<And>c s. log (snd (exec c s)) = log s" "\<And>c s. healthy s \<Longrightarrow> healthy (snd (exec c s))"
  shows "(case d of
      Inl e \<Rightarrow> res = Inl e \<and> log s' = log s @ [ae_rejected A e]
    | Inr c \<Rightarrow>
        (\<exists>r. res = Inr (outcome_recorded r q) \<and> log s' = log s @ [ae_attempted A, ae_succeeded A r]) \<or>
        (\<exists>f. res = Inl (PortFailure f) \<and> log s' = log s @ [ae_attempted A, ae_failed A f]))"
proof (cases d)
  case (Inl e)
  then show ?thesis
    using accepts [OF \<open>healthy s\<close>, of "ae_rejected A e"] run recorded by (auto simp: governed_run_def)
next
  case (Inr c)
  obtain s1 where first: "sink (ae_attempted A) s = (Inr (), s1)" "healthy s1"
    using accepts [OF \<open>healthy s\<close>] by blast
  obtain x s2 where exec: "exec c s1 = (x, s2)" by (cases "exec c s1")
  have s2: "log s2 = log s @ [ae_attempted A]" "healthy s2"
    using quiet(1) [of c s1] quiet(2) [of s1 c] first exec recorded by auto
  have concl: "conclude sink A q x s2 = (res, s')"
    using run Inr first exec by (simp add: governed_run_def)
  show ?thesis
  proof (cases x)
    case (Inl f)
    then show ?thesis
      using accepts [OF s2(2), of "ae_failed A f"] concl s2(1) recorded \<open>d = Inr c\<close>
      by (auto simp: conclude_def)
  next
    case (Inr r)
    then show ?thesis
      using accepts [OF s2(2), of "ae_succeeded A r"] concl s2(1) recorded \<open>d = Inr c\<close>
      by (auto simp: conclude_def)
  qed
qed

end

text \<open>The in-memory sink beside any other state.\<close>

definition beside :: "'a audit_sink \<Rightarrow> ('a \<times> 'd) audit_sink" where
  "beside sink r s = (case sink r (fst s) of (y, a) \<Rightarrow> (y, (a, snd s)))"

interpretation memory_log: reliable_audit_log
  "beside memory_sink_record" "\<lambda>s. mas_records (fst s)" "\<lambda>s. \<not> mas_poisoned (fst s)"
  by unfold_locales (auto simp: beside_def memory_sink_record_def split: if_splits)

end
