(* ===== verification/App_Control.thy ===== *)
theory App_Control
  imports App_Governance
begin

section \<open>Device control (aether-application/src/control.rs, edge.rs)\<close>

text \<open>
  The control facade: authorize, build the command, announce it to the audit sink, dispatch,
  and record how it ended.  The dispatcher and the sink are the ports the facade is built
  from.
\<close>

subsection \<open>The dispatcher port (aether-ports/src/control.rs)\<close>

record command_receipt =
  cr_command_id :: command_id
  cr_completed_at :: u64

record 's command_dispatcher =
  dispatch :: "control_command \<Rightarrow> ('s, command_receipt) port_call"
  dispatch_fenced :: "control_command \<Rightarrow> u64 \<Rightarrow> ('s, command_receipt) port_call"

text \<open>The trait's own \<open>dispatch_fenced\<close>, for dispatchers that cannot pin a topology.\<close>

definition default_dispatch_fenced :: "control_command \<Rightarrow> u64 \<Rightarrow> ('s, command_receipt) port_call" where
  "default_dispatch_fenced c fence s =
     (Inl \<lparr>pf_kind = Permanent,
           pf_message = ascii ''command dispatcher does not support topology-fenced dispatch''\<rparr>, s)"

subsection \<open>The facade\<close>

record 's control_application =
  ca_dispatcher :: "'s command_dispatcher"
  ca_audit :: "'s audit_sink"

definition control_detail ::
    "command_id \<Rightarrow> point_address \<Rightarrow> f64 \<Rightarrow> u64 option \<Rightarrow> rust_string option \<Rightarrow> rust_string" where
  "control_detail cid t v fence failure =
     ascii ''command_id='' @ hex_digits 32 (unat cid) @
     ascii ''; instance_id='' @ show_unsigned (pa_instance t) @
     ascii ''; point_kind='' @ point_kind_debug (pa_kind t) @
     ascii ''; point_id='' @ show_unsigned (pa_point t) @
     ascii ''; value='' @ f64_debug v @
     (case fence of None \<Rightarrow> [] | Some f \<Rightarrow> ascii ''; expected_topology_sequence='' @ show_unsigned f) @
     (case failure of None \<Rightarrow> [] | Some e \<Rightarrow> ascii ''; '' @ e)"

definition control_record_audit ::
    "'s control_application \<Rightarrow> request_context \<Rightarrow> command_id \<Rightarrow> point_address \<Rightarrow> f64 \<Rightarrow> u64 option \<Rightarrow>
      audit_outcome \<Rightarrow> rust_string option \<Rightarrow> 's \<Rightarrow> (application_error + unit) \<times> 's" where
  "control_record_audit app ctx cid t v fence out failure =
     submit_audit (ca_audit app)
       (audit_entry ctx WRITE_POINT_CAPABILITY out (Some (control_detail cid t v fence failure)))"

definition saturating_add_u64 :: "u64 \<Rightarrow> u64 \<Rightarrow> u64" where
  "saturating_add_u64 a b = (if a > - 1 - b then - 1 else a + b)"

definition write_point_inner ::
    "'s control_application \<Rightarrow> request_context \<Rightarrow> command_id \<Rightarrow> point_address \<Rightarrow> f64 \<Rightarrow> u64 option \<Rightarrow>
      's \<Rightarrow> (application_error + command_receipt accepted_outcome) \<times> 's" where
  "write_point_inner app ctx cid t v fence s =
     (case authorize WRITE_POINT_CAPABILITY ctx of
        Inl e \<Rightarrow>
          try_bind
            (control_record_audit app ctx cid t v fence AuditRejected (Some (application_error_display e)))
            (\<lambda>_. return_err e) s
      | Inr _ \<Rightarrow>
          let expires_at = saturating_add_u64 (rc_timestamp ctx) DEFAULT_COMMAND_TTL_MS in
          case control_command_new cid t v (rc_timestamp ctx) expires_at of
            Inl e \<Rightarrow>
              try_bind
                (control_record_audit app ctx cid t v fence AuditRejected (Some (domain_error_display e)))
                (\<lambda>_. return_err (InvalidCommand e)) s
          | Inr cmd \<Rightarrow>
              try_bind (control_record_audit app ctx cid t v fence AuditAttempted None)
                (\<lambda>_ s1.
                   case (case fence of
                           Some f \<Rightarrow> dispatch_fenced (ca_dispatcher app) cmd f s1
                         | None \<Rightarrow> dispatch (ca_dispatcher app) cmd s1) of
                     (Inr receipt, s2) \<Rightarrow>
                       accept_after_audit receipt (rc_request_id ctx)
                         (control_record_audit app ctx cid t v fence AuditSucceeded None s2)
                   | (Inl e, s2) \<Rightarrow>
                       try_bind
                         (control_record_audit app ctx cid t v fence AuditFailed (Some (port_fault_display e)))
                         (\<lambda>_. return_err (PortFailure e)) s2) s)"

definition write_point ::
    "'s control_application \<Rightarrow> request_context \<Rightarrow> command_id \<Rightarrow> point_address \<Rightarrow> f64 \<Rightarrow> 's \<Rightarrow>
      (application_error + command_receipt accepted_outcome) \<times> 's" where
  "write_point app ctx cid t v = write_point_inner app ctx cid t v None"

definition write_point_fenced ::
    "'s control_application \<Rightarrow> request_context \<Rightarrow> command_id \<Rightarrow> point_address \<Rightarrow> f64 \<Rightarrow> u64 \<Rightarrow> 's \<Rightarrow>
      (application_error + command_receipt accepted_outcome) \<times> 's" where
  "write_point_fenced app ctx cid t v fence = write_point_inner app ctx cid t v (Some fence)"

subsection \<open>The edge facade (edge.rs)\<close>

text \<open>The sample a live-state port returns is not inspected and stays a parameter type.\<close>

record ('s, 'p) edge_application =
  ea_live_state :: "point_address \<Rightarrow> ('s, 'p option) port_call"
  ea_control :: "'s control_application"

definition edge_application_new ::
    "(point_address \<Rightarrow> ('s, 'p option) port_call) \<Rightarrow> 's command_dispatcher \<Rightarrow> 's audit_sink \<Rightarrow>
      ('s, 'p) edge_application" where
  "edge_application_new live disp audit =
     \<lparr>ea_live_state = live, ea_control = \<lparr>ca_dispatcher = disp, ca_audit = audit\<rparr>\<rparr>"

definition edge_read_point ::
    "('s, 'p) edge_application \<Rightarrow> request_context \<Rightarrow> point_address \<Rightarrow> 's \<Rightarrow>
      (application_error + 'p option) \<times> 's" where
  "edge_read_point app ctx a s =
     (case authorize READ_POINT_CAPABILITY ctx of
        Inl e \<Rightarrow> (Inl e, s)
      | Inr _ \<Rightarrow> apfst (map_sum PortFailure id) (ea_live_state app a s))"

definition edge_write_point ::
    "('s, 'p) edge_application \<Rightarrow> request_context \<Rightarrow> command_id \<Rightarrow> point_address \<Rightarrow> f64 \<Rightarrow> 's \<Rightarrow>
      (application_error + command_receipt accepted_outcome) \<times> 's" where
  "edge_write_point app = write_point (ea_control app)"

subsection \<open>The facade follows the audited scheme\<close>

definition control_decide ::
    "request_context \<Rightarrow> command_id \<times> point_address \<times> f64 \<times> u64 option \<Rightarrow>
      application_error + control_command \<times> u64 option" where
  "control_decide ctx i =
     (case i of (cid, t, v, fence) \<Rightarrow>
        case authorize WRITE_POINT_CAPABILITY ctx of
          Inl e \<Rightarrow> Inl e
        | Inr _ \<Rightarrow>
            map_sum InvalidCommand (\<lambda>c. (c, fence))
              (control_command_new cid t v (rc_timestamp ctx)
                (saturating_add_u64 (rc_timestamp ctx) DEFAULT_COMMAND_TTL_MS)))"

definition control_entries ::
    "request_context \<Rightarrow> command_id \<times> point_address \<times> f64 \<times> u64 option \<Rightarrow> command_receipt audit_entries" where
  "control_entries ctx i =
     (case i of (cid, t, v, fence) \<Rightarrow>
        let entry = (\<lambda>out failure. audit_entry ctx WRITE_POINT_CAPABILITY out
                       (Some (control_detail cid t v fence failure))) in
        \<lparr>ae_rejected = (\<lambda>e. entry AuditRejected
            (Some (case e of InvalidCommand d \<Rightarrow> domain_error_display d | _ \<Rightarrow> application_error_display e))),
         ae_attempted = entry AuditAttempted None,
         ae_succeeded = (\<lambda>_. entry AuditSucceeded None),
         ae_failed = (\<lambda>e. entry AuditFailed (Some (port_fault_display e)))\<rparr>)"

definition dispatch_command ::
    "'s command_dispatcher \<Rightarrow> control_command \<times> u64 option \<Rightarrow> ('s, command_receipt) port_call" where
  "dispatch_command d cf =
     (case cf of (c, None) \<Rightarrow> dispatch d c | (c, Some fence) \<Rightarrow> dispatch_fenced d c fence)"

lemma authorize_err_cases:
  "authorize d ctx = Inl e \<Longrightarrow>
     e = PermissionDenied (cap_name d) (cap_permission d) \<or> e = ConfirmationRequired (cap_name d)"
  by (auto simp: authorize_def split: if_splits)

lemma write_point_inner_governed:
  "write_point_inner app ctx cid t v fence s =
     governed_run (ca_audit app) (dispatch_command (ca_dispatcher app))
       (control_entries ctx (cid, t, v, fence)) (rc_request_id ctx)
       (control_decide ctx (cid, t, v, fence)) s"
  (is "?run = governed_run ?sink ?exec ?A ?q ?d s")
proof -
  let ?entry = "\<lambda>out failure. audit_entry ctx WRITE_POINT_CAPABILITY out
    (Some (control_detail cid t v fence failure))"
  note [simp] = write_point_inner_def control_record_audit_def control_decide_def
  show ?thesis
  proof (cases "authorize WRITE_POINT_CAPABILITY ctx")
    case (Inl e)
    then have "?entry AuditRejected (Some (application_error_display e)) = ae_rejected ?A e"
      using authorize_err_cases [OF Inl] by (auto simp: control_entries_def)
    then show ?thesis using Inl by (simp add: reject_is_governed [OF refl])
  next
    case ok: (Inr u)
    let ?cmd = "control_command_new cid t v (rc_timestamp ctx)
      (saturating_add_u64 (rc_timestamp ctx) DEFAULT_COMMAND_TTL_MS)"
    show ?thesis
    proof (cases ?cmd)
      case (Inl e)
      have "?entry AuditRejected (Some (domain_error_display e)) = ae_rejected ?A (InvalidCommand e)"
        by (simp add: control_entries_def)
      then show ?thesis using ok Inl by (simp add: reject_is_governed [OF refl])
    next
      case (Inr cmd)
      show ?thesis
        unfolding write_point_inner_def control_record_audit_def control_decide_def
        by (simp add: ok Inr,
            rule execute_is_governed) (auto simp: control_entries_def dispatch_command_def split: option.split)
    qed
  qed
qed

definition observed_control ::
    "((control_command \<times> u64 option, command_receipt) port_event list \<Rightarrow> audit_record \<Rightarrow> port_fault + unit) \<Rightarrow>
      ((control_command \<times> u64 option, command_receipt) port_event list \<Rightarrow> control_command \<times> u64 option \<Rightarrow>
        port_fault + command_receipt) \<Rightarrow>
      (control_command \<times> u64 option, command_receipt) port_event list control_application" where
  "observed_control au ex =
     \<lparr>ca_dispatcher = \<lparr>dispatch = (\<lambda>c. observed_exec ex (c, None)),
                       dispatch_fenced = (\<lambda>c f. observed_exec ex (c, Some f))\<rparr>,
      ca_audit = observed_sink au\<rparr>"

lemma observed_dispatch: "dispatch_command (ca_dispatcher (observed_control au ex)) = observed_exec ex"
  by (auto simp: dispatch_command_def observed_control_def fun_eq_iff split: option.split)

lemma control_decide_ok:
  "control_decide ctx (cid, t, v, fence) = Inr (cmd, f) \<longleftrightarrow>
     authorize WRITE_POINT_CAPABILITY ctx = Inr () \<and> f = fence \<and>
     control_command_new cid t v (rc_timestamp ctx)
       (saturating_add_u64 (rc_timestamp ctx) DEFAULT_COMMAND_TTL_MS) = Inr cmd"
  by (cases "authorize WRITE_POINT_CAPABILITY ctx";
      cases "control_command_new cid t v (rc_timestamp ctx)
        (saturating_add_u64 (rc_timestamp ctx) DEFAULT_COMMAND_TTL_MS)")
    (auto simp: control_decide_def)

interpretation control: audited_facade
  "\<lambda>au ex ctx (cid, t, v, fence). write_point_inner (observed_control au ex) ctx cid t v fence"
  WRITE_POINT_CAPABILITY control_decide control_entries
proof unfold_locales
  fix au ex ctx i tr
  show "(case i of (cid, t, v, fence) \<Rightarrow> write_point_inner (observed_control au ex) ctx cid t v fence) tr =
      governed_run (observed_sink au) (observed_exec ex) (control_entries ctx i) (rc_request_id ctx)
        (control_decide ctx i) tr"
    by (cases i) (simp add: write_point_inner_governed observed_dispatch, simp add: observed_control_def)
next
  fix ctx i c
  assume "control_decide ctx i = Inr c"
  then show "authorize WRITE_POINT_CAPABILITY ctx = Inr ()"
    by (cases i; cases c) (auto simp: control_decide_ok)
next
  fix ctx i
  show "\<exists>d. ae_attempted (control_entries ctx i) = audit_entry ctx WRITE_POINT_CAPABILITY AuditAttempted d"
    by (cases i) (auto simp: control_entries_def)
qed

subsection \<open>Properties\<close>

text \<open>
  C38: A command reaches the dispatcher only for an actor with the control permission whose
  request is confirmed, with a finite value, a writable target and an open validity window.
  It is preceded immediately by a successfully recorded announcement naming the command and
  is followed by exactly one terminal audit call, so it is never dispatched twice.  This
  holds for the fenced and the unfenced operation, whatever the ports answer.
\<close>

theorem dispatch_needs_audited_authorization:
  assumes "write_point_inner (observed_control au ex) ctx cid t v fence [] = (res, tr)"
    and "ExecCall (cmd, f) x \<in> set tr"
  shows "ascii ''device.control'' \<in> permissions (rc_actor ctx) \<and> rc_confirmed ctx \<and>
    is_writable (pa_kind t) \<and> f64_is_finite v \<and> rc_timestamp ctx < cc_expires_at cmd \<and>
    cc_id cmd = cid \<and> cc_target cmd = t \<and> cc_value cmd = v \<and> f = fence \<and>
    (\<exists>r y. tr =
       [AuditCall (audit_entry ctx WRITE_POINT_CAPABILITY AuditAttempted
          (Some (control_detail cid t v fence None))) (Inr ()),
        ExecCall (cmd, f) x, AuditCall r y])"
proof -
  have "authorize WRITE_POINT_CAPABILITY ctx = Inr () \<and>
      control_decide ctx (cid, t, v, fence) = Inr (cmd, f) \<and>
      (\<exists>r y. tr = [AuditCall (ae_attempted (control_entries ctx (cid, t, v, fence))) (Inr ()),
        ExecCall (cmd, f) x, AuditCall r y])"
    using control.executes_after_attempt [of au ex ctx "(cid, t, v, fence)"] assms by simp
  then show ?thesis
    by (auto simp: control_decide_ok control_command_new_def WRITE_POINT_CAPABILITY_def control_entries_def
        authorize_command_ok_iff not_le split: if_splits)
qed

theorem dispatch_needs_audited_authorization_witness:
  "let ctx = \<lparr>rc_request_id = ascii ''r-1'', rc_actor = with_permission (actor_new (ascii ''op'')) (ascii ''device.control''),
         rc_confirmed = True, rc_timestamp = 1000\<rparr>;
       t = \<lparr>pa_instance = 4, pa_kind = Action, pa_point = 9\<rparr>;
       receipt = \<lparr>cr_command_id = 7, cr_completed_at = 1001\<rparr>;
       cmd = \<lparr>cc_id = 7, cc_target = t, cc_value = 0x3FF0000000000000, cc_issued_at = 1000,
              cc_expires_at = saturating_add_u64 1000 DEFAULT_COMMAND_TTL_MS\<rparr>;
       tr = snd (write_point_inner (observed_control (\<lambda>_ _. Inr ()) (\<lambda>_ _. Inr receipt)) ctx 7 t
              0x3FF0000000000000 (Some 3) [])
   in ExecCall (cmd, Some 3) (Inr receipt) \<in> set tr \<and> length tr = 3 \<and> 1000 < cc_expires_at cmd"
proof -
  define ctx where "ctx = \<lparr>rc_request_id = ascii ''r-1'',
    rc_actor = with_permission (actor_new (ascii ''op'')) (ascii ''device.control''),
    rc_confirmed = True, rc_timestamp = 1000\<rparr>"
  define t where "t = \<lparr>pa_instance = 4, pa_kind = Action, pa_point = 9\<rparr>"
  define receipt where "receipt = \<lparr>cr_command_id = 7, cr_completed_at = 1001\<rparr>"
  define cmd where "cmd = \<lparr>cc_id = 7, cc_target = t, cc_value = 0x3FF0000000000000, cc_issued_at = 1000,
    cc_expires_at = saturating_add_u64 1000 DEFAULT_COMMAND_TTL_MS\<rparr>"
  let ?app = "observed_control (\<lambda>_ _. Inr ()) (\<lambda>_ _. Inr receipt)"
  obtain res tr where run: "write_point_inner ?app ctx 7 t 0x3FF0000000000000 (Some 3) [] = (res, tr)"
    by (cases "write_point_inner ?app ctx 7 t 0x3FF0000000000000 (Some 3) []")
  have "control_decide ctx (7, t, 0x3FF0000000000000, Some 3) = Inr (cmd, Some 3)"
    by (simp add: control_decide_ok ctx_def t_def cmd_def WRITE_POINT_CAPABILITY_def authorize_command_ok_iff
        with_permission_def control_command_new_def is_writable_def f64_class_defs saturating_add_u64_def
        DEFAULT_COMMAND_TTL_MS_def)
  then have exec: "ExecCall (cmd, Some 3) (Inr receipt) \<in> set tr"
    using run by (auto simp: write_point_inner_governed dispatch_command_def governed_run_def conclude_def
        observed_control_def observed_sink_def observed_exec_def)
  from dispatch_needs_audited_authorization [OF run exec] exec run
  show ?thesis
    by (auto simp: Let_def ctx_def t_def receipt_def cmd_def)
qed

text \<open>
  C39: On a healthy in-memory sink that the dispatcher does not touch, the log after a write
  is the log before it extended by the story of the call: one rejection, or an announcement
  followed by the success or the failure.  The answer is the accepted outcome with a recorded
  completion audit, the port's error, or the reason of the rejection, accordingly.
\<close>

theorem memory_log_tells_the_outcome:
  assumes "\<not> mas_poisoned (fst s)"
    and "\<And>c s. fst (snd (dispatch_command d c s)) = fst s"
    and "write_point_inner \<lparr>ca_dispatcher = d, ca_audit = beside memory_sink_record\<rparr> ctx cid t v fence s =
      (res, s')"
  shows "let entry = (\<lambda>out failure. audit_entry ctx WRITE_POINT_CAPABILITY out
            (Some (control_detail cid t v fence failure)));
          before = mas_records (fst s); after = mas_records (fst s') in
    case res of
      Inr a \<Rightarrow> ao_completion_audit a = CompletionRecorded \<and> ao_request_id a = rc_request_id ctx \<and>
        after = before @ [entry AuditAttempted None, entry AuditSucceeded None]
    | Inl (PortFailure f) \<Rightarrow>
        after = before @ [entry AuditAttempted None, entry AuditFailed (Some (port_fault_display f))]
    | Inl e \<Rightarrow> control_decide ctx (cid, t, v, fence) = Inl e \<and>
        after = before @ [ae_rejected (control_entries ctx (cid, t, v, fence)) e]"
proof -
  let ?A = "control_entries ctx (cid, t, v, fence)"
  have decided: "control_decide ctx (cid, t, v, fence) \<noteq> Inl (PortFailure f)" for f
    using authorize_err_cases [of WRITE_POINT_CAPABILITY ctx]
    by (auto simp: control_decide_def map_sum_def split: sum.splits)
  have entries: "ae_attempted ?A = audit_entry ctx WRITE_POINT_CAPABILITY AuditAttempted
        (Some (control_detail cid t v fence None))"
      "ae_succeeded ?A r = audit_entry ctx WRITE_POINT_CAPABILITY AuditSucceeded
        (Some (control_detail cid t v fence None))"
      "ae_failed ?A f = audit_entry ctx WRITE_POINT_CAPABILITY AuditFailed
        (Some (control_detail cid t v fence (Some (port_fault_display f))))" for r f
    by (simp_all add: control_entries_def)
  have "governed_run (beside memory_sink_record) (dispatch_command d) ?A (rc_request_id ctx)
      (control_decide ctx (cid, t, v, fence)) s = (res, s')"
    using assms(3) by (simp add: write_point_inner_governed)
  from memory_log.healthy_run_log [OF this assms(1)] assms(2) decided show ?thesis
    by (auto simp: entries outcome_recorded_def Let_def split: sum.splits application_error.splits)
qed

theorem memory_log_tells_the_outcome_witness:
  "let d = \<lparr>dispatch = (\<lambda>c s. (Inr \<lparr>cr_command_id = cc_id c, cr_completed_at = 8\<rparr>, (fst s, c # snd s))),
            dispatch_fenced = default_dispatch_fenced\<rparr>;
       ctx = \<lparr>rc_request_id = ascii ''r-1'', rc_actor = actor_new (ascii ''op''), rc_confirmed = True,
              rc_timestamp = 5\<rparr>;
       t = \<lparr>pa_instance = 1, pa_kind = Action, pa_point = 2\<rparr>;
       (res, s') = write_point_inner \<lparr>ca_dispatcher = d, ca_audit = beside memory_sink_record\<rparr> ctx 7 t 0 None
                     (memory_sink_new, [])
   in res = Inl (PermissionDenied (ascii ''device.write_point'') (ascii ''device.control'')) \<and>
      length (mas_records (fst s')) = 1 \<and> snd s' = []"
proof -
  define d :: "(memory_audit_sink \<times> control_command list) command_dispatcher" where
    "d = \<lparr>dispatch = (\<lambda>c s. (Inr \<lparr>cr_command_id = cc_id c, cr_completed_at = 8\<rparr>, (fst s, c # snd s))),
          dispatch_fenced = default_dispatch_fenced\<rparr>"
  define ctx where "ctx = \<lparr>rc_request_id = ascii ''r-1'', rc_actor = actor_new (ascii ''op''),
    rc_confirmed = True, rc_timestamp = 5\<rparr>"
  define t where "t = \<lparr>pa_instance = 1, pa_kind = Action, pa_point = 2\<rparr>"
  let ?app = "\<lparr>ca_dispatcher = d, ca_audit = beside memory_sink_record\<rparr>"
  obtain res s' where run: "write_point_inner ?app ctx 7 t 0 None (memory_sink_new, []) = (res, s')"
    by (cases "write_point_inner ?app ctx 7 t 0 None (memory_sink_new, [])")
  have quiet: "fst (snd (dispatch_command d c s)) = fst s" for c s
    by (cases c) (simp add: dispatch_command_def d_def default_dispatch_fenced_def split: option.split)
  have "res = Inl (PermissionDenied (ascii ''device.write_point'') (ascii ''device.control'')) \<and> snd s' = []"
    using run by (auto simp: write_point_inner_def try_bind_submit_audit control_record_audit_def authorize_def
        has_permission_def ctx_def actor_new_def WRITE_POINT_CAPABILITY_def command_capability_def
        beside_def memory_sink_record_def memory_sink_new_def return_err_def)
  with memory_log_tells_the_outcome [OF _ quiet run] run show ?thesis
    by (simp add: Let_def d_def ctx_def t_def memory_sink_new_def)
qed

end
