(* ===== verification/App_Facades.thy ===== *)
theory App_Facades
  imports App_Control
begin

section \<open>The other audited facades (aether-application/src)\<close>

text \<open>
  Manual rule execution, alert resolution, channel reconciliation and the mutation of
  measurement and action routes.  Each facade is built from one executing port and the audit
  sink; identifiers are their words.
\<close>

subsection \<open>Rule execution (rule_execution.rs)\<close>

record rule_execution_receipt =
  rer_rule_id :: u64
  rer_completed_at :: u64
  rer_actions_attempted :: u32
  rer_actions_succeeded :: u32

definition rule_execution_entry ::
    "request_context \<Rightarrow> u64 \<Rightarrow> audit_outcome \<Rightarrow> rust_string option \<Rightarrow> audit_record" where
  "rule_execution_entry ctx rule out failure =
     audit_entry ctx EXECUTE_RULE_CAPABILITY out
       (Some (case failure of
          None \<Rightarrow> ascii ''rule_id='' @ show_unsigned rule
        | Some f \<Rightarrow> ascii ''rule_id='' @ show_unsigned rule @ ascii ''; '' @ f))"

definition execute_rule ::
    "(u64 \<Rightarrow> ('s, rule_execution_receipt) port_call) \<Rightarrow> 's audit_sink \<Rightarrow> request_context \<Rightarrow> u64 \<Rightarrow> 's \<Rightarrow>
      (application_error + rule_execution_receipt accepted_outcome) \<times> 's" where
  "execute_rule executor sink ctx rule s =
     (let record_audit = (\<lambda>out failure. submit_audit sink (rule_execution_entry ctx rule out failure)) in
      case authorize EXECUTE_RULE_CAPABILITY ctx of
        Inl e \<Rightarrow>
          try_bind (record_audit AuditRejected (Some (application_error_display e))) (\<lambda>_. return_err e) s
      | Inr _ \<Rightarrow>
          try_bind (record_audit AuditAttempted None)
            (\<lambda>_ s1. case executor rule s1 of
                (Inr receipt, s2) \<Rightarrow>
                  accept_after_audit receipt (rc_request_id ctx)
                    (record_audit AuditSucceeded
                      (Some (ascii ''actions_attempted='' @ show_unsigned (rer_actions_attempted receipt) @
                             ascii ''; actions_succeeded='' @ show_unsigned (rer_actions_succeeded receipt))) s2)
              | (Inl e, s2) \<Rightarrow>
                  try_bind (record_audit AuditFailed (Some (port_fault_display e)))
                    (\<lambda>_. return_err (PortFailure e)) s2) s)"

subsection \<open>Alert resolution (alert_resolution.rs)\<close>

record alert_resolution_receipt =
  arr_alert_id :: u64
  arr_rule_id :: u64
  arr_resolved_at :: u64

definition alert_resolution_entry ::
    "request_context \<Rightarrow> u64 \<Rightarrow> audit_outcome \<Rightarrow> rust_string option \<Rightarrow> audit_record" where
  "alert_resolution_entry ctx alert out failure =
     audit_entry ctx RESOLVE_ALERT_CAPABILITY out
       (Some (case failure of
          None \<Rightarrow> ascii ''alert_id='' @ show_unsigned alert @ ascii ''; manual_resolution=true''
        | Some f \<Rightarrow>
            ascii ''alert_id='' @ show_unsigned alert @ ascii ''; manual_resolution=true; '' @ f))"

definition resolve_alert ::
    "(u64 \<Rightarrow> ('s, alert_resolution_receipt) port_call) \<Rightarrow> 's audit_sink \<Rightarrow> request_context \<Rightarrow> u64 \<Rightarrow> 's \<Rightarrow>
      (application_error + alert_resolution_receipt accepted_outcome) \<times> 's" where
  "resolve_alert resolver sink ctx alert s =
     (let record_audit = (\<lambda>out failure. submit_audit sink (alert_resolution_entry ctx alert out failure)) in
      case authorize RESOLVE_ALERT_CAPABILITY ctx of
        Inl e \<Rightarrow>
          try_bind (record_audit AuditRejected (Some (application_error_display e))) (\<lambda>_. return_err e) s
      | Inr _ \<Rightarrow>
          try_bind (record_audit AuditAttempted None)
            (\<lambda>_ s1. case resolver alert s1 of
                (Inr receipt, s2) \<Rightarrow>
                  accept_after_audit receipt (rc_request_id ctx) (record_audit AuditSucceeded None s2)
              | (Inl e, s2) \<Rightarrow>
                  try_bind (record_audit AuditFailed (Some (port_fault_display e)))
                    (\<lambda>_. return_err (PortFailure e)) s2) s)"

subsection \<open>Channel reconciliation (channel_reconciliation.rs, aether-ports/src/channel.rs)\<close>

datatype channel_runtime_projection = Stopped | ActivationPending | Active | Degraded | Removed

definition projection_reconciliation_required :: "channel_runtime_projection \<Rightarrow> bool" where
  "projection_reconciliation_required p \<longleftrightarrow> p = ActivationPending \<or> p = Degraded"

datatype channel_reconciliation_scope = ScopeAll | ScopeOne u32

datatype channel_desired_state_observation =
    DesiredPresent u64 bool
  | DesiredAbsent "u64 option"

record channel_reconciliation_item =
  cri_channel_id :: u32
  cri_desired :: channel_desired_state_observation
  cri_projection :: channel_runtime_projection

record channel_reconciliation_receipt =
  crr_scope :: channel_reconciliation_scope
  crr_items :: "channel_reconciliation_item list"

definition reconciliation_receipt_new ::
    "channel_reconciliation_scope \<Rightarrow> channel_reconciliation_item list \<Rightarrow> channel_reconciliation_receipt" where
  "reconciliation_receipt_new sc items = \<lparr>crr_scope = sc, crr_items = sort_key cri_channel_id items\<rparr>"

definition degraded_count :: "channel_reconciliation_receipt \<Rightarrow> nat" where
  "degraded_count r = length (filter (\<lambda>i. cri_projection i = Degraded) (crr_items r))"

definition receipt_reconciliation_required :: "channel_reconciliation_receipt \<Rightarrow> bool" where
  "receipt_reconciliation_required r \<longleftrightarrow>
     list_ex (\<lambda>i. projection_reconciliation_required (cri_projection i)) (crr_items r)"

fun scope_audit_detail :: "channel_reconciliation_scope \<Rightarrow> rust_string" where
  "scope_audit_detail ScopeAll = ascii ''scope=all''"
| "scope_audit_detail (ScopeOne c) = ascii ''scope=one; channel_id='' @ show_unsigned c"

definition reconciliation_entry ::
    "request_context \<Rightarrow> rust_string \<Rightarrow> audit_outcome \<Rightarrow> rust_string option \<Rightarrow> audit_record" where
  "reconciliation_entry ctx scope_detail out failure =
     audit_entry ctx RECONCILE_CHANNELS_CAPABILITY out
       (Some (case failure of None \<Rightarrow> scope_detail | Some f \<Rightarrow> scope_detail @ ascii ''; '' @ f))"

definition completion_detail :: "rust_string \<Rightarrow> channel_reconciliation_receipt \<Rightarrow> rust_string" where
  "completion_detail scope_detail r =
     scope_detail @ ascii ''; item_count='' @ dec_digits (length (crr_items r)) @
     ascii ''; degraded_count='' @ dec_digits (degraded_count r) @
     ascii ''; reconciliation_required='' @ show_bool (receipt_reconciliation_required r)"

definition reconcile_channels ::
    "(channel_reconciliation_scope \<Rightarrow> ('s, channel_reconciliation_receipt) port_call) \<Rightarrow> 's audit_sink \<Rightarrow>
      request_context \<Rightarrow> channel_reconciliation_scope \<Rightarrow> 's \<Rightarrow>
      (application_error + channel_reconciliation_receipt accepted_outcome) \<times> 's" where
  "reconcile_channels reconciler sink ctx sc s =
     (let scope_detail = scope_audit_detail sc;
          record_audit = (\<lambda>detail out failure. submit_audit sink (reconciliation_entry ctx detail out failure)) in
      case authorize RECONCILE_CHANNELS_CAPABILITY ctx of
        Inl e \<Rightarrow>
          try_bind (record_audit scope_detail AuditRejected (Some (application_error_display e)))
            (\<lambda>_. return_err e) s
      | Inr _ \<Rightarrow>
          try_bind (record_audit scope_detail AuditAttempted None)
            (\<lambda>_ s1. case reconciler sc s1 of
                (Inr receipt, s2) \<Rightarrow>
                  accept_after_audit receipt (rc_request_id ctx)
                    (record_audit (completion_detail scope_detail receipt) AuditSucceeded None s2)
              | (Inl e, s2) \<Rightarrow>
                  try_bind
                    (record_audit scope_detail AuditFailed
                      (Some (ascii ''port_error_kind='' @ port_error_debug (pf_kind e))))
                    (\<lambda>_. return_err (PortFailure e)) s2) s)"

subsection \<open>Route mutations (measurement_routing.rs, action_routing.rs, aether-ports/src/automation.rs)\<close>

text \<open>
  The measurement and the action plane have the same commands over different addresses.  A
  measurement command carries the expected revision in every variant; an action command
  carries it in an envelope, and the operation without the envelope has none.
\<close>

record logical_route_key =
  rk_instance_id :: u32
  rk_point_id :: u32

record measurement_route =
  mr_key :: logical_route_key
  mr_destination :: channel_point_address
  mr_enabled :: bool

datatype measurement_routing_mutation =
    UpsertMeasurement measurement_route u64
  | DeleteMeasurement logical_route_key u64
  | SetMeasurementEnabled logical_route_key bool u64
  | DeleteForInstance u32 u64
  | DeleteForChannel u32 u64
  | DeleteAllMeasurements u64

datatype routing_target = RouteTarget logical_route_key | InstanceTarget u32 | ChannelTarget u32 | AllTarget

fun measurement_target :: "measurement_routing_mutation \<Rightarrow> routing_target" where
  "measurement_target (UpsertMeasurement r _) = RouteTarget (mr_key r)"
| "measurement_target (DeleteMeasurement k _) = RouteTarget k"
| "measurement_target (SetMeasurementEnabled k _ _) = RouteTarget k"
| "measurement_target (DeleteForInstance i _) = InstanceTarget i"
| "measurement_target (DeleteForChannel c _) = ChannelTarget c"
| "measurement_target (DeleteAllMeasurements _) = AllTarget"

fun measurement_expected_revision :: "measurement_routing_mutation \<Rightarrow> u64" where
  "measurement_expected_revision (UpsertMeasurement _ n) = n"
| "measurement_expected_revision (DeleteMeasurement _ n) = n"
| "measurement_expected_revision (SetMeasurementEnabled _ _ n) = n"
| "measurement_expected_revision (DeleteForInstance _ n) = n"
| "measurement_expected_revision (DeleteForChannel _ n) = n"
| "measurement_expected_revision (DeleteAllMeasurements n) = n"

datatype routing_mutation_kind =
    KindUpsert | KindDelete | KindEnable | KindDisable
  | KindDeleteForInstance | KindDeleteForChannel | KindDeleteAll

fun measurement_kind :: "measurement_routing_mutation \<Rightarrow> routing_mutation_kind" where
  "measurement_kind (UpsertMeasurement _ _) = KindUpsert"
| "measurement_kind (DeleteMeasurement _ _) = KindDelete"
| "measurement_kind (SetMeasurementEnabled _ b _) = (if b then KindEnable else KindDisable)"
| "measurement_kind (DeleteForInstance _ _) = KindDeleteForInstance"
| "measurement_kind (DeleteForChannel _ _) = KindDeleteForChannel"
| "measurement_kind (DeleteAllMeasurements _) = KindDeleteAll"

fun measurement_kind_as_str :: "routing_mutation_kind \<Rightarrow> rust_string" where
  "measurement_kind_as_str KindUpsert = ascii ''upsert_measurement''"
| "measurement_kind_as_str KindDelete = ascii ''delete_measurement''"
| "measurement_kind_as_str KindEnable = ascii ''enable_measurement''"
| "measurement_kind_as_str KindDisable = ascii ''disable_measurement''"
| "measurement_kind_as_str KindDeleteForInstance = ascii ''delete_instance_measurements''"
| "measurement_kind_as_str KindDeleteForChannel = ascii ''delete_channel_measurements''"
| "measurement_kind_as_str KindDeleteAll = ascii ''delete_all_measurements''"

text \<open>The routes of the plane are revoked when their publication failed after the commit.\<close>

datatype routing_runtime_status = Published | RoutesRevoked port_fault

record routing_receipt =
  rmr_kind :: routing_mutation_kind
  rmr_target :: routing_target
  rmr_affected_routes :: u64
  rmr_resulting_revision :: u64
  rmr_runtime_status :: routing_runtime_status

fun point_kind_name :: "point_kind \<Rightarrow> rust_string" where
  "point_kind_name Telemetry = ascii ''telemetry''"
| "point_kind_name Status = ascii ''status''"
| "point_kind_name Command = ascii ''command''"
| "point_kind_name Action = ascii ''action''"

definition destination_detail :: "u32 \<Rightarrow> point_kind \<Rightarrow> u32 \<Rightarrow> bool \<Rightarrow> rust_string" where
  "destination_detail c k p enabled =
     ascii ''; destination_channel_id='' @ show_unsigned c @
     ascii ''; destination_kind='' @ point_kind_name k @
     ascii ''; destination_point_id='' @ show_unsigned p @
     ascii ''; enabled='' @ show_bool enabled"

fun measurement_mutation_detail :: "measurement_routing_mutation \<Rightarrow> rust_string" where
  "measurement_mutation_detail (UpsertMeasurement r n) =
     ascii ''expected_revision='' @ show_unsigned n @
     destination_detail (cpa_channel (mr_destination r)) (cpa_kind (mr_destination r))
       (cpa_point (mr_destination r)) (mr_enabled r)"
| "measurement_mutation_detail (SetMeasurementEnabled _ b n) =
     ascii ''expected_revision='' @ show_unsigned n @ ascii ''; enabled='' @ show_bool b"
| "measurement_mutation_detail (DeleteMeasurement _ n) =
     ascii ''expected_revision='' @ show_unsigned n @ ascii ''; delete=true''"
| "measurement_mutation_detail (DeleteForInstance _ n) =
     ascii ''expected_revision='' @ show_unsigned n @ ascii ''; delete_scope=instance_measurements''"
| "measurement_mutation_detail (DeleteForChannel _ n) =
     ascii ''expected_revision='' @ show_unsigned n @ ascii ''; delete_scope=channel_measurements''"
| "measurement_mutation_detail (DeleteAllMeasurements n) =
     ascii ''expected_revision='' @ show_unsigned n @ ascii ''; delete_scope=all_measurements''"

fun measurement_target_detail :: "routing_target \<Rightarrow> rust_string" where
  "measurement_target_detail (RouteTarget k) =
     ascii ''instance_id='' @ show_unsigned (rk_instance_id k) @
     ascii ''; measurement_id='' @ show_unsigned (rk_point_id k)"
| "measurement_target_detail (InstanceTarget i) =
     ascii ''instance_id='' @ show_unsigned i @ ascii ''; scope=instance_measurements''"
| "measurement_target_detail (ChannelTarget c) =
     ascii ''channel_id='' @ show_unsigned c @ ascii ''; scope=channel_measurements''"
| "measurement_target_detail AllTarget = ascii ''scope=all_measurements''"

definition operation_detail ::
    "rust_string \<Rightarrow> rust_string \<Rightarrow> rust_string \<Rightarrow> rust_string option \<Rightarrow> rust_string" where
  "operation_detail operation target detail failure =
     ascii ''operation='' @ operation @ ascii ''; '' @ target @ ascii ''; '' @ detail @
     (case failure of None \<Rightarrow> [] | Some f \<Rightarrow> ascii ''; '' @ f)"

definition routing_completion_detail :: "string \<Rightarrow> rust_string \<Rightarrow> routing_receipt \<Rightarrow> rust_string" where
  "routing_completion_detail revoked detail r =
     detail @ ascii ''; affected_routes='' @ show_unsigned (rmr_affected_routes r) @
     ascii ''; resulting_revision='' @ show_unsigned (rmr_resulting_revision r) @
     ascii ''; runtime_status='' @ ascii (case rmr_runtime_status r of Published \<Rightarrow> ''published'' | _ \<Rightarrow> revoked) @
     ascii ''; reconciliation_required='' @ show_bool (rmr_runtime_status r \<noteq> Published) @
     (case rmr_runtime_status r of
        Published \<Rightarrow> [] | RoutesRevoked f \<Rightarrow> ascii ''; runtime_failure='' @ port_fault_display f)"

definition measurement_entry ::
    "request_context \<Rightarrow> measurement_routing_mutation \<Rightarrow> rust_string \<Rightarrow> audit_outcome \<Rightarrow>
      rust_string option \<Rightarrow> audit_record" where
  "measurement_entry ctx m detail out failure =
     audit_entry ctx MANAGE_ROUTING_CAPABILITY out
       (Some (operation_detail (measurement_kind_as_str (measurement_kind m))
          (measurement_target_detail (measurement_target m)) detail failure))"

definition mutate_measurement_routing ::
    "(measurement_routing_mutation \<Rightarrow> ('s, routing_receipt) port_call) \<Rightarrow> 's audit_sink \<Rightarrow>
      request_context \<Rightarrow> measurement_routing_mutation \<Rightarrow> 's \<Rightarrow>
      (application_error + routing_receipt accepted_outcome) \<times> 's" where
  "mutate_measurement_routing mutator sink ctx m s =
     (let detail = measurement_mutation_detail m;
          record_audit = (\<lambda>d out failure. submit_audit sink (measurement_entry ctx m d out failure)) in
      case authorize MANAGE_ROUTING_CAPABILITY ctx of
        Inl e \<Rightarrow>
          try_bind (record_audit detail AuditRejected (Some (application_error_display e)))
            (\<lambda>_. return_err e) s
      | Inr _ \<Rightarrow>
          try_bind (record_audit detail AuditAttempted None)
            (\<lambda>_ s1. case mutator m s1 of
                (Inr receipt, s2) \<Rightarrow>
                  accept_after_audit receipt (rc_request_id ctx)
                    (record_audit (routing_completion_detail ''measurements_revoked'' detail receipt)
                      AuditSucceeded None s2)
              | (Inl e, s2) \<Rightarrow>
                  try_bind (record_audit detail AuditFailed (Some (port_fault_display e)))
                    (\<lambda>_. return_err (PortFailure e)) s2) s)"

record action_route =
  ac_key :: logical_route_key
  ac_destination :: channel_command_address
  ac_enabled :: bool

datatype action_routing_mutation =
    UpsertAction action_route
  | DeleteAction logical_route_key
  | SetActionEnabled logical_route_key bool
  | DeleteActionsForInstance u32
  | DeleteActionsForChannel u32
  | DeleteAllActions

fun action_target :: "action_routing_mutation \<Rightarrow> routing_target" where
  "action_target (UpsertAction r) = RouteTarget (ac_key r)"
| "action_target (DeleteAction k) = RouteTarget k"
| "action_target (SetActionEnabled k _) = RouteTarget k"
| "action_target (DeleteActionsForInstance i) = InstanceTarget i"
| "action_target (DeleteActionsForChannel c) = ChannelTarget c"
| "action_target DeleteAllActions = AllTarget"

fun action_kind :: "action_routing_mutation \<Rightarrow> routing_mutation_kind" where
  "action_kind (UpsertAction _) = KindUpsert"
| "action_kind (DeleteAction _) = KindDelete"
| "action_kind (SetActionEnabled _ b) = (if b then KindEnable else KindDisable)"
| "action_kind (DeleteActionsForInstance _) = KindDeleteForInstance"
| "action_kind (DeleteActionsForChannel _) = KindDeleteForChannel"
| "action_kind DeleteAllActions = KindDeleteAll"

fun action_kind_as_str :: "routing_mutation_kind \<Rightarrow> rust_string" where
  "action_kind_as_str KindUpsert = ascii ''upsert''"
| "action_kind_as_str KindDelete = ascii ''delete''"
| "action_kind_as_str KindEnable = ascii ''enable''"
| "action_kind_as_str KindDisable = ascii ''disable''"
| "action_kind_as_str KindDeleteForInstance = ascii ''delete_actions_for_instance''"
| "action_kind_as_str KindDeleteForChannel = ascii ''delete_actions_for_channel''"
| "action_kind_as_str KindDeleteAll = ascii ''delete_all_actions''"

datatype pending_action_routing_mutation =
    LegacyAction action_routing_mutation
  | RevisionedAction action_routing_mutation u64

fun pending_mutation :: "pending_action_routing_mutation \<Rightarrow> action_routing_mutation" where
  "pending_mutation (LegacyAction m) = m"
| "pending_mutation (RevisionedAction m _) = m"

fun pending_expected_revision :: "pending_action_routing_mutation \<Rightarrow> u64 option" where
  "pending_expected_revision (LegacyAction _) = None"
| "pending_expected_revision (RevisionedAction _ n) = Some n"

definition action_mutation_detail :: "action_routing_mutation \<Rightarrow> u64 option \<Rightarrow> rust_string" where
  "action_mutation_detail m revision =
     ascii ''expected_revision='' @
     (case revision of None \<Rightarrow> ascii ''legacy'' | Some n \<Rightarrow> show_unsigned n) @
     (case m of
        UpsertAction r \<Rightarrow>
          destination_detail (cca_channel (ac_destination r)) (cca_kind (ac_destination r))
            (cca_point (ac_destination r)) (ac_enabled r)
      | SetActionEnabled _ b \<Rightarrow> ascii ''; enabled='' @ show_bool b
      | DeleteAction _ \<Rightarrow> ascii ''; delete=true''
      | DeleteActionsForInstance _ \<Rightarrow> ascii ''; delete_scope=instance_actions''
      | DeleteActionsForChannel _ \<Rightarrow> ascii ''; delete_scope=channel_actions''
      | DeleteAllActions \<Rightarrow> ascii ''; delete_scope=all_actions'')"

fun action_target_detail :: "routing_target \<Rightarrow> rust_string" where
  "action_target_detail (RouteTarget k) =
     ascii ''instance_id='' @ show_unsigned (rk_instance_id k) @
     ascii ''; action_id='' @ show_unsigned (rk_point_id k)"
| "action_target_detail (InstanceTarget i) =
     ascii ''instance_id='' @ show_unsigned i @ ascii ''; scope=instance_actions''"
| "action_target_detail (ChannelTarget c) =
     ascii ''channel_id='' @ show_unsigned c @ ascii ''; scope=channel_actions''"
| "action_target_detail AllTarget = ascii ''scope=all_actions''"

definition action_entry ::
    "request_context \<Rightarrow> routing_mutation_kind \<Rightarrow> routing_target \<Rightarrow> rust_string \<Rightarrow> audit_outcome \<Rightarrow>
      rust_string option \<Rightarrow> audit_record" where
  "action_entry ctx kind target detail out failure =
     audit_entry ctx MANAGE_ROUTING_CAPABILITY out
       (Some (operation_detail (action_kind_as_str kind) (action_target_detail target) detail failure))"

record 's action_routing_mutator =
  arm_mutate :: "action_routing_mutation \<Rightarrow> ('s, routing_receipt) port_call"
  arm_mutate_revisioned :: "action_routing_mutation \<Rightarrow> u64 \<Rightarrow> ('s, routing_receipt) port_call"

text \<open>The trait's own \<open>mutate_revisioned\<close>, for mutators without revisions.\<close>

definition default_mutate_revisioned ::
    "action_routing_mutation \<Rightarrow> u64 \<Rightarrow> ('s, routing_receipt) port_call" where
  "default_mutate_revisioned m n s =
     (Inl \<lparr>pf_kind = Conflict,
           pf_message = ascii ''action-routing mutator does not support required revision '' @
             show_unsigned n @ ascii '' for '' @ action_kind_as_str (action_kind m)\<rparr>, s)"

definition run_pending ::
    "'s action_routing_mutator \<Rightarrow> pending_action_routing_mutation \<Rightarrow> ('s, routing_receipt) port_call" where
  "run_pending mutator command =
     (case command of
        LegacyAction m \<Rightarrow> arm_mutate mutator m
      | RevisionedAction m n \<Rightarrow> arm_mutate_revisioned mutator m n)"

definition mutate_action_routing ::
    "'s action_routing_mutator \<Rightarrow> 's audit_sink \<Rightarrow> request_context \<Rightarrow> pending_action_routing_mutation \<Rightarrow>
      's \<Rightarrow> (application_error + routing_receipt accepted_outcome) \<times> 's" where
  "mutate_action_routing mutator sink ctx command s =
     (let m = pending_mutation command; kind = action_kind m; target = action_target m;
          detail = action_mutation_detail m (pending_expected_revision command);
          record_audit = (\<lambda>k t d out failure. submit_audit sink (action_entry ctx k t d out failure)) in
      case authorize MANAGE_ROUTING_CAPABILITY ctx of
        Inl e \<Rightarrow>
          try_bind (record_audit kind target detail AuditRejected (Some (application_error_display e)))
            (\<lambda>_. return_err e) s
      | Inr _ \<Rightarrow>
          try_bind (record_audit kind target detail AuditAttempted None)
            (\<lambda>_ s1. case run_pending mutator command s1 of
                (Inr receipt, s2) \<Rightarrow>
                  accept_after_audit receipt (rc_request_id ctx)
                    (record_audit (rmr_kind receipt) (rmr_target receipt)
                      (routing_completion_detail ''commands_revoked'' detail receipt) AuditSucceeded None s2)
              | (Inl e, s2) \<Rightarrow>
                  try_bind (record_audit kind target detail AuditFailed (Some (port_fault_display e)))
                    (\<lambda>_. return_err (PortFailure e)) s2) s)"

definition mutate_action ::
    "'s action_routing_mutator \<Rightarrow> 's audit_sink \<Rightarrow> request_context \<Rightarrow> action_routing_mutation \<Rightarrow>
      's \<Rightarrow> (application_error + routing_receipt accepted_outcome) \<times> 's" where
  "mutate_action mutator sink ctx m = mutate_action_routing mutator sink ctx (LegacyAction m)"

definition mutate_action_revisioned ::
    "'s action_routing_mutator \<Rightarrow> 's audit_sink \<Rightarrow> request_context \<Rightarrow> action_routing_mutation \<Rightarrow> u64 \<Rightarrow>
      's \<Rightarrow> (application_error + routing_receipt accepted_outcome) \<times> 's" where
  "mutate_action_revisioned mutator sink ctx m n =
     mutate_action_routing mutator sink ctx (RevisionedAction m n)"

subsection \<open>The facades follow the audited scheme\<close>

definition rule_execution_entries :: "request_context \<Rightarrow> u64 \<Rightarrow> rule_execution_receipt audit_entries" where
  "rule_execution_entries ctx rule =
     (let entry = rule_execution_entry ctx rule in
      \<lparr>ae_rejected = (\<lambda>e. entry AuditRejected (Some (application_error_display e))),
       ae_attempted = entry AuditAttempted None,
       ae_succeeded = (\<lambda>r. entry AuditSucceeded
         (Some (ascii ''actions_attempted='' @ show_unsigned (rer_actions_attempted r) @
                ascii ''; actions_succeeded='' @ show_unsigned (rer_actions_succeeded r)))),
       ae_failed = (\<lambda>e. entry AuditFailed (Some (port_fault_display e)))\<rparr>)"

definition alert_resolution_entries :: "request_context \<Rightarrow> u64 \<Rightarrow> alert_resolution_receipt audit_entries" where
  "alert_resolution_entries ctx alert =
     (let entry = alert_resolution_entry ctx alert in
      \<lparr>ae_rejected = (\<lambda>e. entry AuditRejected (Some (application_error_display e))),
       ae_attempted = entry AuditAttempted None,
       ae_succeeded = (\<lambda>_. entry AuditSucceeded None),
       ae_failed = (\<lambda>e. entry AuditFailed (Some (port_fault_display e)))\<rparr>)"

definition reconciliation_entries ::
    "request_context \<Rightarrow> channel_reconciliation_scope \<Rightarrow> channel_reconciliation_receipt audit_entries" where
  "reconciliation_entries ctx sc =
     (let entry = reconciliation_entry ctx; d = scope_audit_detail sc in
      \<lparr>ae_rejected = (\<lambda>e. entry d AuditRejected (Some (application_error_display e))),
       ae_attempted = entry d AuditAttempted None,
       ae_succeeded = (\<lambda>r. entry (completion_detail d r) AuditSucceeded None),
       ae_failed = (\<lambda>e. entry d AuditFailed
         (Some (ascii ''port_error_kind='' @ port_error_debug (pf_kind e))))\<rparr>)"

definition measurement_entries ::
    "request_context \<Rightarrow> measurement_routing_mutation \<Rightarrow> routing_receipt audit_entries" where
  "measurement_entries ctx m =
     (let entry = measurement_entry ctx m; d = measurement_mutation_detail m in
      \<lparr>ae_rejected = (\<lambda>e. entry d AuditRejected (Some (application_error_display e))),
       ae_attempted = entry d AuditAttempted None,
       ae_succeeded = (\<lambda>r. entry (routing_completion_detail ''measurements_revoked'' d r) AuditSucceeded None),
       ae_failed = (\<lambda>e. entry d AuditFailed (Some (port_fault_display e)))\<rparr>)"

definition action_entries ::
    "request_context \<Rightarrow> pending_action_routing_mutation \<Rightarrow> routing_receipt audit_entries" where
  "action_entries ctx command =
     (let m = pending_mutation command; d = action_mutation_detail m (pending_expected_revision command);
          entry = action_entry ctx (action_kind m) (action_target m) d in
      \<lparr>ae_rejected = (\<lambda>e. entry AuditRejected (Some (application_error_display e))),
       ae_attempted = entry AuditAttempted None,
       ae_succeeded = (\<lambda>r. action_entry ctx (rmr_kind r) (rmr_target r)
         (routing_completion_detail ''commands_revoked'' d r) AuditSucceeded None),
       ae_failed = (\<lambda>e. entry AuditFailed (Some (port_fault_display e)))\<rparr>)"

definition observed_mutator ::
    "((pending_action_routing_mutation, routing_receipt) port_event list \<Rightarrow>
        pending_action_routing_mutation \<Rightarrow> port_fault + routing_receipt) \<Rightarrow>
      (pending_action_routing_mutation, routing_receipt) port_event list action_routing_mutator" where
  "observed_mutator ex =
     \<lparr>arm_mutate = (\<lambda>m. observed_exec ex (LegacyAction m)),
      arm_mutate_revisioned = (\<lambda>m n. observed_exec ex (RevisionedAction m n))\<rparr>"

lemma run_observed_mutator: "run_pending (observed_mutator ex) = observed_exec ex"
  by (auto simp: run_pending_def observed_mutator_def fun_eq_iff split: pending_action_routing_mutation.split)

lemma execute_rule_governed:
  "execute_rule executor sink ctx rule s =
     governed_run sink executor (rule_execution_entries ctx rule) (rc_request_id ctx)
       (authorized_decision EXECUTE_RULE_CAPABILITY ctx rule) s"
  by (cases "authorize EXECUTE_RULE_CAPABILITY ctx";
      simp add: execute_rule_def authorized_decision_def;
      rule reject_is_governed execute_is_governed; simp add: rule_execution_entries_def Let_def)

lemma resolve_alert_governed:
  "resolve_alert resolver sink ctx alert s =
     governed_run sink resolver (alert_resolution_entries ctx alert) (rc_request_id ctx)
       (authorized_decision RESOLVE_ALERT_CAPABILITY ctx alert) s"
  by (cases "authorize RESOLVE_ALERT_CAPABILITY ctx";
      simp add: resolve_alert_def authorized_decision_def;
      rule reject_is_governed execute_is_governed; simp add: alert_resolution_entries_def Let_def)

lemma reconcile_channels_governed:
  "reconcile_channels reconciler sink ctx sc s =
     governed_run sink reconciler (reconciliation_entries ctx sc) (rc_request_id ctx)
       (authorized_decision RECONCILE_CHANNELS_CAPABILITY ctx sc) s"
  by (cases "authorize RECONCILE_CHANNELS_CAPABILITY ctx";
      simp add: reconcile_channels_def authorized_decision_def Let_def;
      rule reject_is_governed execute_is_governed; simp add: reconciliation_entries_def Let_def)

lemma mutate_measurement_routing_governed:
  "mutate_measurement_routing mutator sink ctx m s =
     governed_run sink mutator (measurement_entries ctx m) (rc_request_id ctx)
       (authorized_decision MANAGE_ROUTING_CAPABILITY ctx m) s"
  by (cases "authorize MANAGE_ROUTING_CAPABILITY ctx";
      simp add: mutate_measurement_routing_def authorized_decision_def Let_def;
      rule reject_is_governed execute_is_governed; simp add: measurement_entries_def Let_def)

lemma mutate_action_routing_governed:
  "mutate_action_routing mutator sink ctx command s =
     governed_run sink (run_pending mutator) (action_entries ctx command) (rc_request_id ctx)
       (authorized_decision MANAGE_ROUTING_CAPABILITY ctx command) s"
  by (cases "authorize MANAGE_ROUTING_CAPABILITY ctx";
      simp add: mutate_action_routing_def authorized_decision_def Let_def;
      rule reject_is_governed execute_is_governed; simp add: action_entries_def Let_def)

interpretation rule_execution: audited_facade
  "\<lambda>au ex. execute_rule (observed_exec ex) (observed_sink au)" EXECUTE_RULE_CAPABILITY
  "authorized_decision EXECUTE_RULE_CAPABILITY" rule_execution_entries
  by unfold_locales
    (auto simp: execute_rule_governed authorized_decision_ok rule_execution_entries_def rule_execution_entry_def Let_def)

interpretation alert_resolution: audited_facade
  "\<lambda>au ex. resolve_alert (observed_exec ex) (observed_sink au)" RESOLVE_ALERT_CAPABILITY
  "authorized_decision RESOLVE_ALERT_CAPABILITY" alert_resolution_entries
  by unfold_locales
    (auto simp: resolve_alert_governed authorized_decision_ok alert_resolution_entries_def alert_resolution_entry_def Let_def)

interpretation reconciliation: audited_facade
  "\<lambda>au ex. reconcile_channels (observed_exec ex) (observed_sink au)" RECONCILE_CHANNELS_CAPABILITY
  "authorized_decision RECONCILE_CHANNELS_CAPABILITY" reconciliation_entries
  by unfold_locales
    (auto simp: reconcile_channels_governed authorized_decision_ok reconciliation_entries_def reconciliation_entry_def Let_def)

interpretation measurement_routing: audited_facade
  "\<lambda>au ex. mutate_measurement_routing (observed_exec ex) (observed_sink au)" MANAGE_ROUTING_CAPABILITY
  "authorized_decision MANAGE_ROUTING_CAPABILITY" measurement_entries
  by unfold_locales
    (auto simp: mutate_measurement_routing_governed authorized_decision_ok measurement_entries_def measurement_entry_def Let_def)

interpretation action_routing: audited_facade
  "\<lambda>au ex. mutate_action_routing (observed_mutator ex) (observed_sink au)" MANAGE_ROUTING_CAPABILITY
  "authorized_decision MANAGE_ROUTING_CAPABILITY" action_entries
  by unfold_locales
    (auto simp: mutate_action_routing_governed run_observed_mutator authorized_decision_ok action_entries_def action_entry_def Let_def)

subsection \<open>Properties\<close>

text \<open>
  C40: In every facade the executing port is called at most once per invocation, only for an
  authorized request, and directly after an announcement with the request, actor and
  capability has been recorded.  The caller gets an accepted outcome with the port's receipt
  exactly when the port accepted: a terminal audit that cannot be written never turns an
  accepted command into an error, and no error hides an accepted command.
\<close>

theorem facades_are_audited:
  "(case write_point_inner (observed_control au ex) ctx cid t v fence [] of
      (res, tr) \<Rightarrow> audited_call WRITE_POINT_CAPABILITY ctx res tr) \<and>
   (case execute_rule (observed_exec ex1) (observed_sink au1) ctx rule [] of
      (res, tr) \<Rightarrow> audited_call EXECUTE_RULE_CAPABILITY ctx res tr) \<and>
   (case resolve_alert (observed_exec ex2) (observed_sink au2) ctx alert [] of
      (res, tr) \<Rightarrow> audited_call RESOLVE_ALERT_CAPABILITY ctx res tr) \<and>
   (case reconcile_channels (observed_exec ex3) (observed_sink au3) ctx sc [] of
      (res, tr) \<Rightarrow> audited_call RECONCILE_CHANNELS_CAPABILITY ctx res tr) \<and>
   (case mutate_measurement_routing (observed_exec ex4) (observed_sink au4) ctx m [] of
      (res, tr) \<Rightarrow> audited_call MANAGE_ROUTING_CAPABILITY ctx res tr) \<and>
   (case mutate_action_routing (observed_mutator ex5) (observed_sink au5) ctx command [] of
      (res, tr) \<Rightarrow> audited_call MANAGE_ROUTING_CAPABILITY ctx res tr)"
  using control.run_audited [of ctx au ex "(cid, t, v, fence)"] rule_execution.run_audited
    alert_resolution.run_audited reconciliation.run_audited measurement_routing.run_audited
    action_routing.run_audited
  by simp

end
