(* ===== verification/Sqlite_Topology.thy ===== *)
theory Sqlite_Topology
  imports Channel_Manifest App_Governance "HOL-Library.Product_Lexorder"
begin

section \<open>The topology stored in SQLite (store-local/src/sqlite_topology.rs, shm-bridge/src/health.rs)\<close>

text \<open>
  How the rows of one read transaction become the point manifest, the health manifest and the
  logical routes.  The rows are what SQLite answers, \<open>None\<close> where a statement fails; stored
  integers are \<open>i64\<close> patterns.  \<open>FxHasher\<close> is a parameter.
\<close>

subsection \<open>The health manifest (health.rs)\<close>

record channel_health_manifest =
  hm_channel_ids :: "u32 list"
  hm_slot_count :: nat

definition health_from_channel_ids :: "u32 list \<Rightarrow> channel_health_manifest" where
  "health_from_channel_ids ids =
     (let channel_ids = sort (remdups ids)
      in \<lparr>hm_channel_ids = channel_ids,
          hm_slot_count = (if channel_ids = [] then 0 else unat (last channel_ids) + 1)\<rparr>)"

definition health_contains :: "channel_health_manifest \<Rightarrow> u32 \<Rightarrow> bool" where
  "health_contains m c \<longleftrightarrow> c \<in> set (hm_channel_ids m)"

record 'h fx_hasher =
  fx_default :: 'h
  fx_str :: "rust_string \<Rightarrow> 'h \<Rightarrow> 'h"
  fx_u8 :: "u8 \<Rightarrow> 'h \<Rightarrow> 'h"
  fx_u32 :: "u32 \<Rightarrow> 'h \<Rightarrow> 'h"
  fx_u64 :: "u64 \<Rightarrow> 'h \<Rightarrow> 'h"
  fx_usize :: "nat \<Rightarrow> 'h \<Rightarrow> 'h"
  fx_counts :: "u32 list \<Rightarrow> 'h \<Rightarrow> 'h"
  fx_address :: "physical_point_address \<Rightarrow> 'h \<Rightarrow> 'h"
  fx_finish :: "'h \<Rightarrow> u64"

definition CHANNEL_HEALTH_MANIFEST_DOMAIN :: rust_string where
  "CHANNEL_HEALTH_MANIFEST_DOMAIN = ascii ''aether.channel-health.v1''"

definition health_layout_hash :: "'h fx_hasher \<Rightarrow> channel_health_manifest \<Rightarrow> u64" where
  "health_layout_hash H m =
     fx_finish H (fold (fx_u32 H) (hm_channel_ids m) (fx_str H CHANNEL_HEALTH_MANIFEST_DOMAIN (fx_default H)))"

definition point_layout_hash :: "'h fx_hasher \<Rightarrow> channel_point_manifest \<Rightarrow> u64" where
  "point_layout_hash H m = layout_hash (\<lambda>h c. fx_u32 H c h) (\<lambda>h c. fx_counts H c h) (fx_finish H) (fx_default H) m"

subsection \<open>Rows and snapshots (sqlite_topology.rs)\<close>

type_synonym logical_point_routes = "(u32 \<times> u32, physical_point_address) btree_map"

record sqlite_live_topology_snapshot =
  snap_point_manifest :: channel_point_manifest
  snap_health_manifest :: channel_health_manifest
  configured_physical_points :: "physical_point_address list"
  snap_measurement_routes :: logical_point_routes
  snap_action_routes :: logical_point_routes
  snap_digest :: u64

record count_row =
  cr_channel_id :: u64
  cr_min_point_id :: u64
  cr_upper_bound :: u64
  cr_row_count :: u64
  cr_distinct_count :: u64

record route_row =
  rr_instance_id :: u64
  rr_channel_id :: "u64 option"
  rr_channel_type :: "rust_string option"
  rr_channel_point_id :: "u64 option"
  rr_logical_point_id :: u64

record sqlite_answers =
  sa_begin :: "unit option"
  sa_point_counts :: "nat \<Rightarrow> count_row list option"
  sa_channels :: "u64 list option"
  sa_configured_points :: "(u64 \<times> u64 \<times> u64) list option"
  sa_measurement_routing :: "route_row list option"
  sa_action_routing :: "route_row list option"
  sa_commit :: "unit option"

definition topology_unavailable :: port_fault where
  "topology_unavailable =
     \<lparr>pf_kind = Unavailable, pf_message = ascii ''authoritative SQLite topology is unavailable''\<rparr>"

definition fetched :: "'a option \<Rightarrow> port_fault + 'a" where
  "fetched x = (case x of None \<Rightarrow> Inl topology_unavailable | Some rows \<Rightarrow> Inr rows)"

definition invalid_topology :: "rust_string \<Rightarrow> port_fault" where
  "invalid_topology m = \<lparr>pf_kind = InvalidData, pf_message = m\<rparr>"

definition stored_u32 :: "u64 \<Rightarrow> rust_string \<Rightarrow> rust_string \<Rightarrow> port_fault + u32" where
  "stored_u32 v field table =
     (if 0 \<le> sint v \<and> sint v < 2 ^ 32 then Inr (ucast v)
      else Inl (invalid_topology
        (ascii ''stored '' @ field @ ascii '' in '' @ table @ ascii '' is outside the u32 range'')))"

definition parse_point_kind :: "rust_string \<Rightarrow> point_kind option" where
  "parse_point_kind v =
     (if v = ascii ''T'' then Some Telemetry
      else if v = ascii ''S'' then Some Status
      else if v = ascii ''C'' then Some Command
      else if v = ascii ''A'' then Some Action
      else None)"

text \<open>The four count queries, in the order of \<open>POINT_COUNT_QUERIES\<close>.\<close>

definition POINT_COUNT_TABLES :: "(rust_string \<times> nat) list" where
  "POINT_COUNT_TABLES =
     [(ascii ''telemetry_points'', 0), (ascii ''signal_points'', 1),
      (ascii ''control_points'', 2), (ascii ''adjustment_points'', 3)]"

fun load_counts ::
    "rust_string \<Rightarrow> nat \<Rightarrow> count_row list \<Rightarrow> (u32, u32 list) btree_map \<Rightarrow>
      port_fault + (u32, u32 list) btree_map" where
  "load_counts table ki [] counts = Inr counts"
| "load_counts table ki (row # rows) counts =
     rbind (stored_u32 (cr_channel_id row) (ascii ''channel_id'') table) (\<lambda>channel_id.
     rbind (stored_u32 (cr_min_point_id row) (ascii ''point_id'') table) (\<lambda>_.
     rbind (stored_u32 (cr_upper_bound row) (ascii ''point count'') table) (\<lambda>count.
     rbind (stored_u32 (cr_row_count row) (ascii ''point row count'') table) (\<lambda>row_count.
     rbind (stored_u32 (cr_distinct_count row) (ascii ''distinct point count'') table) (\<lambda>distinct_count.
       if row_count \<noteq> distinct_count then
         Inl (invalid_topology (table @ ascii '' channel '' @ show_unsigned channel_id @
           ascii '' contains duplicate point identifiers''))
       else
         let entry = (case bt_get counts channel_id of Some c \<Rightarrow> c | None \<Rightarrow> [0, 0, 0, 0])
         in load_counts table ki rows (bt_insert channel_id (entry[ki := count]) counts))))))"

fun load_all_counts ::
    "sqlite_answers \<Rightarrow> (rust_string \<times> nat) list \<Rightarrow> (u32, u32 list) btree_map \<Rightarrow>
      port_fault + (u32, u32 list) btree_map" where
  "load_all_counts db [] counts = Inr counts"
| "load_all_counts db ((table, ki) # rest) counts =
     rbind (fetched (sa_point_counts db ki)) (\<lambda>rows.
     rbind (load_counts table ki rows counts) (load_all_counts db rest))"

fun collect_results :: "('a \<Rightarrow> 'e + 'b) \<Rightarrow> 'a list \<Rightarrow> 'e + 'b list" where
  "collect_results f [] = Inr []"
| "collect_results f (x # xs) = rbind (f x) (\<lambda>y. rbind (collect_results f xs) (\<lambda>ys. Inr (y # ys)))"

text \<open>The channel identifiers are sorted, so the binary search decides membership.\<close>

definition load_shm_topology ::
    "sqlite_answers \<Rightarrow> port_fault + channel_point_manifest \<times> channel_health_manifest" where
  "load_shm_topology db =
     rbind (load_all_counts db POINT_COUNT_TABLES []) (\<lambda>counts.
     rbind (fetched (sa_channels db)) (\<lambda>raw_channel_ids.
     rbind (collect_results (\<lambda>c. stored_u32 c (ascii ''channel_id'') (ascii ''channels'')) raw_channel_ids)
       (\<lambda>channel_ids.
       case List.find (\<lambda>c. c \<notin> set channel_ids) (bt_keys counts) of
         Some orphan \<Rightarrow>
           Inl (invalid_topology (ascii ''point topology references channel '' @ show_unsigned orphan @
             ascii '', which is absent from channels''))
       | None \<Rightarrow> Inr (manifest_from_map counts, health_from_channel_ids channel_ids))))"

definition load_sqlite_shm_topology ::
    "sqlite_answers \<Rightarrow> port_fault + channel_point_manifest \<times> channel_health_manifest" where
  "load_sqlite_shm_topology db =
     rbind (fetched (sa_begin db)) (\<lambda>_.
     rbind (load_shm_topology db) (\<lambda>snapshot. rbind (fetched (sa_commit db)) (\<lambda>_. Inr snapshot)))"

definition configured_kind :: "u64 \<Rightarrow> point_kind option" where
  "configured_kind k =
     (if k = 0 then Some Telemetry else if k = 1 then Some Status
      else if k = 2 then Some Command else if k = 3 then Some Action else None)"

definition load_configured_point :: "u64 \<times> u64 \<times> u64 \<Rightarrow> port_fault + physical_point_address" where
  "load_configured_point row =
     (let (c, k, p) = row; table = ascii ''physical point tables'' in
      rbind (stored_u32 c (ascii ''channel_id'') table) (\<lambda>channel_id.
      rbind (stored_u32 p (ascii ''point_id'') table) (\<lambda>point_id.
        case configured_kind k of
          None \<Rightarrow> Inl (invalid_topology (ascii ''physical point query returned an unknown point kind''))
        | Some kind \<Rightarrow> Inr \<lparr>ppa_channel = channel_id, ppa_kind = kind, ppa_point = point_id\<rparr>)))"

definition load_configured_physical_points ::
    "sqlite_answers \<Rightarrow> port_fault + physical_point_address list" where
  "load_configured_physical_points db =
     rbind (fetched (sa_configured_points db)) (collect_results load_configured_point)"

definition route_target_text :: "rust_string \<Rightarrow> u32 \<Rightarrow> rust_string \<Rightarrow> u32 \<Rightarrow> rust_string" where
  "route_target_text table c kind p =
     table @ ascii '' route target '' @ show_unsigned c @ ascii '':'' @ kind @ ascii '':'' @ show_unsigned p"

text \<open>
  One row of a routing table: \<open>None\<close> for a row without a physical binding, otherwise the
  logical address and its target.
\<close>

definition load_route ::
    "rust_string \<Rightarrow> rust_string \<Rightarrow> bool \<Rightarrow> channel_point_manifest \<Rightarrow> physical_point_address list \<Rightarrow>
      route_row \<Rightarrow> port_fault + ((u32 \<times> u32) \<times> physical_point_address) option" where
  "load_route table column writable manifest configured row =
     rbind (stored_u32 (rr_instance_id row) (ascii ''instance_id'') table) (\<lambda>instance_id.
       case (rr_channel_id row, rr_channel_type row, rr_channel_point_id row) of
         (None, None, None) \<Rightarrow> Inr None
       | (Some raw_channel_id, Some raw_kind, Some raw_point_id) \<Rightarrow>
           rbind (stored_u32 raw_channel_id (ascii ''channel_id'') table) (\<lambda>channel_id.
           rbind (stored_u32 raw_point_id (ascii ''channel_point_id'') table) (\<lambda>point_id.
           rbind (stored_u32 (rr_logical_point_id row) column table) (\<lambda>logical_point_id.
             case parse_point_kind raw_kind of
               None \<Rightarrow>
                 Inl (invalid_topology (ascii ''stored channel_type in '' @ table @ ascii '' is not one of T/S/C/A''))
             | Some kind \<Rightarrow>
                 let target = \<lparr>ppa_channel = channel_id, ppa_kind = kind, ppa_point = point_id\<rparr> in
                 if is_writable kind \<noteq> writable then
                   Inl (invalid_topology (table @ ascii '' route kind '' @ raw_kind @
                     ascii '' violates its read/write ownership''))
                 else if slot_for manifest target = None then
                   Inl (invalid_topology (route_target_text table channel_id raw_kind point_id @
                     ascii '' is absent from the point manifest''))
                 else if target \<notin> set configured then
                   Inl (invalid_topology (route_target_text table channel_id raw_kind point_id @
                     ascii '' is not a configured physical point''))
                 else Inr (Some ((instance_id, logical_point_id), target)))))
       | _ \<Rightarrow>
           Inl (invalid_topology (table @ ascii '' logical route '' @ show_unsigned instance_id @ ascii '':'' @
             show_int (sint (rr_logical_point_id row)) @ ascii '' has a partial physical binding'')))"

fun load_route_rows ::
    "rust_string \<Rightarrow> rust_string \<Rightarrow> bool \<Rightarrow> channel_point_manifest \<Rightarrow> physical_point_address list \<Rightarrow>
      route_row list \<Rightarrow> logical_point_routes \<Rightarrow> port_fault + logical_point_routes" where
  "load_route_rows table column writable manifest configured [] routes = Inr routes"
| "load_route_rows table column writable manifest configured (row # rows) routes =
     rbind (load_route table column writable manifest configured row) (\<lambda>binding.
       case binding of
         None \<Rightarrow> load_route_rows table column writable manifest configured rows routes
       | Some (logical, target) \<Rightarrow>
           if bt_get routes logical \<noteq> None then
             Inl (invalid_topology (table @ ascii '' contains duplicate logical route '' @
               show_unsigned (fst logical) @ ascii '':'' @ show_unsigned (snd logical)))
           else
             load_route_rows table column writable manifest configured rows (bt_insert logical target routes))"

definition load_routes ::
    "route_row list option \<Rightarrow> rust_string \<Rightarrow> rust_string \<Rightarrow> bool \<Rightarrow> channel_point_manifest \<Rightarrow>
      physical_point_address list \<Rightarrow> port_fault + logical_point_routes" where
  "load_routes answer table column writable manifest configured =
     rbind (fetched answer) (\<lambda>rows. load_route_rows table column writable manifest configured rows [])"

definition hash_routes :: "'h fx_hasher \<Rightarrow> u8 \<Rightarrow> logical_point_routes \<Rightarrow> 'h \<Rightarrow> 'h" where
  "hash_routes H role routes h =
     fold (\<lambda>((i, p), target) h. fx_address H target (fx_u32 H p (fx_u32 H i h))) routes (fx_u8 H role h)"

definition live_topology_digest ::
    "'h fx_hasher \<Rightarrow> channel_point_manifest \<times> channel_health_manifest \<Rightarrow> physical_point_address list \<Rightarrow>
      logical_point_routes \<Rightarrow> logical_point_routes \<Rightarrow> u64" where
  "live_topology_digest H shm configured measurements actions =
     (let (points, health) = shm;
          h = fx_str H (ascii ''aether.sqlite-live-topology.v2'') (fx_default H);
          h = fx_u64 H (point_layout_hash H points) h;
          h = fx_usize H (man_slot_count points) h;
          h = fx_u64 H (health_layout_hash H health) h;
          h = fx_usize H (hm_slot_count health) h;
          h = fold (fx_address H) configured (fx_usize H (length configured) h)
      in fx_finish H (hash_routes H 1 actions (hash_routes H 0 measurements h)))"

definition load_sqlite_live_topology ::
    "'h fx_hasher \<Rightarrow> sqlite_answers \<Rightarrow> port_fault + sqlite_live_topology_snapshot" where
  "load_sqlite_live_topology H db =
     rbind (fetched (sa_begin db)) (\<lambda>_.
     rbind (load_shm_topology db) (\<lambda>shm.
     rbind (load_configured_physical_points db) (\<lambda>configured.
     rbind (load_routes (sa_measurement_routing db) (ascii ''measurement_routing'') (ascii ''measurement_id'')
              False (fst shm) configured) (\<lambda>measurements.
     rbind (load_routes (sa_action_routing db) (ascii ''action_routing'') (ascii ''action_id'')
              True (fst shm) configured) (\<lambda>actions.
     rbind (fetched (sa_commit db)) (\<lambda>_.
       Inr \<lparr>snap_point_manifest = fst shm, snap_health_manifest = snd shm,
            configured_physical_points = configured, snap_measurement_routes = measurements,
            snap_action_routes = actions,
            snap_digest = live_topology_digest H shm configured measurements actions\<rparr>))))))"

subsection \<open>What a snapshot guarantees\<close>

lemma set_bt_insert: "set (bt_insert k v m) \<subseteq> insert (k, v) (set m)"
  by (induction k v m rule: bt_insert.induct) auto

lemma load_counts_ok:
  "load_counts table ki rows counts = Inr counts' \<Longrightarrow> counts_ok counts \<Longrightarrow> counts_ok counts'"
proof (induction rows arbitrary: counts)
  case (Cons row rows)
  obtain channel_id count where
    rest: "load_counts table ki rows (bt_insert channel_id
      ((case bt_get counts channel_id of Some c \<Rightarrow> c | None \<Rightarrow> [0, 0, 0, 0])[ki := count]) counts) = Inr counts'"
    using Cons.prems(1) by (auto simp: Let_def split: if_splits)
  have "length (case bt_get counts channel_id of Some c \<Rightarrow> c | None \<Rightarrow> [0, 0, 0, 0]) = 4"
    using Cons.prems(2) by (force simp: bt_get_def counts_ok_def dest: map_of_SomeD split: option.split)
  then have "counts_ok (bt_insert channel_id
      ((case bt_get counts channel_id of Some c \<Rightarrow> c | None \<Rightarrow> [0, 0, 0, 0])[ki := count]) counts)"
    using Cons.prems(2) set_bt_insert by (fastforce simp: counts_ok_def bt.wf_insert)
  with rest Cons.IH show ?case by blast
qed simp

lemma load_all_counts_ok:
  "load_all_counts db tables counts = Inr counts' \<Longrightarrow> counts_ok counts \<Longrightarrow> counts_ok counts'"
  by (induction db tables counts rule: load_all_counts.induct) (auto dest: load_counts_ok)

lemma lay_channels_keys:
  "lay_channels cs acc start = (layouts, fin) \<Longrightarrow> set (bt_keys layouts) = set (bt_keys acc) \<union> fst ` set cs"
  by (induction cs acc start rule: lay_channels.induct) (auto simp: Let_def split: prod.splits)

lemma slot_for_configured_channel:
  assumes "slot_for (manifest_from_map counts) a = Some s"
  shows "ppa_channel a \<in> set (bt_keys counts)"
proof -
  obtain layouts fin where l: "lay_channels counts [] 0 = (layouts, fin)" by fastforce
  have "ppa_channel a \<in> set (bt_keys layouts)"
    using assms by (auto simp: slot_for_def manifest_from_map_def l Let_def bt_get_def bt_keys_def
        split: prod.splits option.splits dest: map_of_SomeD) (force dest: map_of_SomeD)
  then show ?thesis using lay_channels_keys [OF l] by (simp add: bt_keys_def)
qed

lemma load_shm_topology_ok:
  assumes "load_shm_topology db = Inr (m, h)"
  obtains counts where "counts_ok counts" "m = manifest_from_map counts"
    "set (bt_keys counts) \<subseteq> set (hm_channel_ids h)"
proof -
  from assms obtain counts channel_ids where
    c: "load_all_counts db POINT_COUNT_TABLES [] = Inr counts" "m = manifest_from_map counts"
      "h = health_from_channel_ids channel_ids" "List.find (\<lambda>c. c \<notin> set channel_ids) (bt_keys counts) = None"
    by (auto simp: load_shm_topology_def split: option.splits)
  show thesis
  proof (rule that [OF _ c(2)])
    show "counts_ok counts" using load_all_counts_ok [OF c(1)] by (simp add: counts_ok_def)
    show "set (bt_keys counts) \<subseteq> set (hm_channel_ids h)"
      using c(3,4) by (auto simp: find_None_iff health_from_channel_ids_def Let_def)
  qed
qed

lemma load_route_bound:
  assumes "load_route table column writable manifest configured row = Inr (Some (logical, target))"
  shows "is_writable (ppa_kind target) = writable \<and> target \<in> set configured \<and> slot_for manifest target \<noteq> None"
  using assms
  by (cases "rr_channel_id row"; cases "rr_channel_type row"; cases "rr_channel_point_id row";
      cases "parse_point_kind (the (rr_channel_type row))")
    (auto simp: load_route_def Let_def split: if_splits)

lemma load_route_rows_spec:
  assumes "load_route_rows table column writable manifest configured rows routes = Inr routes'" and "bt_wf routes"
  shows "bt_wf routes' \<and>
    (\<forall>logical target. bt_get routes' logical = Some target \<longleftrightarrow>
       bt_get routes logical = Some target \<or>
       (\<exists>row\<in>set rows. load_route table column writable manifest configured row = Inr (Some (logical, target))))"
  using assms
proof (induction rows arbitrary: routes)
  case (Cons row rows)
  from Cons.prems(1) obtain b where b: "load_route table column writable manifest configured row = Inr b"
    by auto
  show ?case
  proof (cases b)
    case None
    then show ?thesis using Cons b by auto
  next
    case (Some lt)
    obtain l t where lt: "lt = (l, t)" by (cases lt)
    have new: "bt_get routes l = None"
      and rest: "load_route_rows table column writable manifest configured rows (bt_insert l t routes) = Inr routes'"
      using Cons.prems(1) b Some lt by (auto split: if_splits)
    from Cons.IH [OF rest bt.wf_insert [OF Cons.prems(2)]] new b Some lt Cons.prems(2) show ?thesis
      by (auto simp: bt.get_insert)
  qed
qed simp

definition routes_sound :: "bool \<Rightarrow> sqlite_live_topology_snapshot \<Rightarrow> logical_point_routes \<Rightarrow> bool" where
  "routes_sound writable snap routes \<longleftrightarrow>
     (\<forall>logical target. bt_get routes logical = Some target \<longrightarrow>
        is_writable (ppa_kind target) = writable \<and> target \<in> set (configured_physical_points snap) \<and>
        health_contains (snap_health_manifest snap) (ppa_channel target) \<and>
        (\<exists>slot < man_slot_count (snap_point_manifest snap).
           slot_for (snap_point_manifest snap) target = Some slot \<and>
           physical_point_at (snap_point_manifest snap) slot = Some target))"

definition routes_listed ::
    "route_row list option \<Rightarrow> string \<Rightarrow> string \<Rightarrow> bool \<Rightarrow> sqlite_live_topology_snapshot \<Rightarrow>
      logical_point_routes \<Rightarrow> bool" where
  "routes_listed answer table column writable snap routes \<longleftrightarrow>
     (\<forall>logical target. bt_get routes logical = Some target \<longleftrightarrow>
        (\<exists>row\<in>set (the answer).
           load_route (ascii table) (ascii column) writable (snap_point_manifest snap)
             (configured_physical_points snap) row = Inr (Some (logical, target))))"

lemma load_routes_spec:
  assumes "load_routes answer (ascii table) (ascii column) writable (snap_point_manifest snap)
      (configured_physical_points snap) = Inr routes"
  shows "bt_wf routes \<and> routes_listed answer table column writable snap routes"
proof -
  obtain rows where rows: "answer = Some rows"
    and r: "load_route_rows (ascii table) (ascii column) writable (snap_point_manifest snap)
      (configured_physical_points snap) rows [] = Inr routes"
    using assms by (auto simp: load_routes_def fetched_def split: option.splits)
  from load_route_rows_spec [OF r bt_wf_Nil] show ?thesis
    by (simp add: rows routes_listed_def bt.get_empty)
qed

lemma listed_routes_sound:
  assumes "routes_listed answer table column writable snap routes"
    and "load_shm_topology db = Inr (snap_point_manifest snap, snap_health_manifest snap)"
    and "man_slot_count (snap_point_manifest snap) < 2 ^ 63"
  shows "routes_sound writable snap routes"
  unfolding routes_sound_def
proof (intro allI impI)
  fix logical target
  let ?m = "snap_point_manifest snap"
  assume "bt_get routes logical = Some target"
  with assms(1) obtain row where
    "load_route (ascii table) (ascii column) writable ?m (configured_physical_points snap) row
       = Inr (Some (logical, target))"
    unfolding routes_listed_def by blast
  from load_route_bound [OF this] obtain slot where
    b: "is_writable (ppa_kind target) = writable" "target \<in> set (configured_physical_points snap)"
      "slot_for ?m target = Some slot" by auto
  from load_shm_topology_ok [OF assms(2)] obtain counts where
    c: "counts_ok counts" "?m = manifest_from_map counts"
      "set (bt_keys counts) \<subseteq> set (hm_channel_ids (snap_health_manifest snap))" .
  have v: "valid_manifest ?m" using manifest_from_map_valid c(1,2) assms(3) by simp
  have "health_contains (snap_health_manifest snap) (ppa_channel target)"
    using slot_for_configured_channel b(3) c(2,3) by (auto simp: health_contains_def)
  moreover have "slot < man_slot_count ?m" "physical_point_at ?m slot = Some target"
    using valid_point_slots(2) [OF v] b(3) by (auto simp: slot_for_iff [OF v] physical_point_at_iff [OF v])
  ultimately show "is_writable (ppa_kind target) = writable \<and> target \<in> set (configured_physical_points snap) \<and>
      health_contains (snap_health_manifest snap) (ppa_channel target) \<and>
      (\<exists>slot < man_slot_count ?m. slot_for ?m target = Some slot \<and> physical_point_at ?m slot = Some target)"
    using b by blast
qed

text \<open>A database with one channel: a measured point, two commands and a route to each kind.\<close>

definition trivial_hasher :: "unit fx_hasher" where
  "trivial_hasher =
     \<lparr>fx_default = (), fx_str = (\<lambda>_ h. h), fx_u8 = (\<lambda>_ h. h), fx_u32 = (\<lambda>_ h. h), fx_u64 = (\<lambda>_ h. h),
      fx_usize = (\<lambda>_ h. h), fx_counts = (\<lambda>_ h. h), fx_address = (\<lambda>_ h. h), fx_finish = (\<lambda>_. 5)\<rparr>"

definition sample_database :: sqlite_answers where
  "sample_database =
     \<lparr>sa_begin = Some (),
      sa_point_counts = (\<lambda>k. Some
        (if k = 0 then [\<lparr>cr_channel_id = 7, cr_min_point_id = 0, cr_upper_bound = 1, cr_row_count = 1,
            cr_distinct_count = 1\<rparr>]
         else if k = 2 then [\<lparr>cr_channel_id = 7, cr_min_point_id = 0, cr_upper_bound = 2, cr_row_count = 2,
            cr_distinct_count = 2\<rparr>]
         else [])),
      sa_channels = Some [7],
      sa_configured_points = Some [(7, 0, 0), (7, 2, 0), (7, 2, 1)],
      sa_measurement_routing = Some
        [\<lparr>rr_instance_id = 1, rr_channel_id = Some 7, rr_channel_type = Some (ascii ''T''),
          rr_channel_point_id = Some 0, rr_logical_point_id = 5\<rparr>],
      sa_action_routing = Some
        [\<lparr>rr_instance_id = 1, rr_channel_id = Some 7, rr_channel_type = Some (ascii ''C''),
          rr_channel_point_id = Some 1, rr_logical_point_id = 9\<rparr>],
      sa_commit = Some ()\<rparr>"

definition sample_snapshot :: sqlite_live_topology_snapshot where
  "sample_snapshot =
     \<lparr>snap_point_manifest = manifest_from_map [(7, [1, 0, 2, 0])],
      snap_health_manifest = \<lparr>hm_channel_ids = [7], hm_slot_count = 8\<rparr>,
      configured_physical_points =
        [\<lparr>ppa_channel = 7, ppa_kind = Telemetry, ppa_point = 0\<rparr>,
         \<lparr>ppa_channel = 7, ppa_kind = Command, ppa_point = 0\<rparr>,
         \<lparr>ppa_channel = 7, ppa_kind = Command, ppa_point = 1\<rparr>],
      snap_measurement_routes = [((1, 5), \<lparr>ppa_channel = 7, ppa_kind = Telemetry, ppa_point = 0\<rparr>)],
      snap_action_routes = [((1, 9), \<lparr>ppa_channel = 7, ppa_kind = Command, ppa_point = 1\<rparr>)],
      snap_digest = 5\<rparr>"

lemma sample_slots:
  "slot_for (manifest_from_map [(7, [1, 0, 2, 0])]) \<lparr>ppa_channel = 7, ppa_kind = Telemetry, ppa_point = 0\<rparr> = Some 0"
  "slot_for (manifest_from_map [(7, [1, 0, 2, 0])]) \<lparr>ppa_channel = 7, ppa_kind = Command, ppa_point = 1\<rparr> = Some 3"
  by (simp_all add: slot_for_def manifest_example bt_get_def layout_slot_def word_le_nat_alt)

lemma sample_loads: "load_sqlite_live_topology trivial_hasher sample_database = Inr sample_snapshot"
proof -
  have counts: "load_all_counts sample_database POINT_COUNT_TABLES [] = Inr [(7, [1, 0, 2, 0])]"
    by (simp add: POINT_COUNT_TABLES_def sample_database_def fetched_def stored_u32_def bt_get_def)
  have shm: "load_shm_topology sample_database =
      Inr (snap_point_manifest sample_snapshot, snap_health_manifest sample_snapshot)"
    unfolding load_shm_topology_def counts
    by (simp add: sample_database_def fetched_def stored_u32_def bt_keys_def health_from_channel_ids_def
        sample_snapshot_def)
  have conf: "load_configured_physical_points sample_database = Inr (configured_physical_points sample_snapshot)"
    by (simp add: load_configured_physical_points_def sample_database_def fetched_def load_configured_point_def
        stored_u32_def configured_kind_def sample_snapshot_def)
  note eval = load_routes_def sample_database_def sample_snapshot_def fetched_def load_route_def stored_u32_def
    parse_point_kind_def ascii_def is_writable_def sample_slots bt_get_def
  have m: "load_routes (sa_measurement_routing sample_database) (ascii ''measurement_routing'')
      (ascii ''measurement_id'') False (snap_point_manifest sample_snapshot)
      (configured_physical_points sample_snapshot) = Inr (snap_measurement_routes sample_snapshot)"
    by (simp add: eval)
  have a: "load_routes (sa_action_routing sample_database) (ascii ''action_routing'') (ascii ''action_id'') True
      (snap_point_manifest sample_snapshot) (configured_physical_points sample_snapshot) =
      Inr (snap_action_routes sample_snapshot)"
    by (simp add: eval)
  have "sa_begin sample_database = Some ()" "sa_commit sample_database = Some ()"
    by (simp_all add: sample_database_def)
  then show ?thesis
    unfolding load_sqlite_live_topology_def shm conf
    by (simp add: fetched_def m a) (simp add: sample_snapshot_def live_topology_digest_def trivial_hasher_def)
qed

lemma sample_snapshot_small: "man_slot_count (snap_point_manifest sample_snapshot) < 2 ^ 63"
  by (simp add: sample_snapshot_def manifest_example)

subsection \<open>Properties\<close>

text \<open>
  C12: A topology that loads from SQLite is coherent.  The routes are exactly the enabled rows
  that bind a physical point, one per logical address.  Action routes lead to writable points
  and measurement routes to read-only ones; each target is configured, its channel is in the
  health manifest, and it has a slot inside the segment that the reverse table maps back to it.
\<close>

theorem loaded_topology_is_coherent:
  assumes "load_sqlite_live_topology H db = Inr snap"
    and "man_slot_count (snap_point_manifest snap) < 2 ^ 63"
  shows "routes_sound False snap (snap_measurement_routes snap) \<and>
    routes_sound True snap (snap_action_routes snap) \<and>
    routes_listed (sa_measurement_routing db) ''measurement_routing'' ''measurement_id'' False snap
      (snap_measurement_routes snap) \<and>
    routes_listed (sa_action_routing db) ''action_routing'' ''action_id'' True snap (snap_action_routes snap)"
proof -
  have shm: "load_shm_topology db = Inr (snap_point_manifest snap, snap_health_manifest snap)"
    and m: "load_routes (sa_measurement_routing db) (ascii ''measurement_routing'') (ascii ''measurement_id'') False
      (snap_point_manifest snap) (configured_physical_points snap) = Inr (snap_measurement_routes snap)"
    and a: "load_routes (sa_action_routing db) (ascii ''action_routing'') (ascii ''action_id'') True
      (snap_point_manifest snap) (configured_physical_points snap) = Inr (snap_action_routes snap)"
    using assms(1) by (auto simp: load_sqlite_live_topology_def)
  from load_routes_spec [OF m] load_routes_spec [OF a] show ?thesis
    using listed_routes_sound [OF _ shm assms(2)] by blast
qed

text \<open>Witness: the sample database loads, and its action route leads to slot 3.\<close>

theorem loaded_topology_is_coherent_witness:
  "load_sqlite_live_topology trivial_hasher sample_database = Inr sample_snapshot \<and>
   routes_sound True sample_snapshot (snap_action_routes sample_snapshot) \<and>
   bt_get (snap_action_routes sample_snapshot) (1, 9) = Some \<lparr>ppa_channel = 7, ppa_kind = Command, ppa_point = 1\<rparr>"
  using loaded_topology_is_coherent [OF sample_loads sample_snapshot_small] sample_loads
  by (simp add: sample_snapshot_def bt_get_def)

end
