(* ===== verification/Point_Watch.thy ===== *)
theory Point_Watch
  imports Channel_Manifest
begin

section \<open>Change hints (shm-bridge/src/events.rs)\<close>

text \<open>
  The fixed-size frame sent after a slot write, and the check by which a consumer decides
  whether a hint still names the same typed slot.  The sockets are not modelled.
\<close>

record point_watch_event =
  pw_channel_id :: u32
  pw_point_id :: u32
  pw_point_type :: u8
  pw_value_bits :: u64
  pw_raw_bits :: u64
  pw_slot_index :: u64
  pw_timestamp_ms :: u64
  pw_producer_id :: u64

fun point_kind_code :: "point_kind \<Rightarrow> u8" where
  "point_kind_code Telemetry = 0"
| "point_kind_code Status = 1"
| "point_kind_code Command = 2"
| "point_kind_code Action = 3"

definition point_watch_event_new ::
    "u32 \<Rightarrow> point_kind \<Rightarrow> u32 \<Rightarrow> u64 \<Rightarrow> f64 \<Rightarrow> f64 \<Rightarrow> u64 \<Rightarrow> u64 \<Rightarrow> point_watch_event" where
  "point_watch_event_new c k p slot v raw ts producer =
     \<lparr>pw_channel_id = c, pw_point_id = p, pw_point_type = point_kind_code k, pw_value_bits = v, pw_raw_bits = raw,
      pw_slot_index = slot, pw_timestamp_ms = ts, pw_producer_id = producer\<rparr>"

definition byte_range :: "bytes \<Rightarrow> nat \<Rightarrow> nat \<Rightarrow> bytes" where
  "byte_range b i j = take (j - i) (drop i b)"

definition event_from_bytes :: "bytes \<Rightarrow> point_watch_event" where
  "event_from_bytes b =
     \<lparr>pw_channel_id = from_le_bytes (byte_range b 0 4), pw_point_id = from_le_bytes (byte_range b 4 8),
      pw_point_type = b ! 8, pw_value_bits = from_le_bytes (byte_range b 16 24),
      pw_raw_bits = from_le_bytes (byte_range b 24 32), pw_slot_index = from_le_bytes (byte_range b 32 40),
      pw_timestamp_ms = from_le_bytes (byte_range b 40 48), pw_producer_id = from_le_bytes (byte_range b 48 56)\<rparr>"

definition event_to_bytes :: "point_watch_event \<Rightarrow> bytes" where
  "event_to_bytes e =
     to_le_bytes (pw_channel_id e) @ to_le_bytes (pw_point_id e) @ [pw_point_type e] @ replicate 7 0 @
     to_le_bytes (pw_value_bits e) @ to_le_bytes (pw_raw_bits e) @ to_le_bytes (pw_slot_index e) @
     to_le_bytes (pw_timestamp_ms e) @ to_le_bytes (pw_producer_id e)"

definition event_point_kind :: "point_watch_event \<Rightarrow> point_kind option" where
  "event_point_kind e =
     (let t = pw_point_type e in
      if t = 0 then Some Telemetry else if t = 1 then Some Status
      else if t = 2 then Some Command else if t = 3 then Some Action else None)"

definition matches_manifest :: "point_watch_event \<Rightarrow> channel_point_manifest \<Rightarrow> bool" where
  "matches_manifest e m =
     (case event_point_kind e of
        None \<Rightarrow> False
      | Some k \<Rightarrow>
          (case slot_for m \<lparr>ppa_channel = pw_channel_id e, ppa_kind = k, ppa_point = pw_point_id e\<rparr> of
             None \<Rightarrow> False
           | Some slot \<Rightarrow> slot < 2 ^ 64 \<and> word_of_nat slot = pw_slot_index e))"

lemma event_length [simp]: "length (event_to_bytes e) = 56"
  by (simp add: event_to_bytes_def length_to_le_bytes)

lemma event_roundtrip: "event_from_bytes (event_to_bytes e) = e"
  by (simp add: event_from_bytes_def event_to_bytes_def byte_range_def length_to_le_bytes nth_append
      from_to_le_bytes_dvd)

lemma event_kind_new [simp]: "event_point_kind (point_watch_event_new c k p slot v raw ts producer) = Some k"
  by (cases k) (simp_all add: event_point_kind_def point_watch_event_new_def)

lemma matches_slot:
  assumes "valid_manifest m" and "man_slot_count m < 2 ^ 63"
  shows "matches_manifest (point_watch_event_new c k p slot v raw ts producer) m \<longleftrightarrow>
    physical_point_at m (unat slot) = Some \<lparr>ppa_channel = c, ppa_kind = k, ppa_point = p\<rparr>"
proof -
  let ?a = "\<lparr>ppa_channel = c, ppa_kind = k, ppa_point = p\<rparr>"
  have small: "n < 2 ^ 64" if "slot_for m ?a = Some n" for n
  proof -
    have "n < man_slot_count m" using that valid_point_slots(2) [OF assms(1)] by (auto simp: slot_for_iff [OF assms(1)])
    then show ?thesis using assms(2) by simp
  qed
  have "word_of_nat n = slot \<longleftrightarrow> n = unat slot" if "n < 2 ^ 64" for n
    using that by (auto simp: unat_of_nat)
  then have "matches_manifest (point_watch_event_new c k p slot v raw ts producer) m \<longleftrightarrow>
      slot_for m ?a = Some (unat slot)"
    using small by (cases "slot_for m ?a") (auto simp: matches_manifest_def, auto simp: point_watch_event_new_def)
  then show ?thesis by (simp add: slot_for_iff [OF assms(1)] physical_point_at_iff [OF assms(1)])
qed

subsection \<open>Properties\<close>

text \<open>
  A change hint survives the 56-byte frame, and a consumer accepts it exactly when its own
  manifest places the hinted point, with its channel and kind, in the hinted slot.
\<close>

lemma hint_names_its_slot:
  assumes "counts_ok counts" and "man_slot_count (manifest_from_map counts) < 2 ^ 63"
    and "e = point_watch_event_new c k p slot v raw ts producer"
  shows "length (event_to_bytes e) = 56 \<and> event_from_bytes (event_to_bytes e) = e \<and>
    (matches_manifest (event_from_bytes (event_to_bytes e)) (manifest_from_map counts) \<longleftrightarrow>
       physical_point_at (manifest_from_map counts) (unat slot) =
         Some \<lparr>ppa_channel = c, ppa_kind = k, ppa_point = p\<rparr>)"
  using matches_slot [OF manifest_from_map_valid [OF assms(1,2)] assms(2)]
  by (simp add: event_roundtrip assms(3))

end
