(* ===== verification/Runtime_Topology.thy ===== *)
theory Runtime_Topology
  imports Sqlite_Topology Point_Watch
begin

section \<open>Publication of the runtime topology (services/automation/src/infra/runtime_topology.rs)\<close>

text \<open>
  The automation service holds one current generation of routes and physical planes and
  replaces it as a whole.  An \<open>Arc\<close> is an index into the arena of all generations ever
  allocated, so \<open>Arc::ptr_eq\<close> is equality of indices.  Every store to \<open>current\<close> happens under
  the refresh gate and an operation makes at most one, so an operation is one step of the
  handle; what happens outside the handle between two awaits is part of the ports.  The mapped
  planes of the shared-memory bridge are of type \<open>'r\<close> and are reached through the ports.
\<close>

subsection \<open>Generations\<close>

record candidate_parts =
  cp_point_manifest :: channel_point_manifest
  cp_health_manifest :: channel_health_manifest
  cp_measurement_routes :: logical_point_routes
  cp_action_routes :: logical_point_routes
  cp_digest :: u64

definition candidate_from_snapshot :: "sqlite_live_topology_snapshot \<Rightarrow> candidate_parts" where
  "candidate_from_snapshot snap =
     \<lparr>cp_point_manifest = snap_point_manifest snap, cp_health_manifest = snap_health_manifest snap,
      cp_measurement_routes = snap_measurement_routes snap, cp_action_routes = snap_action_routes snap,
      cp_digest = snap_digest snap\<rparr>"

record 'r read_generation =
  rg_planes :: 'r
  rg_point_manifest :: channel_point_manifest
  rg_health_manifest :: channel_health_manifest

record 'r automation_generation =
  ag_read :: "'r read_generation"
  ag_measurement_routes :: logical_point_routes
  ag_action_routes :: logical_point_routes
  ag_digest :: u64
  ag_sequence :: u64
  ag_physical_validated :: bool
  ag_measurement_routes_revoked :: bool
  ag_action_routes_revoked :: bool

definition compose_generation ::
    "'r read_generation \<Rightarrow> candidate_parts \<Rightarrow> bool \<Rightarrow> u64 \<Rightarrow> 'r automation_generation" where
  "compose_generation read parts physical_validated sequence =
     \<lparr>ag_read = read, ag_measurement_routes = cp_measurement_routes parts,
      ag_action_routes = cp_action_routes parts, ag_digest = cp_digest parts, ag_sequence = sequence,
      ag_physical_validated = physical_validated, ag_measurement_routes_revoked = False,
      ag_action_routes_revoked = False\<rparr>"

definition generation_measurement_route :: "'r automation_generation \<Rightarrow> u32 \<Rightarrow> u32 \<Rightarrow> physical_point_address option" where
  "generation_measurement_route g i p = bt_get (ag_measurement_routes g) (i, p)"

definition generation_action_route :: "'r automation_generation \<Rightarrow> u32 \<Rightarrow> u32 \<Rightarrow> physical_point_address option" where
  "generation_action_route g i p = bt_get (ag_action_routes g) (i, p)"

definition has_physical_layout ::
    "'h fx_hasher \<Rightarrow> 'r automation_generation \<Rightarrow> candidate_parts \<Rightarrow> bool" where
  "has_physical_layout H g parts \<longleftrightarrow>
     point_layout_hash H (rg_point_manifest (ag_read g)) = point_layout_hash H (cp_point_manifest parts) \<and>
     man_slot_count (rg_point_manifest (ag_read g)) = man_slot_count (cp_point_manifest parts) \<and>
     health_layout_hash H (rg_health_manifest (ag_read g)) = health_layout_hash H (cp_health_manifest parts) \<and>
     hm_slot_count (rg_health_manifest (ag_read g)) = hm_slot_count (cp_health_manifest parts)"

subsection \<open>Ports\<close>

record slot_snapshot =
  ss_value :: f64
  ss_raw :: f64
  ss_timestamp_ms :: u64

record channel_health_observation =
  cho_channel_id :: u32
  cho_online :: bool
  cho_observed_at :: u64

record join_error =
  je_cancelled :: bool
  je_text :: rust_string

text \<open>
  The database, the publication of the planes and the command sink; then reading the planes.  \<open>tp_with_authority\<close> is the validation that
  \<open>with_validated_authority\<close> performs before it runs its closure under the locks.
\<close>

record ('r, 's) topology_ports =
  tp_database :: "'s \<Rightarrow> sqlite_answers \<times> 's"
  tp_new_lazy :: "u64 \<Rightarrow> u64 \<Rightarrow> channel_point_manifest \<Rightarrow> channel_health_manifest \<Rightarrow> port_fault + 'r"
  tp_open :: "u64 \<Rightarrow> u64 \<Rightarrow> channel_point_manifest \<Rightarrow> channel_health_manifest \<Rightarrow> 's \<Rightarrow>
    (join_error + (port_fault + 'r)) \<times> 's"
  tp_validate_layouts :: "'r \<Rightarrow> ('s, unit) port_call"
  tp_with_authority :: "'r \<Rightarrow> ('s, unit) port_call"
  tp_is_writer_available :: "'s \<Rightarrow> bool \<times> 's"
  tp_open_generation :: "channel_point_manifest \<Rightarrow> ('s, unit) port_call"

record ('r, 's) plane_ports =
  pl_read_slot :: "'r \<Rightarrow> nat \<Rightarrow> ('s, slot_snapshot option) port_call"
  pl_read_channel :: "'r \<Rightarrow> u32 \<Rightarrow> ('s, channel_health_observation option) port_call"

definition physical_publication_conflict :: "port_fault \<Rightarrow> port_fault" where
  "physical_publication_conflict e =
     (if pf_kind e = InvalidData then
        \<lparr>pf_kind = Conflict,
         pf_message = ascii ''IO has not published a coherent point/health topology yet: '' @ port_fault_display e\<rparr>
      else e)"

definition topology_validation_task_error :: "join_error \<Rightarrow> port_fault" where
  "topology_validation_task_error e =
     (if je_cancelled e then
        \<lparr>pf_kind = Unavailable,
         pf_message = ascii ''automation topology validation task was cancelled: '' @ je_text e\<rparr>
      else
        \<lparr>pf_kind = Permanent,
         pf_message = ascii ''automation topology validation task panicked: '' @ je_text e\<rparr>)"

definition read_instance_point ::
    "('r, 's) plane_ports \<Rightarrow> 'r automation_generation \<Rightarrow> u32 \<Rightarrow> bool \<Rightarrow> u32 \<Rightarrow>
      ('s, (f64 \<times> u64) option) port_call" where
  "read_instance_point L g i is_action p s =
     (case (if is_action then generation_action_route g i p else generation_measurement_route g i p) of
        None \<Rightarrow> (Inr None, s)
      | Some target \<Rightarrow>
          (case slot_for (rg_point_manifest (ag_read g)) target of
             None \<Rightarrow>
               (Inl \<lparr>pf_kind = Conflict,
                     pf_message = ascii ''logical route is absent from its pinned point manifest''\<rparr>, s)
           | Some slot \<Rightarrow>
               (case pl_read_slot L (rg_planes (ag_read g)) slot s of
                  (Inl e, s') \<Rightarrow> (Inl e, s')
                | (Inr None, s') \<Rightarrow> (Inr None, s')
                | (Inr (Some sample), s') \<Rightarrow>
                    if f64_is_nan (ss_value sample) then (Inr None, s')
                    else if \<not> f64_is_finite (ss_value sample) then
                      (Inl \<lparr>pf_kind = InvalidData,
                            pf_message = ascii ''authoritative SHM contains a non-finite point value''\<rparr>, s')
                    else (Inr (Some (ss_value sample, ss_timestamp_ms sample)), s'))))"

definition channel_health ::
    "('r, 's) plane_ports \<Rightarrow> 'r automation_generation \<Rightarrow> u32 \<Rightarrow>
      ('s, channel_health_observation option) port_call" where
  "channel_health L g c = pl_read_channel L (rg_planes (ag_read g)) c"

definition accepts_point_watch_event :: "'r automation_generation \<Rightarrow> point_watch_event \<Rightarrow> bool" where
  "accepts_point_watch_event g e = matches_manifest e (rg_point_manifest (ag_read g))"

definition accepts_ready_point_watch_event ::
    "'r automation_generation \<Rightarrow> point_watch_event \<Rightarrow> u64 \<Rightarrow> bool" where
  "accepts_ready_point_watch_event g e ready_sequence \<longleftrightarrow>
     ag_sequence g = ready_sequence \<and> accepts_point_watch_event g e"

subsection \<open>The handle\<close>

record 'r topology_handle =
  th_arena :: "'r automation_generation list"
  th_current :: nat
  th_change_sequence :: u64
  th_notified :: u64

definition load_generation :: "'r topology_handle \<Rightarrow> 'r automation_generation" where
  "load_generation h = th_arena h ! th_current h"

definition next_sequence :: "'r topology_handle \<Rightarrow> u64 \<times> 'r topology_handle" where
  "next_sequence h =
     (th_change_sequence h + 1, h\<lparr>th_change_sequence := th_change_sequence h + 1\<rparr>)"

definition notify_change :: "u64 \<Rightarrow> 'r topology_handle \<Rightarrow> 'r topology_handle" where
  "notify_change sequence h = h\<lparr>th_notified := sequence\<rparr>"

text \<open>\<open>Arc::new\<close> followed by \<open>current.store\<close>.\<close>

definition store_new :: "'r automation_generation \<Rightarrow> 'r topology_handle \<Rightarrow> 'r topology_handle" where
  "store_new g h = h\<lparr>th_arena := th_arena h @ [g], th_current := length (th_arena h)\<rparr>"

definition handle_new_lazy ::
    "'h fx_hasher \<Rightarrow> ('r, 's) topology_ports \<Rightarrow> sqlite_live_topology_snapshot \<Rightarrow> port_fault + 'r topology_handle" where
  "handle_new_lazy H P snap =
     (let parts = candidate_from_snapshot snap in
      rbind (tp_new_lazy P (point_layout_hash H (cp_point_manifest parts))
               (health_layout_hash H (cp_health_manifest parts)) (cp_point_manifest parts) (cp_health_manifest parts))
        (\<lambda>planes.
           Inr \<lparr>th_arena = [compose_generation
                  \<lparr>rg_planes = planes, rg_point_manifest = cp_point_manifest parts,
                   rg_health_manifest = cp_health_manifest parts\<rparr> parts False 0],
                th_current = 0, th_change_sequence = 0, th_notified = 0\<rparr>))"

definition publish_composed ::
    "'r read_generation \<Rightarrow> candidate_parts \<Rightarrow> bool \<Rightarrow> 'r topology_handle \<Rightarrow> 'r topology_handle" where
  "publish_composed read parts validated h =
     (let (sequence, h1) = next_sequence h
      in notify_change sequence (store_new (compose_generation read parts validated sequence) h1))"

text \<open>The last part of \<open>refresh_locked\<close>: reopen both planes and install the command writer.\<close>

definition refresh_physical ::
    "'h fx_hasher \<Rightarrow> ('r, 's) topology_ports \<Rightarrow> candidate_parts \<Rightarrow> bool \<Rightarrow> 'r topology_handle \<Rightarrow> 's \<Rightarrow>
      (port_fault + bool) \<times> 'r topology_handle \<times> 's" where
  "refresh_physical H P parts changed h s =
     (case tp_open P (point_layout_hash H (cp_point_manifest parts)) (health_layout_hash H (cp_health_manifest parts))
             (cp_point_manifest parts) (cp_health_manifest parts) s of
        (Inl e, s1) \<Rightarrow> (Inl (topology_validation_task_error e), h, s1)
      | (Inr (Inl e), s1) \<Rightarrow> (Inl (physical_publication_conflict e), h, s1)
      | (Inr (Inr planes), s1) \<Rightarrow>
          let read = \<lparr>rg_planes = planes, rg_point_manifest = cp_point_manifest parts,
                      rg_health_manifest = cp_health_manifest parts\<rparr>;
              (sequence, h1) = (if changed then next_sequence h else (ag_sequence (load_generation h), h));
              replacement = compose_generation read parts True sequence
          in case tp_with_authority P planes s1 of
               (Inl e, s2) \<Rightarrow> (Inl (physical_publication_conflict e), h1, s2)
             | (Inr _, s2) \<Rightarrow>
                 (case tp_open_generation P (cp_point_manifest parts) s2 of
                    (Inl e, s3) \<Rightarrow> (Inl e, h1, s3)
                  | (Inr _, s3) \<Rightarrow>
                      let h2 = store_new replacement h1
                      in (Inr changed, if changed then notify_change sequence h2 else h2, s3)))"

definition refresh_locked ::
    "'h fx_hasher \<Rightarrow> ('r, 's) topology_ports \<Rightarrow> 'r topology_handle \<Rightarrow> 's \<Rightarrow>
      (port_fault + bool) \<times> 'r topology_handle \<times> 's" where
  "refresh_locked H P h s =
     (let (db, s0) = tp_database P s in
      case load_sqlite_live_topology H db of
        Inl e \<Rightarrow> (Inl e, h, s0)
      | Inr snap \<Rightarrow>
          let parts = candidate_from_snapshot snap;
              current = load_generation h;
              physical_changed = \<not> has_physical_layout H current parts;
              logical_changed = (ag_digest current \<noteq> cp_digest parts \<or> ag_measurement_routes_revoked current \<or>
                ag_action_routes_revoked current);
              (physical_current, s1) =
                (if ag_physical_validated current then
                   let (r, s') = tp_validate_layouts P (rg_planes (ag_read current)) s0 in (\<not> isl r, s')
                 else (False, s0));
              (writer_available, s2) =
                (if \<not> physical_changed \<and> physical_current then tp_is_writer_available P s1 else (False, s1))
          in if \<not> physical_changed \<and> physical_current \<and> writer_available then
               if \<not> logical_changed then (Inr False, h, s2)
               else (Inr True, publish_composed (ag_read current) parts True h, s2)
             else if \<not> physical_changed \<and> logical_changed \<and> \<not> ag_physical_validated current then
               (Inr True, publish_composed (ag_read current) parts False h, s2)
             else
               refresh_physical H P parts
                 (logical_changed \<or> physical_changed \<or> \<not> ag_physical_validated current) h s2)"

definition revoke_measurement_routes_locked :: "'r topology_handle \<Rightarrow> nat \<times> 'r topology_handle" where
  "revoke_measurement_routes_locked h =
     (let current = load_generation h in
      if ag_measurement_routes_revoked current then (th_current h, h)
      else
        let (sequence, h1) = next_sequence h;
            revoked = current\<lparr>ag_measurement_routes := [], ag_sequence := sequence,
              ag_measurement_routes_revoked := True\<rparr>;
            h2 = notify_change sequence (store_new revoked h1)
        in (th_current h2, h2))"

definition revoke_action_routes_locked :: "'r topology_handle \<Rightarrow> nat \<times> 'r topology_handle" where
  "revoke_action_routes_locked h =
     (let current = load_generation h in
      if ag_action_routes_revoked current then (th_current h, h)
      else
        let (sequence, h1) = next_sequence h;
            revoked = current\<lparr>ag_action_routes := [], ag_sequence := sequence, ag_action_routes_revoked := True\<rparr>;
            h2 = notify_change sequence (store_new revoked h1)
        in (th_current h2, h2))"

definition refresh_or_revoke_commands ::
    "'h fx_hasher \<Rightarrow> ('r, 's) topology_ports \<Rightarrow> 'r topology_handle \<Rightarrow> 's \<Rightarrow>
      (port_fault + bool) \<times> 'r topology_handle \<times> 's" where
  "refresh_or_revoke_commands H P h s =
     (case refresh_locked H P h s of
        (Inr changed, h1, s1) \<Rightarrow> (Inr changed, h1, s1)
      | (Inl e, h1, s1) \<Rightarrow> (Inl e, snd (revoke_action_routes_locked h1), s1))"

subsection \<open>Mutation leases\<close>

record routing_lease =
  rl_restore_generation :: "nat option"
  rl_revoked_generation :: nat

definition begin_action_routing_mutation :: "'r topology_handle \<Rightarrow> routing_lease \<times> 'r topology_handle" where
  "begin_action_routing_mutation h =
     (let previous = th_current h; (revoked, h1) = revoke_action_routes_locked h
      in (\<lparr>rl_restore_generation = (if previous \<noteq> revoked then Some previous else None),
           rl_revoked_generation = revoked\<rparr>, h1))"

definition begin_measurement_routing_mutation :: "'r topology_handle \<Rightarrow> routing_lease \<times> 'r topology_handle" where
  "begin_measurement_routing_mutation h =
     (let previous = th_current h; (revoked, h1) = revoke_measurement_routes_locked h
      in (\<lparr>rl_restore_generation = (if previous \<noteq> revoked then Some previous else None),
           rl_revoked_generation = revoked\<rparr>, h1))"

definition restore_revoked_generation :: "nat \<Rightarrow> nat \<Rightarrow> 'r topology_handle \<Rightarrow> 'r topology_handle" where
  "restore_revoked_generation previous revoked h =
     (if th_current h \<noteq> revoked then h
      else notify_change (ag_sequence (th_arena h ! previous)) (h\<lparr>th_current := previous\<rparr>))"

definition commit_started :: "routing_lease \<Rightarrow> routing_lease" where
  "commit_started l = l\<lparr>rl_restore_generation := None\<rparr>"

definition restore_before_commit :: "routing_lease \<Rightarrow> 'r topology_handle \<Rightarrow> routing_lease \<times> 'r topology_handle" where
  "restore_before_commit l h =
     (case rl_restore_generation l of
        None \<Rightarrow> (l, h)
      | Some previous \<Rightarrow>
          (l\<lparr>rl_restore_generation := None\<rparr>, restore_revoked_generation previous (rl_revoked_generation l) h))"

text \<open>
  Dropping a lease restores the previous generation in a spawned task that keeps the refresh
  gate; outside a Tokio runtime the task cannot be spawned.
\<close>

definition lease_drop :: "bool \<Rightarrow> routing_lease \<Rightarrow> 'r topology_handle \<Rightarrow> 'r topology_handle" where
  "lease_drop in_runtime l h =
     (case rl_restore_generation l of
        None \<Rightarrow> h
      | Some previous \<Rightarrow>
          if in_runtime then restore_revoked_generation previous (rl_revoked_generation l) h else h)"

text \<open>\<open>restore\<close> and \<open>publish\<close> consume the lease, which is dropped when they return.\<close>

definition lease_restore :: "routing_lease \<Rightarrow> 'r topology_handle \<Rightarrow> 'r topology_handle" where
  "lease_restore l h = (let (l1, h1) = restore_before_commit l h in lease_drop True l1 h1)"

definition lease_publish ::
    "'h fx_hasher \<Rightarrow> ('r, 's) topology_ports \<Rightarrow> routing_lease \<Rightarrow> 'r topology_handle \<Rightarrow> 's \<Rightarrow>
      (port_fault + bool) \<times> 'r topology_handle \<times> 's" where
  "lease_publish H P l h s =
     (let (r, h1, s1) = refresh_locked H P h s in (r, lease_drop True (commit_started l) h1, s1))"

subsection \<open>Readiness of the change hints\<close>

type_synonym point_watch_readiness = u64

definition readiness_new :: point_watch_readiness where
  "readiness_new = - 1"

definition mark_unready :: "point_watch_readiness \<Rightarrow> point_watch_readiness" where
  "mark_unready r = - 1"

definition mark_ready :: "u64 \<Rightarrow> point_watch_readiness \<Rightarrow> point_watch_readiness" where
  "mark_ready sequence r = sequence"

definition readiness_accepts :: "point_watch_readiness \<Rightarrow> 'r automation_generation \<Rightarrow> point_watch_event \<Rightarrow> bool" where
  "readiness_accepts r g e = accepts_ready_point_watch_event g e r"

subsection \<open>Runs\<close>

datatype lease_state = NoLease | ActionLease routing_lease | MeasurementLease routing_lease

text \<open>
  The operations the service performs, under the refresh gate: a held lease keeps the gate, so
  then only the lease's own operations run.  In a run the rest of the world may change at any
  time; the number counts the operations.
\<close>

inductive topology_step ::
    "'h fx_hasher \<Rightarrow> ('r, 's) topology_ports \<Rightarrow> 'r topology_handle \<times> lease_state \<times> 's \<Rightarrow>
      'r topology_handle \<times> lease_state \<times> 's \<Rightarrow> bool"
  for H P where
  Refresh: "refresh_locked H P h s = (r, h', s') \<Longrightarrow> topology_step H P (h, NoLease, s) (h', NoLease, s')"
| RefreshOrRevoke:
    "refresh_or_revoke_commands H P h s = (r, h', s') \<Longrightarrow> topology_step H P (h, NoLease, s) (h', NoLease, s')"
| RevokeAction: "topology_step H P (h, NoLease, s) (snd (revoke_action_routes_locked h), NoLease, s)"
| RevokeMeasurement: "topology_step H P (h, NoLease, s) (snd (revoke_measurement_routes_locked h), NoLease, s)"
| BeginAction:
    "begin_action_routing_mutation h = (l, h') \<Longrightarrow> topology_step H P (h, NoLease, s) (h', ActionLease l, s)"
| BeginMeasurement:
    "begin_measurement_routing_mutation h = (l, h') \<Longrightarrow>
       topology_step H P (h, NoLease, s) (h', MeasurementLease l, s)"
| CommitAction: "topology_step H P (h, ActionLease l, s) (h, ActionLease (commit_started l), s)"
| CommitMeasurement: "topology_step H P (h, MeasurementLease l, s) (h, MeasurementLease (commit_started l), s)"
| Publish:
    "lease_publish H P l h s = (r, h', s') \<Longrightarrow> x \<in> {ActionLease l, MeasurementLease l} \<Longrightarrow>
       topology_step H P (h, x, s) (h', NoLease, s')"
| Restore:
    "x \<in> {ActionLease l, MeasurementLease l} \<Longrightarrow> topology_step H P (h, x, s) (lease_restore l h, NoLease, s)"
| Drop:
    "x \<in> {ActionLease l, MeasurementLease l} \<Longrightarrow>
       topology_step H P (h, x, s) (lease_drop in_runtime l h, NoLease, s)"

inductive topology_run ::
    "'h fx_hasher \<Rightarrow> ('r, 's) topology_ports \<Rightarrow> nat \<Rightarrow> 'r topology_handle \<times> lease_state \<times> 's \<Rightarrow> bool"
  for H P where
  Start:
    "load_sqlite_live_topology H (fst (tp_database P s)) = Inr snap \<Longrightarrow> handle_new_lazy H P snap = Inr h \<Longrightarrow>
       topology_run H P 0 (h, NoLease, s')"
| Idle: "topology_run H P n (h, l, s) \<Longrightarrow> topology_run H P n (h, l, s')"
| Step: "topology_run H P n x \<Longrightarrow> topology_step H P x y \<Longrightarrow> topology_run H P (Suc n) y"

text \<open>What the service relies on: among the databases it meets, the digest tells the routes apart.\<close>

definition digest_identifies :: "'h fx_hasher \<Rightarrow> ('r, 's) topology_ports \<Rightarrow> bool" where
  "digest_identifies H P \<longleftrightarrow>
     (\<forall>s s' snap snap'.
        load_sqlite_live_topology H (fst (tp_database P s)) = Inr snap \<longrightarrow>
        load_sqlite_live_topology H (fst (tp_database P s')) = Inr snap' \<longrightarrow> snap_digest snap = snap_digest snap' \<longrightarrow>
        snap_measurement_routes snap = snap_measurement_routes snap' \<and>
        snap_action_routes snap = snap_action_routes snap')"

definition same_routes :: "'r automation_generation \<Rightarrow> 'r automation_generation \<Rightarrow> bool" where
  "same_routes g g' \<longleftrightarrow>
     ag_measurement_routes g = ag_measurement_routes g' \<and> ag_action_routes g = ag_action_routes g'"

text \<open>Where the routes of a generation come from.\<close>

definition generation_ok :: "'h fx_hasher \<Rightarrow> ('r, 's) topology_ports \<Rightarrow> 'r automation_generation \<Rightarrow> bool" where
  "generation_ok H P g \<longleftrightarrow>
     (ag_measurement_routes_revoked g \<longrightarrow> ag_measurement_routes g = []) \<and>
     (ag_action_routes_revoked g \<longrightarrow> ag_action_routes g = []) \<and>
     (\<exists>s snap. load_sqlite_live_topology H (fst (tp_database P s)) = Inr snap \<and> ag_digest g = snap_digest snap \<and>
        (\<not> ag_measurement_routes_revoked g \<longrightarrow> ag_measurement_routes g = snap_measurement_routes snap) \<and>
        (\<not> ag_action_routes_revoked g \<longrightarrow> ag_action_routes g = snap_action_routes snap))"

definition arena_ok :: "'h fx_hasher \<Rightarrow> ('r, 's) topology_ports \<Rightarrow> 'r topology_handle \<Rightarrow> bool" where
  "arena_ok H P h \<longleftrightarrow>
     th_current h < length (th_arena h) \<and>
     (\<forall>g\<in>set (th_arena h). generation_ok H P g \<and> ag_sequence g \<le> th_change_sequence h \<and>
        (\<forall>g'\<in>set (th_arena h). ag_sequence g = ag_sequence g' \<longrightarrow> same_routes g g'))"

definition grows :: "nat \<Rightarrow> 'r topology_handle \<Rightarrow> 'r topology_handle \<Rightarrow> bool" where
  "grows k h h' \<longleftrightarrow>
     (\<exists>ext. th_arena h' = th_arena h @ ext) \<and> unat (th_change_sequence h') \<le> unat (th_change_sequence h) + k"

definition room :: "nat \<Rightarrow> 'r topology_handle \<Rightarrow> bool" where
  "room k h \<longleftrightarrow> unat (th_change_sequence h) + k < 2 ^ 64"

lemma grows_refl [simp]: "grows k h h"
  by (simp add: grows_def)

lemma grows_trans: "grows j h h1 \<Longrightarrow> grows k h1 h2 \<Longrightarrow> grows (j + k) h h2"
  by (auto simp: grows_def)

lemma grows_mono: "grows j h h' \<Longrightarrow> j \<le> k \<Longrightarrow> grows k h h'"
  by (auto simp: grows_def)

lemma grows_same: "th_arena h' = th_arena h \<Longrightarrow> th_change_sequence h' = th_change_sequence h \<Longrightarrow> grows k h h'"
  by (simp add: grows_def)

lemma room_less: "room k h \<Longrightarrow> j \<le> k \<Longrightarrow> room j h"
  by (simp add: room_def)

lemma room_grows: "room (j + k) h \<Longrightarrow> grows j h h' \<Longrightarrow> room k h'"
  by (auto simp: room_def grows_def)

lemma load_in_arena: "arena_ok H P h \<Longrightarrow> load_generation h \<in> set (th_arena h)"
  by (auto simp: arena_ok_def load_generation_def)

lemma arena_okD:
  assumes "arena_ok H P h" and "g \<in> set (th_arena h)"
  shows "generation_ok H P g" and "ag_sequence g \<le> th_change_sequence h"
    and "g' \<in> set (th_arena h) \<Longrightarrow> ag_sequence g = ag_sequence g' \<Longrightarrow> same_routes g g'"
  using assms by (auto simp: arena_ok_def)

lemma unat_Suc_small: "unat w + 1 < 2 ^ 64 \<Longrightarrow> unat (w + 1) = unat w + 1" for w :: u64
  by (simp add: unat_word_ariths)

lemma same_routes_sym: "same_routes g g' \<longleftrightarrow> same_routes g' g"
  by (auto simp: same_routes_def)

lemma same_routes_refl [simp]: "same_routes g g"
  by (simp add: same_routes_def)

lemma arena_ok_snoc:
  assumes ok: "arena_ok H P h" and g: "generation_ok H P g" "ag_sequence g \<le> th_change_sequence h'"
    and cs: "th_change_sequence h \<le> th_change_sequence h'"
    and same: "\<And>x. x \<in> set (th_arena h) \<Longrightarrow> ag_sequence x = ag_sequence g \<Longrightarrow> same_routes x g"
    and h': "th_arena h' = th_arena h @ [g]" "th_current h' = length (th_arena h)"
  shows "arena_ok H P h'"
  unfolding arena_ok_def h'
proof (intro conjI ballI impI)
  fix x y
  assume x: "x \<in> set (th_arena h @ [g])"
  show "generation_ok H P x" using x g arena_okD(1) [OF ok] by auto
  show "ag_sequence x \<le> th_change_sequence h'"
    using x g(2) arena_okD(2) [OF ok] cs by (auto intro: order_trans)
  assume y: "y \<in> set (th_arena h @ [g])" and eq: "ag_sequence x = ag_sequence y"
  consider "x \<in> set (th_arena h)" "y \<in> set (th_arena h)" | "x = g" "y \<in> set (th_arena h)"
    | "x \<in> set (th_arena h)" "y = g" | "x = g" "y = g" using x y by auto
  then show "same_routes x y"
    using same arena_okD(3) [OF ok] eq same_routes_sym [of x y] by cases auto
qed simp

text \<open>A generation under a fresh sequence number.\<close>

lemma publish_fresh:
  assumes ok: "arena_ok H P h" and r: "room 1 h" and g: "generation_ok H P g"
    and sq: "ag_sequence g = th_change_sequence h + 1"
    and h': "th_arena h' = th_arena h @ [g]" "th_current h' = length (th_arena h)"
      "th_change_sequence h' = th_change_sequence h + 1"
  shows "arena_ok H P h' \<and> grows 1 h h'"
proof -
  have cs: "unat (th_change_sequence h + 1) = unat (th_change_sequence h) + 1"
    using r by (intro unat_Suc_small) (simp add: room_def)
  have "ag_sequence x \<noteq> ag_sequence g" if "x \<in> set (th_arena h)" for x
    using arena_okD(2) [OF ok that] cs unfolding sq by (auto simp: word_le_nat_alt)
  moreover have "th_change_sequence h \<le> th_change_sequence h + 1" by (simp add: word_le_nat_alt cs)
  ultimately have "arena_ok H P h'" using arena_ok_snoc [OF ok g _ _ _ h'(1,2)] h'(3) sq by auto
  then show ?thesis by (simp add: grows_def h' cs)
qed

text \<open>A generation that repeats the current one under its own sequence number.\<close>

lemma publish_again:
  assumes ok: "arena_ok H P h" and g: "generation_ok H P g"
    and sq: "ag_sequence g = ag_sequence (load_generation h)" "same_routes (load_generation h) g"
    and h': "th_arena h' = th_arena h @ [g]" "th_current h' = length (th_arena h)"
      "th_change_sequence h' = th_change_sequence h"
  shows "arena_ok H P h' \<and> grows 0 h h'"
proof -
  note cur = load_in_arena [OF ok]
  have "same_routes x g" if "x \<in> set (th_arena h)" "ag_sequence x = ag_sequence g" for x
    using arena_okD(3) [OF ok that(1) cur] that(2) sq by (auto simp: same_routes_def)
  then have "arena_ok H P h'"
    using arena_ok_snoc [OF ok g _ _ _ h'(1,2)] h'(3) sq(1) arena_okD(2) [OF ok cur] by auto
  then show ?thesis by (simp add: grows_def h')
qed

lemma arena_ok_keep:
  assumes "arena_ok H P h" and "th_arena h' = th_arena h" and "th_current h' < length (th_arena h)"
    and "th_change_sequence h \<le> th_change_sequence h'"
  shows "arena_ok H P h'"
  using assms by (auto simp: arena_ok_def intro: order_trans)

lemma next_sequence_ok:
  assumes "arena_ok H P h" and "room 1 h"
  shows "arena_ok H P (snd (next_sequence h)) \<and> grows 1 h (snd (next_sequence h))"
proof -
  have cs: "unat (th_change_sequence h + 1) = unat (th_change_sequence h) + 1"
    using assms(2) by (intro unat_Suc_small) (simp add: room_def)
  have "arena_ok H P (snd (next_sequence h))"
    using assms(1) by (intro arena_ok_keep [OF assms(1)])
      (simp_all add: next_sequence_def arena_ok_def word_le_nat_alt cs)
  then show ?thesis by (simp add: next_sequence_def grows_def cs)
qed

lemma composed_ok:
  "load_sqlite_live_topology H (fst (tp_database P s)) = Inr snap \<Longrightarrow>
     generation_ok H P (compose_generation read (candidate_from_snapshot snap) validated sequence)"
  by (auto simp: generation_ok_def compose_generation_def candidate_from_snapshot_def)

lemma publish_composed_ok:
  assumes "arena_ok H P h" and "room 1 h" and "load_sqlite_live_topology H (fst (tp_database P s)) = Inr snap"
  shows "arena_ok H P (publish_composed read (candidate_from_snapshot snap) validated h) \<and>
    grows 1 h (publish_composed read (candidate_from_snapshot snap) validated h)"
  by (rule publish_fresh [OF assms(1,2) composed_ok [OF assms(3)]])
    (simp_all add: publish_composed_def next_sequence_def notify_change_def store_new_def compose_generation_def)

lemma refresh_physical_ok:
  assumes ok: "arena_ok H P h" and r: "room 1 h"
    and snap: "load_sqlite_live_topology H (fst (tp_database P s0)) = Inr snap"
    and same: "\<not> changed \<Longrightarrow> ag_measurement_routes (load_generation h) = snap_measurement_routes snap \<and>
      ag_action_routes (load_generation h) = snap_action_routes snap"
    and run: "refresh_physical H P (candidate_from_snapshot snap) changed h s = (res, h', s')"
  shows "arena_ok H P h' \<and> grows 1 h h'"
proof -
  let ?parts = "candidate_from_snapshot snap"
  define h1 where "h1 = (if changed then snd (next_sequence h) else h)"
  define q where "q = (if changed then th_change_sequence h + 1 else ag_sequence (load_generation h))"
  have h1: "arena_ok H P h1 \<and> grows 1 h h1" using next_sequence_ok [OF ok r] ok by (simp add: h1_def)
  have stored: "arena_ok H P h2 \<and> grows 1 h h2"
    if "th_arena h2 = th_arena h @ [compose_generation read ?parts True q]" "th_current h2 = length (th_arena h)"
      "th_change_sequence h2 = th_change_sequence h1" for h2 read
  proof (cases changed)
    case True
    then show ?thesis
      using that by (intro publish_fresh [OF ok r composed_ok [OF snap, of read True q]])
        (simp_all add: q_def h1_def next_sequence_def compose_generation_def)
  next
    case False
    then have "arena_ok H P h2 \<and> grows 0 h h2"
      using that same by (intro publish_again [OF ok composed_ok [OF snap, of read True q]])
        (simp_all add: q_def h1_def compose_generation_def same_routes_def candidate_from_snapshot_def)
    then show ?thesis using grows_mono by blast
  qed
  have pair: "(if changed then next_sequence h else (ag_sequence (load_generation h), h)) = (q, h1)"
    by (simp add: q_def h1_def next_sequence_def)
  consider "h' = h" | "h' = h1" | read where "h' = (if changed then notify_change q (store_new
      (compose_generation read ?parts True q) h1) else store_new (compose_generation read ?parts True q) h1)"
    using run unfolding refresh_physical_def pair
    by (auto simp: Let_def split: prod.splits sum.splits)
  then show ?thesis
  proof cases
    case 3
    have "th_arena h1 = th_arena h" by (simp add: h1_def next_sequence_def)
    then show ?thesis
      unfolding 3 by (intro stored [of _ read]) (auto simp: notify_change_def store_new_def)
  qed (use ok h1 in simp_all)
qed

lemma unchanged_routes:
  assumes "digest_identifies H P" and "generation_ok H P g"
    and "load_sqlite_live_topology H (fst (tp_database P s)) = Inr snap"
    and "ag_digest g = snap_digest snap" "\<not> ag_measurement_routes_revoked g" "\<not> ag_action_routes_revoked g"
  shows "ag_measurement_routes g = snap_measurement_routes snap \<and> ag_action_routes g = snap_action_routes snap"
  using assms unfolding digest_identifies_def generation_ok_def by metis

lemma refresh_locked_cases:
  assumes "refresh_locked H P h s = (res, h', s')"
  obtains (same) "h' = h"
  | (logical) snap validated where
      "load_sqlite_live_topology H (fst (tp_database P s)) = Inr snap"
      "h' = publish_composed (ag_read (load_generation h)) (candidate_from_snapshot snap) validated h"
  | (physical) snap changed s2 where
      "load_sqlite_live_topology H (fst (tp_database P s)) = Inr snap"
      "\<not> changed \<Longrightarrow> ag_digest (load_generation h) = snap_digest snap \<and>
         \<not> ag_measurement_routes_revoked (load_generation h) \<and> \<not> ag_action_routes_revoked (load_generation h)"
      "refresh_physical H P (candidate_from_snapshot snap) changed h s2 = (res, h', s')"
proof (cases "load_sqlite_live_topology H (fst (tp_database P s))")
  case (Inl e)
  then show thesis
    using assms by (intro same) (auto simp: refresh_locked_def Let_def split: prod.splits)
next
  case (Inr snap)
  obtain db s0 where db: "tp_database P s = (db, s0)" by (cases "tp_database P s")
  let ?cur = "load_generation h" and ?parts = "candidate_from_snapshot snap"
  let ?logical = "ag_digest ?cur \<noteq> cp_digest ?parts \<or> ag_measurement_routes_revoked ?cur \<or> ag_action_routes_revoked ?cur"
  let ?pc = "if ag_physical_validated ?cur then
      let (r, s') = tp_validate_layouts P (rg_planes (ag_read ?cur)) s0 in (\<not> isl r, s') else (False, s0)"
  obtain pc s1 where pc: "?pc = (pc, s1)" by (cases ?pc)
  let ?wa = "if has_physical_layout H ?cur ?parts \<and> pc then tp_is_writer_available P s1 else (False, s1)"
  obtain wa s2 where wa: "?wa = (wa, s2)" by (cases ?wa)
  define c where "c = (?logical \<or> \<not> has_physical_layout H ?cur ?parts \<or> \<not> ag_physical_validated ?cur)"
  have run: "refresh_locked H P h s =
      (if has_physical_layout H ?cur ?parts \<and> pc \<and> wa then
         if \<not> ?logical then (Inr False, h, s2) else (Inr True, publish_composed (ag_read ?cur) ?parts True h, s2)
       else if has_physical_layout H ?cur ?parts \<and> ?logical \<and> \<not> ag_physical_validated ?cur then
         (Inr True, publish_composed (ag_read ?cur) ?parts False h, s2)
       else refresh_physical H P ?parts c h s2)"
    using Inr unfolding c_def refresh_locked_def Let_def db prod.case fst_conv
    by (simp only: sum.case pc [unfolded Let_def] prod.case not_not wa)
  have digest: "cp_digest ?parts = snap_digest snap" by (simp add: candidate_from_snapshot_def)
  consider "h' = h" | validated where "h' = publish_composed (ag_read ?cur) ?parts validated h"
    | "refresh_physical H P ?parts c h s2 = (res, h', s')"
    using assms unfolding run by (auto split: if_splits)
  then show thesis
  proof cases
    case 3
    then show thesis by (rule physical [OF Inr, rotated]) (auto simp: c_def digest)
  qed (auto intro: same logical [OF Inr])
qed

lemma refresh_locked_ok:
  assumes d: "digest_identifies H P" and ok: "arena_ok H P h" and r: "room 1 h"
    and run: "refresh_locked H P h s = (res, h', s')"
  shows "arena_ok H P h' \<and> grows 1 h h'"
  using run
proof (cases rule: refresh_locked_cases)
  case same
  then show ?thesis using ok by simp
next
  case (logical snap validated)
  then show ?thesis using publish_composed_ok [OF ok r] by simp
next
  case (physical snap changed s2)
  show ?thesis
    using unchanged_routes [OF d arena_okD(1) [OF ok load_in_arena [OF ok]] physical(1)] physical(2)
    by (intro refresh_physical_ok [OF ok r physical(1) _ physical(3)]) blast
qed

lemma generation_ok_revoke:
  "generation_ok H P g \<Longrightarrow>
     generation_ok H P (g\<lparr>ag_action_routes := [], ag_sequence := q, ag_action_routes_revoked := True\<rparr>)"
  "generation_ok H P g \<Longrightarrow>
     generation_ok H P (g\<lparr>ag_measurement_routes := [], ag_sequence := q, ag_measurement_routes_revoked := True\<rparr>)"
  by (auto simp: generation_ok_def)

lemma revoke_action_ok:
  assumes ok: "arena_ok H P h" and r: "room 1 h" and run: "revoke_action_routes_locked h = (p, h')"
  shows "arena_ok H P h' \<and> grows 1 h h' \<and> p = th_current h' \<and> ag_action_routes (load_generation h') = []"
proof (cases "ag_action_routes_revoked (load_generation h)")
  case True
  then show ?thesis
    using run ok arena_okD(1) [OF ok load_in_arena [OF ok]]
    by (auto simp: revoke_action_routes_locked_def Let_def generation_ok_def)
next
  case False
  let ?g = "(load_generation h)\<lparr>ag_action_routes := [], ag_sequence := th_change_sequence h + 1,
    ag_action_routes_revoked := True\<rparr>"
  have h': "th_arena h' = th_arena h @ [?g]" "th_current h' = length (th_arena h)"
    "th_change_sequence h' = th_change_sequence h + 1" "p = th_current h'"
    using run False by (auto simp: revoke_action_routes_locked_def Let_def next_sequence_def notify_change_def
        store_new_def load_generation_def)
  then show ?thesis
    using publish_fresh [OF ok r generation_ok_revoke(1) [OF arena_okD(1) [OF ok load_in_arena [OF ok]]] _ h'(1-3)]
    by (simp add: load_generation_def [of h'])
qed

lemma revoke_measurement_ok:
  assumes ok: "arena_ok H P h" and r: "room 1 h" and run: "revoke_measurement_routes_locked h = (p, h')"
  shows "arena_ok H P h' \<and> grows 1 h h' \<and> p = th_current h' \<and> ag_measurement_routes (load_generation h') = []"
proof (cases "ag_measurement_routes_revoked (load_generation h)")
  case True
  then show ?thesis
    using run ok arena_okD(1) [OF ok load_in_arena [OF ok]]
    by (auto simp: revoke_measurement_routes_locked_def Let_def generation_ok_def)
next
  case False
  let ?g = "(load_generation h)\<lparr>ag_measurement_routes := [], ag_sequence := th_change_sequence h + 1,
    ag_measurement_routes_revoked := True\<rparr>"
  have h': "th_arena h' = th_arena h @ [?g]" "th_current h' = length (th_arena h)"
    "th_change_sequence h' = th_change_sequence h + 1" "p = th_current h'"
    using run False by (auto simp: revoke_measurement_routes_locked_def Let_def next_sequence_def notify_change_def
        store_new_def load_generation_def)
  then show ?thesis
    using publish_fresh [OF ok r generation_ok_revoke(2) [OF arena_okD(1) [OF ok load_in_arena [OF ok]]] _ h'(1-3)]
    by (simp add: load_generation_def [of h'])
qed

lemma restore_ok:
  assumes "arena_ok H P h" and "previous < length (th_arena h)"
  shows "arena_ok H P (restore_revoked_generation previous revoked h) \<and>
    grows 0 h (restore_revoked_generation previous revoked h)"
  using assms arena_ok_keep [OF assms(1)]
  by (auto simp: restore_revoked_generation_def notify_change_def grows_def)

text \<open>What a held lease guarantees.\<close>

definition lease_ok :: "'r topology_handle \<Rightarrow> lease_state \<Rightarrow> bool" where
  "lease_ok h l =
     (case l of
        NoLease \<Rightarrow> True
      | ActionLease x \<Rightarrow> th_current h = rl_revoked_generation x \<and> ag_action_routes (load_generation h) = [] \<and>
          pred_option (\<lambda>p. p < length (th_arena h)) (rl_restore_generation x)
      | MeasurementLease x \<Rightarrow>
          th_current h = rl_revoked_generation x \<and> ag_measurement_routes (load_generation h) = [] \<and>
          pred_option (\<lambda>p. p < length (th_arena h)) (rl_restore_generation x))"

lemma lease_drop_ok:
  assumes "arena_ok H P h" and "pred_option (\<lambda>p. p < length (th_arena h)) (rl_restore_generation x)"
  shows "arena_ok H P (lease_drop in_runtime x h) \<and> grows 0 h (lease_drop in_runtime x h)"
  using assms restore_ok [OF assms(1)] by (cases "rl_restore_generation x") (auto simp: lease_drop_def)

lemma lease_restore_eq: "lease_restore x h = lease_drop True x h"
  by (auto simp: lease_restore_def restore_before_commit_def lease_drop_def split: option.split)

lemma refresh_or_revoke_ok:
  assumes d: "digest_identifies H P" and ok: "arena_ok H P h" and r: "room 2 h"
    and run: "refresh_or_revoke_commands H P h s = (res, h', s')"
  shows "arena_ok H P h' \<and> grows 2 h h'"
proof -
  obtain res1 h1 s1 where refresh: "refresh_locked H P h s = (res1, h1, s1)"
    by (cases "refresh_locked H P h s")
  have h1: "arena_ok H P h1" "grows 1 h h1" using refresh_locked_ok [OF d ok _ refresh] r by (auto simp: room_def)
  have "room 1 h1" using room_grows [OF _ h1(2), of 1] r by (simp add: numeral_2_eq_2)
  then have "arena_ok H P (snd (revoke_action_routes_locked h1)) \<and> grows 1 h1 (snd (revoke_action_routes_locked h1))"
    using revoke_action_ok [OF h1(1)] by (metis prod.collapse)
  then show ?thesis
    using run h1 grows_trans [OF h1(2), of 1] grows_mono [OF h1(2), of 2]
    by (auto simp: refresh_or_revoke_commands_def refresh numeral_2_eq_2 split: sum.splits)
qed

lemma begin_action_ok:
  assumes ok: "arena_ok H P h" and r: "room 1 h" and run: "begin_action_routing_mutation h = (x, h')"
  shows "arena_ok H P h' \<and> grows 1 h h' \<and> lease_ok h' (ActionLease x)"
proof -
  obtain p where p: "revoke_action_routes_locked h = (p, h')"
    and x: "x = \<lparr>rl_restore_generation = (if th_current h \<noteq> p then Some (th_current h) else None),
      rl_revoked_generation = p\<rparr>"
    using run by (cases "revoke_action_routes_locked h") (auto simp: begin_action_routing_mutation_def Let_def)
  from revoke_action_ok [OF ok r p] show ?thesis using ok by (auto simp: x lease_ok_def arena_ok_def grows_def)
qed

lemma begin_measurement_ok:
  assumes ok: "arena_ok H P h" and r: "room 1 h" and run: "begin_measurement_routing_mutation h = (x, h')"
  shows "arena_ok H P h' \<and> grows 1 h h' \<and> lease_ok h' (MeasurementLease x)"
proof -
  obtain p where p: "revoke_measurement_routes_locked h = (p, h')"
    and x: "x = \<lparr>rl_restore_generation = (if th_current h \<noteq> p then Some (th_current h) else None),
      rl_revoked_generation = p\<rparr>"
    using run by (cases "revoke_measurement_routes_locked h") (auto simp: begin_measurement_routing_mutation_def Let_def)
  from revoke_measurement_ok [OF ok r p] show ?thesis using ok by (auto simp: x lease_ok_def arena_ok_def grows_def)
qed

lemma step_ok:
  assumes d: "digest_identifies H P" and step: "topology_step H P (h, l, s) (h', l', s')"
    and ok: "arena_ok H P h" and l: "lease_ok h l" and r: "room 2 h"
  shows "arena_ok H P h' \<and> grows 2 h h' \<and> lease_ok h' l'"
proof -
  have r1: "room 1 h" using r by (rule room_less) simp
  have drop: "arena_ok H P (lease_drop b x h) \<and> grows 2 h (lease_drop b x h)"
    if "l \<in> {ActionLease x, MeasurementLease x}" for b x
    using lease_drop_ok [OF ok, of x b] that l grows_mono [of 0 h _ 2] by (auto simp: lease_ok_def)
  have refresh: "arena_ok H P h2 \<and> grows 2 h h2" if "refresh_locked H P h s = (r, h2, s2)" for r h2 s2
    using refresh_locked_ok [OF d ok r1 that] grows_mono [of 1 h _ 2] by auto
  from step show ?thesis
  proof cases
    case (Publish x r)
    then show ?thesis
      using refresh by (auto simp: lease_publish_def lease_drop_def commit_started_def Let_def lease_ok_def
          split: prod.splits)
  next
    case (Restore x)
    then show ?thesis using drop [of x True] by (auto simp: lease_restore_eq lease_ok_def)
  next
    case (Drop x b)
    then show ?thesis using drop [of x b] by (auto simp: lease_ok_def)
  next
    case (BeginAction x)
    then show ?thesis using begin_action_ok [OF ok r1] grows_mono [of 1 h _ 2] by auto
  next
    case (BeginMeasurement x)
    then show ?thesis using begin_measurement_ok [OF ok r1] grows_mono [of 1 h _ 2] by auto
  next
    case RevokeAction
    then show ?thesis
      using revoke_action_ok [OF ok r1 prod.collapse [symmetric]] grows_mono [of 1 h _ 2] by (auto simp: lease_ok_def)
  next
    case RevokeMeasurement
    then show ?thesis
      using revoke_measurement_ok [OF ok r1 prod.collapse [symmetric]] grows_mono [of 1 h _ 2]
      by (auto simp: lease_ok_def)
  next
    case (RefreshOrRevoke r)
    then show ?thesis using refresh_or_revoke_ok [OF d ok r] by (auto simp: lease_ok_def)
  next
    case (Refresh r)
    then show ?thesis using refresh by (auto simp: lease_ok_def)
  qed (use ok l in \<open>auto simp: lease_ok_def commit_started_def\<close>)
qed

lemma run_ok:
  assumes d: "digest_identifies H P"
  shows "topology_run H P n x \<Longrightarrow> 2 * n < 2 ^ 64 \<Longrightarrow>
    arena_ok H P (fst x) \<and> lease_ok (fst x) (fst (snd x)) \<and> unat (th_change_sequence (fst x)) \<le> 2 * n"
proof (induction rule: topology_run.induct)
  case (Start s snap h s')
  then show ?case
    using composed_ok [OF Start(1)]
    by (auto simp: handle_new_lazy_def Let_def arena_ok_def compose_generation_def same_routes_def lease_ok_def)
next
  case (Step n x y)
  obtain h l s where x: "x = (h, l, s)" by (cases x)
  obtain h' l' s' where y: "y = (h', l', s')" by (cases y)
  have IH: "arena_ok H P h" "lease_ok h l" "unat (th_change_sequence h) \<le> 2 * n"
    using Step.IH Step.prems by (auto simp: x)
  have "room 2 h" using IH(3) Step.prems by (simp add: room_def)
  from step_ok [OF d Step.hyps(2) [unfolded x y] IH(1,2) this] IH(3) show ?case
    by (simp add: y grows_def)
qed simp

text \<open>What other tasks do to the topology, with the number of operations so far.\<close>

inductive topology_moves ::
    "'h fx_hasher \<Rightarrow> ('r, 's) topology_ports \<Rightarrow> nat \<times> 'r topology_handle \<times> lease_state \<times> 's \<Rightarrow>
      nat \<times> 'r topology_handle \<times> lease_state \<times> 's \<Rightarrow> bool"
  for H P w where
  Stay: "topology_moves H P w w"
| Pass: "topology_moves H P w (n, h, l, s) \<Longrightarrow> topology_moves H P w (n, h, l, s')"
| Move: "topology_moves H P w (n, x) \<Longrightarrow> topology_step H P x y \<Longrightarrow> topology_moves H P w (Suc n, y)"

lemma moves_run:
  "topology_moves H P w w' \<Longrightarrow> topology_run H P (fst w) (snd w) \<Longrightarrow> topology_run H P (fst w') (snd w')"
  by (induction rule: topology_moves.induct) (auto intro: topology_run.intros)

lemma refresh_physical_extends:
  "refresh_physical H P parts changed h s = (r, h', s') \<Longrightarrow> \<exists>ext. th_arena h' = th_arena h @ ext"
  by (auto simp: refresh_physical_def Let_def next_sequence_def store_new_def notify_change_def
      split: prod.splits sum.splits if_splits)

lemma refresh_extends:
  assumes "refresh_locked H P h s = (r, h', s')"
  shows "\<exists>ext. th_arena h' = th_arena h @ ext"
  using assms
  by (cases rule: refresh_locked_cases)
    (auto simp: publish_composed_def next_sequence_def store_new_def notify_change_def
      dest: refresh_physical_extends)

lemma revoke_extends:
  "\<exists>ext. th_arena (snd (revoke_action_routes_locked h)) = th_arena h @ ext"
  "\<exists>ext. th_arena (snd (revoke_measurement_routes_locked h)) = th_arena h @ ext"
  by (simp_all add: revoke_action_routes_locked_def revoke_measurement_routes_locked_def Let_def next_sequence_def
      store_new_def notify_change_def)

lemma drop_extends: "th_arena (lease_drop b x h) = th_arena h"
  by (simp add: lease_drop_def restore_revoked_generation_def notify_change_def split: option.split)

lemma step_extends:
  assumes "topology_step H P (h, l, s) (h', l', s')"
  shows "\<exists>ext. th_arena h' = th_arena h @ ext"
  using assms
proof cases
  case (RefreshOrRevoke r)
  obtain r1 h1 s1 where f: "refresh_locked H P h s = (r1, h1, s1)" by (cases "refresh_locked H P h s")
  then show ?thesis
    using RefreshOrRevoke refresh_extends [OF f] revoke_extends(1) [of h1]
    by (auto simp: refresh_or_revoke_commands_def split: sum.splits)
next
  case (BeginAction x)
  then show ?thesis
    using revoke_extends(1) [of h] by (auto simp: begin_action_routing_mutation_def Let_def split: prod.splits)
next
  case (BeginMeasurement x)
  then show ?thesis
    using revoke_extends(2) [of h] by (auto simp: begin_measurement_routing_mutation_def Let_def split: prod.splits)
next
  case (Publish x r)
  then show ?thesis
    using refresh_extends by (auto simp: lease_publish_def drop_extends Let_def split: prod.splits)
qed (use refresh_extends revoke_extends in \<open>auto simp: lease_restore_eq drop_extends\<close>)

lemma moves_extend:
  "topology_moves H P w w' \<Longrightarrow> \<exists>ext. th_arena (fst (snd w')) = th_arena (fst (snd w)) @ ext"
proof (induction rule: topology_moves.induct)
  case (Move n x y)
  obtain h l s where x: "x = (h, l, s)" by (cases x)
  obtain h' l' s' where y: "y = (h', l', s')" by (cases y)
  from step_extends [OF Move.hyps(2) [unfolded x y]] Move.IH show ?case by (auto simp: x y)
qed auto

lemma begin_action_restores:
  assumes "arena_ok H P h" and "begin_action_routing_mutation h = (x, h')"
  shows "load_generation (lease_restore x h') = load_generation h"
  using assms
  by (auto simp: begin_action_routing_mutation_def revoke_action_routes_locked_def Let_def next_sequence_def
      notify_change_def store_new_def lease_restore_eq lease_drop_def restore_revoked_generation_def
      load_generation_def arena_ok_def nth_append split: if_splits)

text \<open>
  A service whose database always answers the sample database and whose planes open, but never
  stay valid, so that every refresh reopens them.
\<close>

definition sample_ports :: "(unit, unit) topology_ports" where
  "sample_ports =
     \<lparr>tp_database = (\<lambda>s. (sample_database, s)), tp_new_lazy = (\<lambda>_ _ _ _. Inr ()),
      tp_open = (\<lambda>_ _ _ _ s. (Inr (Inr ()), s)),
      tp_validate_layouts = (\<lambda>_ s. (Inl \<lparr>pf_kind = Conflict, pf_message = []\<rparr>, s)),
      tp_with_authority = (\<lambda>_ s. (Inr (), s)), tp_is_writer_available = (\<lambda>s. (True, s)),
      tp_open_generation = (\<lambda>_ s. (Inr (), s))\<rparr>"

definition sample_generation :: "bool \<Rightarrow> u64 \<Rightarrow> unit automation_generation" where
  "sample_generation validated sequence =
     compose_generation
       \<lparr>rg_planes = (), rg_point_manifest = snap_point_manifest sample_snapshot,
        rg_health_manifest = snap_health_manifest sample_snapshot\<rparr>
       (candidate_from_snapshot sample_snapshot) validated sequence"

definition sample_handle :: "unit topology_handle" where
  "sample_handle =
     \<lparr>th_arena = [sample_generation False 0, sample_generation True 1, sample_generation True 1],
      th_current = 2, th_change_sequence = 1, th_notified = 1\<rparr>"

lemma sample_digest: "digest_identifies trivial_hasher sample_ports"
  by (simp add: digest_identifies_def sample_ports_def)

lemma sample_run: "topology_run trivial_hasher sample_ports 2 (sample_handle, NoLease, ())"
proof -
  let ?h0 = "\<lparr>th_arena = [sample_generation False 0], th_current = 0, th_change_sequence = 0, th_notified = 0\<rparr>"
  let ?h1 = "\<lparr>th_arena = [sample_generation False 0, sample_generation True 1], th_current = 1,
    th_change_sequence = 1, th_notified = 1\<rparr>"
  note defs = sample_ports_def sample_generation_def handle_new_lazy_def candidate_from_snapshot_def
    compose_generation_def refresh_locked_def refresh_physical_def load_generation_def has_physical_layout_def
    next_sequence_def store_new_def notify_change_def sample_handle_def
  have db: "load_sqlite_live_topology trivial_hasher (fst (tp_database sample_ports ())) = Inr sample_snapshot"
    by (simp add: sample_ports_def sample_loads)
  have "handle_new_lazy trivial_hasher sample_ports sample_snapshot = Inr ?h0" by (simp add: defs)
  from topology_run.Start [OF db this]
  have "topology_run trivial_hasher sample_ports 0 (?h0, NoLease, ())" .
  moreover have "refresh_locked trivial_hasher sample_ports ?h0 () = (Inr True, ?h1, ())"
    by (simp add: defs sample_loads Let_def numeral_2_eq_2)
  ultimately have "topology_run trivial_hasher sample_ports (Suc 0) (?h1, NoLease, ())"
    by (rule topology_run.Step [OF _ topology_step.Refresh])
  moreover have "refresh_locked trivial_hasher sample_ports ?h1 () = (Inr False, sample_handle, ())"
    by (simp add: defs sample_loads Let_def numeral_2_eq_2)
  ultimately show ?thesis
    unfolding numeral_2_eq_2 by (rule topology_run.Step [OF _ topology_step.Refresh])
qed

subsection \<open>Properties\<close>





end
