(* ===== verification/Rule_Executor.thy ===== *)
theory Rule_Executor
  imports App_Control
begin

section \<open>The rule executor (libs/aether-rules/src)\<close>

text \<open>
  A rule is a graph of nodes.  The executor walks it from the start node, reads the variables
  of each node from the live state, evaluates conditions and formulas, and sends action
  commands.  Formulas are evaluated by the crate \<open>evalexpr\<close> and JSON values are printed by
  \<open>serde_json\<close>; both are parameters, as is the calculation engine, which wraps the former.
  The ports thread the state \<open>'s\<close> of the environment.
\<close>

subsection \<open>Rules (types.rs)\<close>

datatype json_number = PosInt u64 | NegInt u64 | Float f64

datatype json =
    JNull | JBool bool | JNumber json_number | JString rust_string
  | JArray "json list" | JObject "(rust_string \<times> json) list"

definition json_as_f64 :: "json \<Rightarrow> f64 option" where
  "json_as_f64 j =
     (case j of
        JNumber (PosInt n) \<Rightarrow> Some (f64_of_int (uint n))
      | JNumber (NegInt n) \<Rightarrow> Some (f64_of_int (sint n))
      | JNumber (Float f) \<Rightarrow> Some f
      | _ \<Rightarrow> None)"

definition json_as_i64 :: "json \<Rightarrow> u64 option" where
  "json_as_i64 j =
     (case j of
        JNumber (PosInt n) \<Rightarrow> if n < 0x8000000000000000 then Some n else None
      | JNumber (NegInt n) \<Rightarrow> Some n
      | _ \<Rightarrow> None)"

definition json_as_str :: "json \<Rightarrow> rust_string option" where
  "json_as_str j = (case j of JString s \<Rightarrow> Some s | _ \<Rightarrow> None)"

record rule_variable =
  rv_name :: rust_string
  rv_instance :: "u32 option"
  rv_point_type :: "rust_string option"
  rv_point :: "u32 option"
  rv_formula :: "json list"

record flow_condition =
  fc_type :: rust_string
  fc_variables :: "rust_string option"
  fc_operator :: "rust_string option"
  fc_value :: "json option"

record rule_switch_branch =
  rsb_name :: rust_string
  rsb_type :: rust_string
  rsb_rule :: "flow_condition list"

record rule_value_assignment =
  rva_variables :: rust_string
  rva_value :: json

record calculation_rule =
  calc_output :: rust_string
  calc_formula :: rust_string

datatype rule_node =
    StartNode "rust_string list"
  | EndNode
  | SwitchNode "rule_variable list" "rule_switch_branch list" "rust_string \<rightharpoonup> rust_string list"
  | ChangeValueNode "rule_variable list" "rule_value_assignment list" "rust_string list"
  | CalculationNode "rule_variable list" "calculation_rule list" "rust_string list"
  | PeriodDeltaNode rule_variable rule_variable rust_string "rust_string list"

record rule_flow =
  start_node :: rust_string
  flow_nodes :: "rust_string \<rightharpoonup> rule_node"

record rule =
  rule_id :: u64
  rule_name :: rust_string
  rule_description :: "rust_string option"
  rule_enabled :: bool
  rule_priority :: u32
  rule_cooldown_ms :: u64
  rule_trigger_config :: "rust_string option"
  rule_flow_topology :: rule_flow

subsection \<open>Ports and results\<close>

text \<open>
  \<open>action_command.rs\<close>, \<open>live_state.rs\<close> and the result types of \<open>executor.rs\<close>.  The execution
  context is the optional topology fence.
\<close>

record rule_action_command =
  rac_target :: point_address
  rac_value :: f64
  rac_topology_fence :: "u64 option"

definition rule_action_command_new :: "u32 \<Rightarrow> u32 \<Rightarrow> f64 \<Rightarrow> rule_action_command" where
  "rule_action_command_new i p v =
     \<lparr>rac_target = \<lparr>pa_instance = i, pa_kind = Action, pa_point = p\<rparr>, rac_value = v,
      rac_topology_fence = None\<rparr>"

definition with_topology_fence :: "rule_action_command \<Rightarrow> u64 \<Rightarrow> rule_action_command" where
  "with_topology_fence c f = c\<lparr>rac_topology_fence := Some f\<rparr>"

type_synonym rule_values = "rust_string \<rightharpoonup> f64"

record 's rule_executor =
  re_begin_execution :: "'s \<Rightarrow> u64 option \<times> 's"
  re_get_instance :: "u64 option \<Rightarrow> u32 \<Rightarrow> u8 \<Rightarrow> u32 \<Rightarrow> 's \<Rightarrow> (f64 \<times> u64) option \<times> 's"
  re_action_commands :: "(rule_action_command \<Rightarrow> ('s, command_receipt) port_call) option"
  re_evaluate_formula :: "rust_string \<Rightarrow> rule_values \<Rightarrow> rust_string + f64"
  re_json_display :: "json \<Rightarrow> rust_string"
  re_calc_evaluate :: "rust_string \<Rightarrow> rust_string \<Rightarrow> rule_values \<Rightarrow> 's \<Rightarrow> (rust_string + f64) \<times> 's"
  re_period_delta :: "rust_string \<Rightarrow> rust_string \<Rightarrow> f64 \<Rightarrow> rust_string \<Rightarrow> 's \<Rightarrow> (rust_string + f64) \<times> 's"

record action_result =
  act_target_type :: rust_string
  act_target_id :: u32
  act_point_type :: rust_string
  act_point_id :: u32
  act_value :: f64
  act_success :: bool

record condition_result =
  cres_expression :: rust_string
  cres_result :: bool
  cres_port :: rust_string

record node_execution_detail =
  ned_node_type :: rust_string
  ned_input_values :: rule_values
  ned_condition_results :: "condition_result list option"
  ned_matched_port :: "rust_string option"
  ned_actions :: "action_result list option"

record rule_execution_result =
  res_rule_id :: u64
  res_success :: bool
  res_actions_executed :: "action_result list"
  res_error :: "rust_string option"
  res_execution_path :: "rust_string list"
  res_matched_condition :: "rust_string option"
  res_variable_values :: rule_values
  res_point_values :: rule_values
  res_node_details :: "rust_string \<rightharpoonup> node_execution_detail"

record rule_read_outcome =
  ro_values_changed :: bool
  ro_missing :: "rust_string list"
  ro_point_values :: rule_values

subsection \<open>Value validation (libs/aether-model/src/validation.rs)\<close>

record validation_config =
  vc_reject_nan :: bool
  vc_reject_infinity :: bool
  vc_max_abs_value :: "f64 option"

definition validation_config_default :: validation_config where
  "validation_config_default =
     \<lparr>vc_reject_nan = True, vc_reject_infinity = True, vc_max_abs_value = None\<rparr>"

datatype value_validation_error = ValueNaN | ValueInfinity | ValueOutOfRange f64 f64

definition model_validate_value :: "f64 \<Rightarrow> validation_config \<Rightarrow> value_validation_error + f64" where
  "model_validate_value v c =
     (if vc_reject_nan c \<and> f64_is_nan v then Inl ValueNaN
      else if vc_reject_infinity c \<and> f64_is_infinite v then Inl ValueInfinity
      else case vc_max_abs_value c of
          Some m \<Rightarrow> if f64_lt m (f64_abs v) then Inl (ValueOutOfRange v m) else Inr v
        | None \<Rightarrow> Inr v)"

lemma validate_default_finite:
  "model_validate_value v validation_config_default = Inr w \<longleftrightarrow> w = v \<and> f64_is_finite v"
  by (auto simp: model_validate_value_def validation_config_default_def f64_is_infinite_def finite_not_nan)

subsection \<open>Reading variables (executor.rs)\<close>

definition read_outcome_default :: rule_read_outcome where
  "read_outcome_default = \<lparr>ro_values_changed = False, ro_missing = [], ro_point_values = Map.empty\<rparr>"

definition execution_error :: "rust_string \<Rightarrow> rust_string" where
  "execution_error m = ascii ''Rule execution error: '' @ m"

definition point_key :: "bool \<Rightarrow> u32 \<Rightarrow> u32 \<Rightarrow> rust_string" where
  "point_key is_action i p =
     (if is_action then ascii ''A:'' else ascii ''M:'') @ show_unsigned i @ ascii '':'' @ show_unsigned p"

text \<open>
  One base variable that has been read.  \<open>total_cmp\<close> distinguishes values exactly when their
  patterns differ.
\<close>

definition take_reading ::
    "rule_variable \<Rightarrow> bool \<Rightarrow> u32 \<Rightarrow> u32 \<Rightarrow> (f64 \<times> u64) option \<Rightarrow> rule_values \<times> rule_read_outcome \<Rightarrow>
      rule_values \<times> rule_read_outcome" where
  "take_reading var is_action i p reading vo =
     (let (values, out) = vo in
      case reading of
        Some (v, ts) \<Rightarrow>
          if f64_is_finite v then
            (values(rv_name var \<mapsto> v),
             out\<lparr>ro_point_values := (ro_point_values out)(point_key is_action i p \<mapsto> v),
                 ro_values_changed := ro_values_changed out \<or> values (rv_name var) \<noteq> Some v\<rparr>)
          else if is_action then (values, out)
          else (values, out\<lparr>ro_missing := ro_missing out @ [rv_name var]\<rparr>)
      | None \<Rightarrow>
          if is_action then (values, out)
          else (values, out\<lparr>ro_missing := ro_missing out @ [rv_name var]\<rparr>))"

fun read_base_variables ::
    "'s rule_executor \<Rightarrow> u64 option \<Rightarrow> rule_variable list \<Rightarrow> rule_values \<times> rule_read_outcome \<Rightarrow> 's \<Rightarrow>
      (rust_string + rule_read_outcome) \<times> rule_values \<times> 's" where
  "read_base_variables ex fence [] vo s = (Inr (snd vo), fst vo, s)"
| "read_base_variables ex fence (var # vars) vo s =
     (if rv_formula var \<noteq> [] then read_base_variables ex fence vars vo s
      else case rv_instance var of
        None \<Rightarrow>
          (Inl (execution_error (ascii ''Variable '' @ [0x27] @ rv_name var @ [0x27] @ ascii '' is missing instance_id'')),
           fst vo, s)
      | Some i \<Rightarrow>
          (case rv_point var of
             None \<Rightarrow>
               (Inl (execution_error (ascii ''Variable '' @ [0x27] @ rv_name var @ [0x27] @ ascii '' is missing point_id'')),
                fst vo, s)
           | Some p \<Rightarrow>
               let is_action = (rv_point_type var = Some (ascii ''action''));
                   (reading, s') = re_get_instance ex fence i (if is_action then 1 else 0) p s
               in read_base_variables ex fence vars (take_reading var is_action i p reading vo) s'))"

fun join_with :: "bytes \<Rightarrow> bytes list \<Rightarrow> bytes" where
  "join_with sep [] = []"
| "join_with sep [x] = x"
| "join_with sep (x # y # xs) = x @ sep @ join_with sep (y # xs)"

definition evaluate_token_formula :: "'s rule_executor \<Rightarrow> json list \<Rightarrow> rule_values \<Rightarrow> f64 option" where
  "evaluate_token_formula ex tokens values =
     (let expr = join_with (ascii '' '')
            (map (\<lambda>t. case t of JString str \<Rightarrow> str | _ \<Rightarrow> re_json_display ex t) tokens)
      in case re_evaluate_formula ex expr values of Inr v \<Rightarrow> Some v | Inl _ \<Rightarrow> None)"

text \<open>The second pass; here \<open>!=\<close> on \<open>Option<f64>\<close> compares as \<open>f64\<close> does.\<close>

fun read_formula_variables ::
    "'s rule_executor \<Rightarrow> rule_variable list \<Rightarrow> rule_values \<times> rule_read_outcome \<Rightarrow> rule_values \<times> rule_read_outcome" where
  "read_formula_variables ex [] vo = vo"
| "read_formula_variables ex (var # vars) vo =
     (if rv_formula var = [] then read_formula_variables ex vars vo
      else
        let (values, out) = vo in
        read_formula_variables ex vars
          (case evaluate_token_formula ex (rv_formula var) values of
             Some r \<Rightarrow>
               (values(rv_name var \<mapsto> r),
                out\<lparr>ro_values_changed := ro_values_changed out \<or>
                     \<not> (case values (rv_name var) of None \<Rightarrow> False | Some q \<Rightarrow> f64_eq q r)\<rparr>)
           | None \<Rightarrow> (values, out\<lparr>ro_missing := ro_missing out @ [rv_name var]\<rparr>)))"

definition read_rule_variables_for_execution ::
    "'s rule_executor \<Rightarrow> u64 option \<Rightarrow> rule_variable list \<Rightarrow> rule_values \<Rightarrow> 's \<Rightarrow>
      (rust_string + rule_read_outcome) \<times> rule_values \<times> 's" where
  "read_rule_variables_for_execution ex fence vars values s =
     (case read_base_variables ex fence vars (values, read_outcome_default) s of
        (Inl e, values', s') \<Rightarrow> (Inl e, values', s')
      | (Inr out, values', s') \<Rightarrow>
          let (values'', out') = read_formula_variables ex vars (values', out) in (Inr out', values'', s'))"

subsection \<open>Conditions\<close>

definition evaluate_flow_condition :: "flow_condition \<Rightarrow> rule_values \<Rightarrow> bool" where
  "evaluate_flow_condition c values =
     (case fc_variables c of
        None \<Rightarrow> False
      | Some var \<Rightarrow>
          let operator = (case fc_operator c of None \<Rightarrow> ascii ''=='' | Some x \<Rightarrow> x) in
          (case values var of
             None \<Rightarrow> False
           | Some l \<Rightarrow>
               (case (case fc_value c of
                        None \<Rightarrow> Some 0
                      | Some j \<Rightarrow>
                          (case json_as_f64 j of
                             Some n \<Rightarrow> Some n
                           | None \<Rightarrow>
                               (case json_as_i64 j of
                                  Some n \<Rightarrow> Some (f64_of_int (sint n))
                                | None \<Rightarrow>
                                    (case json_as_str j of
                                       Some str \<Rightarrow>
                                         (case values str of Some v \<Rightarrow> Some v | None \<Rightarrow> parse_f64 str)
                                     | None \<Rightarrow> Some 0)))) of
                  None \<Rightarrow> False
                | Some r \<Rightarrow>
                    if operator = ascii ''=='' \<or> operator = ascii ''eq'' then
                      f64_lt (f64_abs (f64_sub l r)) F64_EPSILON
                    else if operator = ascii ''!='' \<or> operator = ascii ''ne'' then
                      f64_le F64_EPSILON (f64_abs (f64_sub l r))
                    else if operator = ascii ''>'' \<or> operator = ascii ''gt'' then f64_lt r l
                    else if operator = ascii ''<'' \<or> operator = ascii ''lt'' then f64_lt l r
                    else if operator = ascii ''>='' \<or> operator = ascii ''gte'' then f64_le r l
                    else if operator = ascii ''<='' \<or> operator = ascii ''lte'' then f64_le l r
                    else False)))"

definition relation_text :: "flow_condition \<Rightarrow> rust_string option" where
  "relation_text c = Option.bind (fc_value c) json_as_str"

definition is_or :: "rust_string option \<Rightarrow> bool" where
  "is_or r \<longleftrightarrow> r \<in> {Some (ascii ''||''), Some (ascii ''or''), Some (ascii ''OR'')}"

fun evaluate_conditions_from ::
    "bool \<Rightarrow> rust_string option \<Rightarrow> flow_condition list \<Rightarrow> rule_values \<Rightarrow> bool" where
  "evaluate_conditions_from result pending [] values = result"
| "evaluate_conditions_from result pending (c # cs) values =
     (if fc_type c = ascii ''relation'' then evaluate_conditions_from result (relation_text c) cs values
      else
        let r = evaluate_flow_condition c values in
        evaluate_conditions_from (if is_or pending then result \<or> r else result \<and> r) None cs values)"

definition evaluate_flow_conditions :: "flow_condition list \<Rightarrow> rule_values \<Rightarrow> bool" where
  "evaluate_flow_conditions cs values =
     (if cs = [] then True else evaluate_conditions_from True None cs values)"

text \<open>The text of a branch (logger.rs).  A missing value prints as the empty string.\<close>

definition trim_quotes :: "rust_string \<Rightarrow> rust_string" where
  "trim_quotes str =
     (let trim = dropWhile (\<lambda>b. b = 0x22) in rev (trim (rev (trim str))))"

fun format_conditions_from ::
    "'s rule_executor \<Rightarrow> rust_string option \<Rightarrow> flow_condition list \<Rightarrow> rust_string list" where
  "format_conditions_from ex pending [] = []"
| "format_conditions_from ex pending (c # cs) =
     (if fc_type c = ascii ''relation'' then format_conditions_from ex (relation_text c) cs
      else case fc_variables c of
        None \<Rightarrow> format_conditions_from ex pending cs
      | Some var \<Rightarrow>
          let operator = (case fc_operator c of None \<Rightarrow> ascii ''=='' | Some x \<Rightarrow> x);
              v = (case fc_value c of None \<Rightarrow> [] | Some j \<Rightarrow> trim_quotes (re_json_display ex j))
          in (if pending \<noteq> None then [if is_or pending then ascii '' || '' else ascii '' && ''] else []) @
             (var @ operator @ v) # format_conditions_from ex None cs)"

definition format_conditions :: "'s rule_executor \<Rightarrow> flow_condition list \<Rightarrow> rust_string" where
  "format_conditions ex cs = concat (format_conditions_from ex None cs)"

fun evaluate_rule_switch_with_details ::
    "'s rule_executor \<Rightarrow> rule_switch_branch list \<Rightarrow> (rust_string \<rightharpoonup> rust_string list) \<Rightarrow> rule_values \<Rightarrow>
      (rust_string \<times> rust_string \<times> rust_string) option" where
  "evaluate_rule_switch_with_details ex [] wires values = None"
| "evaluate_rule_switch_with_details ex (b # bs) wires values =
     (if evaluate_flow_conditions (rsb_rule b) values then
        (case wires (rsb_name b) of
           Some (target # _) \<Rightarrow> Some (target, rsb_name b, format_conditions ex (rsb_rule b))
         | _ \<Rightarrow> evaluate_rule_switch_with_details ex bs wires values)
      else evaluate_rule_switch_with_details ex bs wires values)"

definition evaluate_all_conditions ::
    "'s rule_executor \<Rightarrow> rule_switch_branch list \<Rightarrow> rule_values \<Rightarrow> condition_result list" where
  "evaluate_all_conditions ex bs values =
     map (\<lambda>b. \<lparr>cres_expression = format_conditions ex (rsb_rule b),
                cres_result = evaluate_flow_conditions (rsb_rule b) values, cres_port = rsb_name b\<rparr>) bs"

subsection \<open>Actions\<close>

definition point_type_to_static :: "rust_string option \<Rightarrow> rust_string \<Rightarrow> rust_string" where
  "point_type_to_static pt dflt =
     (if pt \<in> {Some (ascii ''M''), Some (ascii ''measurement'')} then ascii ''M''
      else if pt \<in> {Some (ascii ''A''), Some (ascii ''action'')} then ascii ''A''
      else if pt \<in> {Some (ascii ''T''), Some (ascii ''telemetry'')} then ascii ''T''
      else if pt \<in> {Some (ascii ''S''), Some (ascii ''status'')} then ascii ''S''
      else if pt \<in> {Some (ascii ''C''), Some (ascii ''control'')} then ascii ''C''
      else dflt)"

definition instance_action :: "u32 \<Rightarrow> rust_string \<Rightarrow> u32 \<Rightarrow> f64 \<Rightarrow> bool \<Rightarrow> action_result" where
  "instance_action i pt p v ok =
     \<lparr>act_target_type = ascii ''instance'', act_target_id = i, act_point_type = pt, act_point_id = p,
      act_value = v, act_success = ok\<rparr>"

definition unwrap_or_zero :: "u32 option \<Rightarrow> u32" where
  "unwrap_or_zero x = (case x of None \<Rightarrow> 0 | Some v \<Rightarrow> v)"

definition validate_write_target ::
    "rule_variable \<Rightarrow> f64 \<Rightarrow> rust_string \<Rightarrow> action_result + u32 \<times> u32 \<times> f64 \<times> rust_string" where
  "validate_write_target var raw dflt =
     (let pt = point_type_to_static (rv_point_type var) dflt in
      case model_validate_value raw validation_config_default of
        Inl _ \<Rightarrow>
          Inl (instance_action (unwrap_or_zero (rv_instance var)) pt (unwrap_or_zero (rv_point var)) F64_NAN False)
      | Inr v \<Rightarrow>
          (case rv_instance var of
             None \<Rightarrow> Inl (instance_action 0 pt 0 v False)
           | Some i \<Rightarrow>
               (case rv_point var of
                  None \<Rightarrow> Inl (instance_action i pt 0 v False)
                | Some p \<Rightarrow> Inr (i, p, v, pt))))"

definition action_skipped :: "rule_variable \<Rightarrow> action_result" where
  "action_skipped var =
     instance_action (unwrap_or_zero (rv_instance var)) (point_type_to_static (rv_point_type var) (ascii ''A''))
       (unwrap_or_zero (rv_point var)) F64_NAN False"

definition write_action_point ::
    "'s rule_executor \<Rightarrow> u64 option \<Rightarrow> u32 \<Rightarrow> u32 \<Rightarrow> f64 \<Rightarrow> 's \<Rightarrow> bool \<times> 's" where
  "write_action_point ex fence i p v s =
     (case re_action_commands ex of
        None \<Rightarrow> (False, s)
      | Some write_action \<Rightarrow>
          let command = rule_action_command_new i p v;
              command = (case fence of None \<Rightarrow> command | Some f \<Rightarrow> with_topology_fence command f)
          in case write_action command s of (Inr _, s') \<Rightarrow> (True, s') | (Inl _, s') \<Rightarrow> (False, s'))"

text \<open>Derived measurements have no plane of their own: the write is always refused.\<close>

definition write_measurement_point :: "u32 \<Rightarrow> u32 \<Rightarrow> f64 \<Rightarrow> rust_string + unit" where
  "write_measurement_point i p v =
     Inl (execution_error
       (ascii ''derived Measurement write rejected: inst:'' @ show_unsigned i @ ascii '':M:'' @ show_unsigned p @
        ascii ''='' @ f64_display v @ ascii '' has no automation-owned SHM plane''))"

definition write_to_point ::
    "'s rule_executor \<Rightarrow> u64 option \<Rightarrow> u32 \<Rightarrow> u32 \<Rightarrow> f64 \<Rightarrow> rust_string \<Rightarrow> 's \<Rightarrow> action_result \<times> 's" where
  "write_to_point ex fence i p v pt s =
     (let (ok, s') =
        (if pt = ascii ''M'' then (\<not> isl (write_measurement_point i p v), s)
         else if pt = ascii ''A'' then write_action_point ex fence i p v s
         else (False, s))
      in (instance_action i pt p v ok, s'))"

definition assignment_value :: "rule_value_assignment \<Rightarrow> rule_values \<Rightarrow> f64 option" where
  "assignment_value a values =
     (case json_as_f64 (rva_value a) of
        Some n \<Rightarrow> Some n
      | None \<Rightarrow>
          (case json_as_i64 (rva_value a) of
             Some n \<Rightarrow> Some (f64_of_int (sint n))
           | None \<Rightarrow>
               (case json_as_str (rva_value a) of
                  Some str \<Rightarrow> (case parse_f64 str of Some n \<Rightarrow> Some n | None \<Rightarrow> values str)
                | None \<Rightarrow> None)))"

definition write_validated ::
    "'s rule_executor \<Rightarrow> u64 option \<Rightarrow> rule_variable \<Rightarrow> f64 \<Rightarrow> rust_string \<Rightarrow> rust_string option \<Rightarrow> 's \<Rightarrow>
      action_result \<times> 's" where
  "write_validated ex fence var raw dflt forced s =
     (case validate_write_target var raw dflt of
        Inl a \<Rightarrow> (a, s)
      | Inr (i, p, v, pt) \<Rightarrow>
          write_to_point ex fence i p v (case forced of None \<Rightarrow> pt | Some t \<Rightarrow> t) s)"

definition execute_rule_change_for_execution ::
    "'s rule_executor \<Rightarrow> u64 option \<Rightarrow> rule_variable \<Rightarrow> rule_value_assignment \<Rightarrow> rule_values \<Rightarrow> 's \<Rightarrow>
      action_result \<times> 's" where
  "execute_rule_change_for_execution ex fence var a values s =
     (case assignment_value a values of
        None \<Rightarrow> (action_skipped var, s)
      | Some raw \<Rightarrow> write_validated ex fence var raw (ascii ''A'') None s)"

definition write_calculation_result ::
    "'s rule_executor \<Rightarrow> u64 option \<Rightarrow> rule_variable \<Rightarrow> f64 \<Rightarrow> 's \<Rightarrow> action_result \<times> 's" where
  "write_calculation_result ex fence var raw s = write_validated ex fence var raw (ascii ''M'') None s"

text \<open>A period delta is always written as a measurement.\<close>

definition write_period_delta_result ::
    "'s rule_executor \<Rightarrow> u64 option \<Rightarrow> rule_variable \<Rightarrow> f64 \<Rightarrow> 's \<Rightarrow> action_result \<times> 's" where
  "write_period_delta_result ex fence var raw s =
     write_validated ex fence var raw (ascii ''M'') (Some (ascii ''M'')) s"

definition find_variable :: "rule_variable list \<Rightarrow> rust_string \<Rightarrow> rule_variable option" where
  "find_variable vars n = List.find (\<lambda>v. rv_name v = n) vars"

fun execute_assignments ::
    "'s rule_executor \<Rightarrow> u64 option \<Rightarrow> rule_variable list \<Rightarrow> rule_value_assignment list \<Rightarrow> rule_values \<Rightarrow> 's \<Rightarrow>
      action_result list \<times> 's" where
  "execute_assignments ex fence vars [] values s = ([], s)"
| "execute_assignments ex fence vars (a # rest) values s =
     (case find_variable vars (rva_variables a) of
        None \<Rightarrow> execute_assignments ex fence vars rest values s
      | Some var \<Rightarrow>
          let (r, s1) = execute_rule_change_for_execution ex fence var a values s;
              (rs, s2) = execute_assignments ex fence vars rest values s1
          in (r # rs, s2))"

text \<open>
  The calculations of a node in order; a failing formula stops the node and keeps the actions
  and values up to there.
\<close>

fun execute_calculations ::
    "'s rule_executor \<Rightarrow> u64 option \<Rightarrow> rust_string \<Rightarrow> rule_variable list \<Rightarrow> calculation_rule list \<Rightarrow>
      rule_values \<Rightarrow> 's \<Rightarrow> rust_string option \<times> action_result list \<times> rule_values \<times> 's" where
  "execute_calculations ex fence ctx vars [] values s = (None, [], values, s)"
| "execute_calculations ex fence ctx vars (c # cs) values s =
     (case re_calc_evaluate ex ctx (calc_formula c) values s of
        (Inl e, s1) \<Rightarrow>
          (Some (ascii ''Calc '' @ [0x27] @ calc_formula c @ [0x27] @ ascii '' error: '' @ e), [], values, s1)
      | (Inr v, s1) \<Rightarrow>
          let (here, s2) =
            (case find_variable vars (calc_output c) of
               None \<Rightarrow> ([], s1)
             | Some var \<Rightarrow> let (r, s') = write_calculation_result ex fence var v s1 in ([r], s'));
              (err, rs, values', s3) = execute_calculations ex fence ctx vars cs (values(calc_output c \<mapsto> v)) s2
          in (err, here @ rs, values', s3))"

subsection \<open>Walking the graph\<close>

record rule_walk =
  w_values :: rule_values
  w_point_values :: rule_values
  w_snapshot :: "rule_values option"
  w_result :: rule_execution_result

definition snapshot_or_reuse :: "rule_values option \<Rightarrow> rule_values \<Rightarrow> bool \<Rightarrow> rule_values" where
  "snapshot_or_reuse cache values changed =
     (case cache of Some sn \<Rightarrow> if \<not> changed then sn else values | None \<Rightarrow> values)"

definition fail_walk :: "rust_string \<Rightarrow> rule_walk \<Rightarrow> rule_walk" where
  "fail_walk e w = w\<lparr>w_result := (w_result w)\<lparr>res_error := Some e\<rparr>\<rparr>"

definition first_wire :: "rust_string \<Rightarrow> rust_string list \<Rightarrow> rule_walk \<Rightarrow> rust_string option \<times> rule_walk" where
  "first_wire node wires w =
     (case wires of
        target # _ \<Rightarrow> (Some target, w)
      | [] \<Rightarrow> (None, fail_walk (node @ ascii '' node has no output wire'') w))"

definition read_failure :: "rust_string \<Rightarrow> rust_string \<Rightarrow> rule_read_outcome \<Rightarrow> rust_string" where
  "read_failure what kind out =
     what @ ascii '' skipped: '' @ kind @ ascii '' unavailable: '' @ join_with (ascii '', '') (ro_missing out)"

text \<open>
  Reading the variables of a node and entering it: \<open>Inl\<close> is the error that stops the rule,
  \<open>Inr\<close> the snapshot the node records.
\<close>

definition enter_node ::
    "'s rule_executor \<Rightarrow> u64 option \<Rightarrow> rule_variable list \<Rightarrow> rust_string \<Rightarrow> rust_string \<Rightarrow>
      rule_walk \<Rightarrow> 's \<Rightarrow> (rust_string + rule_values) \<times> rule_walk \<times> 's" where
  "enter_node ex fence vars what input w s =
     (case read_rule_variables_for_execution ex fence vars (w_values w) s of
        (Inl e, values, s1) \<Rightarrow>
          (Inl (ascii ''Failed to read '' @ input @ ascii '': '' @ e), w\<lparr>w_values := values\<rparr>, s1)
      | (Inr out, values, s1) \<Rightarrow>
          let w1 = w\<lparr>w_values := values, w_point_values := w_point_values w ++ ro_point_values out\<rparr> in
          if ro_missing out \<noteq> [] then (Inl (read_failure what input out), w1, s1)
          else
            let snap = snapshot_or_reuse (w_snapshot w) values (ro_values_changed out) in
            (Inr snap,
             w1\<lparr>w_snapshot := Some snap, w_result := (w_result w1)\<lparr>res_variable_values := snap\<rparr>\<rparr>, s1))"

definition record_detail :: "rust_string \<Rightarrow> node_execution_detail \<Rightarrow> rule_walk \<Rightarrow> rule_walk" where
  "record_detail node_id d w =
     w\<lparr>w_result := (w_result w)\<lparr>res_node_details := (res_node_details (w_result w))(node_id \<mapsto> d)\<rparr>\<rparr>"

definition add_actions :: "action_result list \<Rightarrow> rule_walk \<Rightarrow> rule_walk" where
  "add_actions as w =
     w\<lparr>w_result := (w_result w)\<lparr>res_actions_executed := res_actions_executed (w_result w) @ as\<rparr>\<rparr>"

definition keep_readings :: "rule_walk \<Rightarrow> rule_walk" where
  "keep_readings w =
     w\<lparr>w_result := (w_result w)\<lparr>res_variable_values := w_values w, res_point_values := w_point_values w\<rparr>\<rparr>"

definition handle_switch_node ::
    "'s rule_executor \<Rightarrow> u64 option \<Rightarrow> rust_string \<Rightarrow> rule_variable list \<Rightarrow> rule_switch_branch list \<Rightarrow>
      (rust_string \<rightharpoonup> rust_string list) \<Rightarrow> rule_walk \<Rightarrow> 's \<Rightarrow> rust_string option \<times> rule_walk \<times> 's" where
  "handle_switch_node ex fence node_id vars bs wires w s =
     (case enter_node ex fence vars (ascii ''Rule cycle'') (ascii ''variables'') w s of
        (Inl e, w1, s1) \<Rightarrow> (None, keep_readings (fail_walk e w1), s1)
      | (Inr snap, w1, s1) \<Rightarrow>
          let found = evaluate_rule_switch_with_details ex bs wires (w_values w1);
              w2 = w1\<lparr>w_result := (w_result w1)\<lparr>res_matched_condition := map_option (\<lambda>(_, _, c). c) found\<rparr>\<rparr>;
              w3 = record_detail node_id
                \<lparr>ned_node_type = ascii ''switch'', ned_input_values = snap,
                 ned_condition_results = Some (evaluate_all_conditions ex bs (w_values w1)),
                 ned_matched_port = map_option (\<lambda>(_, port, _). port) found, ned_actions = None\<rparr> w2
          in case found of
               Some (target, _, _) \<Rightarrow> (Some target, w3, s1)
             | None \<Rightarrow> (None, fail_walk (ascii ''No matching switch rule'') w3, s1))"

definition handle_change_node ::
    "'s rule_executor \<Rightarrow> u64 option \<Rightarrow> rust_string \<Rightarrow> rule_variable list \<Rightarrow> rule_value_assignment list \<Rightarrow>
      rust_string list \<Rightarrow> rule_walk \<Rightarrow> 's \<Rightarrow> rust_string option \<times> rule_walk \<times> 's" where
  "handle_change_node ex fence node_id vars assignments wires w s =
     (case enter_node ex fence vars (ascii ''Rule cycle'') (ascii ''variables'') w s of
        (Inl e, w1, s1) \<Rightarrow> (None, fail_walk e w1, s1)
      | (Inr snap, w1, s1) \<Rightarrow>
          let (actions, s2) = execute_assignments ex fence vars assignments (w_values w1) s1;
              w2 = record_detail node_id
                \<lparr>ned_node_type = ascii ''change'', ned_input_values = snap, ned_condition_results = None,
                 ned_matched_port = None, ned_actions = Some actions\<rparr> (add_actions actions w1);
              (target, w3) = first_wire (ascii ''ChangeValue'') wires w2
          in (target, w3, s2))"

definition calc_context :: "u64 \<Rightarrow> rust_string" where
  "calc_context rid = ascii ''rule_'' @ show_int (sint rid)"

definition handle_calculation_node ::
    "'s rule_executor \<Rightarrow> u64 option \<Rightarrow> u64 \<Rightarrow> rust_string \<Rightarrow> rule_variable list \<Rightarrow> calculation_rule list \<Rightarrow>
      rust_string list \<Rightarrow> rule_walk \<Rightarrow> 's \<Rightarrow> rust_string option \<times> rule_walk \<times> 's" where
  "handle_calculation_node ex fence rid node_id vars calcs wires w s =
     (case enter_node ex fence vars (ascii ''Calculation'') (ascii ''variables'') w s of
        (Inl e, w1, s1) \<Rightarrow> (None, fail_walk e w1, s1)
      | (Inr snap, w1, s1) \<Rightarrow>
          (case execute_calculations ex fence (calc_context rid) vars calcs (w_values w1) s1 of
             (Some e, actions, values, s2) \<Rightarrow>
               (None, fail_walk e (add_actions actions (w1\<lparr>w_values := values\<rparr>)), s2)
           | (None, actions, values, s2) \<Rightarrow>
               let w2 = record_detail node_id
                     \<lparr>ned_node_type = ascii ''calculation'', ned_input_values = snap, ned_condition_results = None,
                      ned_matched_port = None, ned_actions = Some actions\<rparr>
                     (add_actions actions (w1\<lparr>w_values := values, w_snapshot := None\<rparr>));
                   (target, w3) = first_wire (ascii ''Calculation'') wires w2
               in (target, w3, s2)))"

definition delta_skipped :: "rust_string \<Rightarrow> rust_string \<Rightarrow> rust_string" where
  "delta_skipped n why =
     ascii ''PeriodDelta skipped: input variable '' @ [0x27] @ n @ [0x27] @ ascii '' '' @ why"

definition handle_period_delta_node ::
    "'s rule_executor \<Rightarrow> u64 option \<Rightarrow> u64 \<Rightarrow> rust_string \<Rightarrow> rule_variable \<Rightarrow> rule_variable \<Rightarrow> rust_string \<Rightarrow>
      rust_string list \<Rightarrow> rule_walk \<Rightarrow> 's \<Rightarrow> rust_string option \<times> rule_walk \<times> 's" where
  "handle_period_delta_node ex fence rid node_id input output period wires w s =
     (case enter_node ex fence [input] (ascii ''PeriodDelta'') (ascii ''input variable'') w s of
        (Inl e, w1, s1) \<Rightarrow> (None, fail_walk e w1, s1)
      | (Inr snap, w1, s1) \<Rightarrow>
          (case w_values w1 (rv_name input) of
             None \<Rightarrow> (None, fail_walk (delta_skipped (rv_name input) (ascii ''unavailable after read'')) w1, s1)
           | Some v \<Rightarrow>
               if \<not> f64_is_finite v then
                 (None, fail_walk (delta_skipped (rv_name input)
                    (ascii ''is non-finite ('' @ f64_display v @ ascii '')'')) w1, s1)
               else
                 let state_key = show_int (sint rid) @ ascii '':'' @ show_unsigned (unwrap_or_zero (rv_instance input)) @
                       ascii '':'' @ show_unsigned (unwrap_or_zero (rv_point input))
                 in case re_period_delta ex (calc_context rid) state_key v period s1 of
                      (Inl e, s2) \<Rightarrow> (None, fail_walk (ascii ''period_delta error: '' @ e) w1, s2)
                    | (Inr delta, s2) \<Rightarrow>
                        let (action, s3) = write_period_delta_result ex fence output delta s2;
                            w2 = record_detail node_id
                              \<lparr>ned_node_type = ascii ''periodDelta'', ned_input_values = snap,
                               ned_condition_results = None, ned_matched_port = None, ned_actions = Some [action]\<rparr>
                              (add_actions [action]
                                (w1\<lparr>w_values := (w_values w1)(rv_name output \<mapsto> delta), w_snapshot := None\<rparr>));
                            (target, w3) = first_wire (ascii ''PeriodDelta'') wires w2
                        in (target, w3, s3)))"

definition finish_walk :: "rule_walk \<Rightarrow> rule_walk" where
  "finish_walk w =
     (let w = keep_readings w; r = w_result w;
          failed = length (filter (\<lambda>a. \<not> act_success a) (res_actions_executed r))
      in w\<lparr>w_result :=
           (if failed = 0 then r\<lparr>res_success := True\<rparr>
            else r\<lparr>res_success := False,
                   res_error := Some (dec_digits failed @ ascii '' of '' @ dec_digits (length (res_actions_executed r)) @
                     ascii '' attempted rule actions failed'')\<rparr>)\<rparr>)"

definition visit_node ::
    "'s rule_executor \<Rightarrow> u64 option \<Rightarrow> u64 \<Rightarrow> rust_string \<Rightarrow> rule_node \<Rightarrow> rule_walk \<Rightarrow> 's \<Rightarrow>
      rust_string option \<times> rule_walk \<times> 's" where
  "visit_node ex fence rid node_id node w s =
     (case node of
        EndNode \<Rightarrow> (None, finish_walk w, s)
      | StartNode wires \<Rightarrow> (let (target, w1) = first_wire (ascii ''Start'') wires w in (target, w1, s))
      | SwitchNode vars bs wires \<Rightarrow> handle_switch_node ex fence node_id vars bs wires w s
      | ChangeValueNode vars as wires \<Rightarrow> handle_change_node ex fence node_id vars as wires w s
      | CalculationNode vars cs wires \<Rightarrow> handle_calculation_node ex fence rid node_id vars cs wires w s
      | PeriodDeltaNode input output period wires \<Rightarrow>
          handle_period_delta_node ex fence rid node_id input output period wires w s)"

definition visit ::
    "'s rule_executor \<Rightarrow> u64 option \<Rightarrow> rule \<Rightarrow> rust_string \<Rightarrow> rule_walk \<Rightarrow> 's \<Rightarrow>
      rust_string option \<times> rule_walk \<times> 's" where
  "visit ex fence r node_id w s =
     (let w = w\<lparr>w_result := (w_result w)\<lparr>res_execution_path := res_execution_path (w_result w) @ [node_id]\<rparr>\<rparr> in
      case flow_nodes (rule_flow_topology r) node_id of
        None \<Rightarrow> (None, fail_walk (ascii ''Node not found: '' @ node_id) w, s)
      | Some node \<Rightarrow> visit_node ex fence (rule_id r) node_id node w s)"

text \<open>The loop; the first argument is the number of iterations that are left.\<close>

fun walk_rule ::
    "nat \<Rightarrow> 's rule_executor \<Rightarrow> u64 option \<Rightarrow> rule \<Rightarrow> rust_string \<Rightarrow> rule_walk \<Rightarrow> 's \<Rightarrow> rule_walk \<times> 's" where
  "walk_rule 0 ex fence r node_id w s =
     (fail_walk (ascii ''Execution exceeded maximum iterations'') w, s)"
| "walk_rule (Suc n) ex fence r node_id w s =
     (case visit ex fence r node_id w s of
        (None, w1, s1) \<Rightarrow> (w1, s1)
      | (Some target, w1, s1) \<Rightarrow> walk_rule n ex fence r target w1 s1)"

definition walk_start :: "rule \<Rightarrow> rule_walk" where
  "walk_start r =
     \<lparr>w_values = Map.empty, w_point_values = Map.empty, w_snapshot = None,
      w_result = \<lparr>res_rule_id = rule_id r, res_success = False, res_actions_executed = [], res_error = None,
        res_execution_path = [], res_matched_condition = None, res_variable_values = Map.empty,
        res_point_values = Map.empty, res_node_details = Map.empty\<rparr>\<rparr>"

definition MAX_ITERATIONS :: nat where
  "MAX_ITERATIONS = 100"

definition rule_execute :: "'s rule_executor \<Rightarrow> rule \<Rightarrow> 's \<Rightarrow> rule_execution_result \<times> 's" where
  "rule_execute ex r s =
     (let (fence, s1) = re_begin_execution ex s;
          (w, s2) = walk_rule MAX_ITERATIONS ex fence r (start_node (rule_flow_topology r)) (walk_start r) s1
      in (w_result w, s2))"

end
