(* ===== verification/Rule_Runs.thy ===== *)
theory Rule_Runs
  imports Rule_Executor
begin

section \<open>Runs of the rule executor\<close>

text \<open>
  What a run leaves in its result, which errors a well-formed rule can still have, and which
  commands a run sends.  Every fact is proved for one node and lifted over the walk.
\<close>

subsection \<open>What a run leaves in its result\<close>

definition running :: "rule_walk \<Rightarrow> bool" where
  "running w \<longleftrightarrow> \<not> res_success (w_result w) \<and> res_error (w_result w) = None"

definition all_succeeded :: "rule_execution_result \<Rightarrow> bool" where
  "all_succeeded res \<longleftrightarrow> list_all act_success (res_actions_executed res)"

text \<open>A stopped walk: it failed with an error, or it ended with every action done.\<close>

definition stopped :: "bool \<Rightarrow> rule_walk \<Rightarrow> bool" where
  "stopped at_end w \<longleftrightarrow>
     (res_success (w_result w) \<longleftrightarrow> res_error (w_result w) = None) \<and>
     (res_success (w_result w) \<longleftrightarrow> at_end \<and> all_succeeded (w_result w))"

lemmas walk_defs = fail_walk_def record_detail_def add_actions_def keep_readings_def running_def stopped_def

definition path_of :: "rule_walk \<Rightarrow> rust_string list" where
  "path_of w = res_execution_path (w_result w)"

lemma path_simps [simp]:
  "path_of (fail_walk e w) = path_of w" "path_of (record_detail i d w) = path_of w"
  "path_of (add_actions as w) = path_of w" "path_of (keep_readings w) = path_of w"
  "path_of (w\<lparr>w_values := v\<rparr>) = path_of w" "path_of (w\<lparr>w_snapshot := c\<rparr>) = path_of w"
  "path_of (finish_walk w) = path_of w"
  by (simp_all add: path_of_def walk_defs finish_walk_def Let_def)

lemma running_simps [simp]:
  "running (record_detail i d w) = running w" "running (add_actions as w) = running w"
  "running (w\<lparr>w_values := v\<rparr>) = running w" "running (w\<lparr>w_snapshot := c\<rparr>) = running w"
  by (simp_all add: walk_defs)

lemma stopped_fail: "running w \<Longrightarrow> stopped False (fail_walk e w)"
  by (simp add: walk_defs)

lemma stopped_keep: "stopped b (keep_readings w) = stopped b w"
  by (simp add: walk_defs all_succeeded_def)

lemma stopped_finish: "running w \<Longrightarrow> stopped True (finish_walk w)"
  by (auto simp: finish_walk_def walk_defs all_succeeded_def list_all_iff filter_empty_conv Let_def)

definition step_ok :: "bool \<Rightarrow> rust_string list \<Rightarrow> rust_string option \<times> rule_walk \<times> 's \<Rightarrow> bool" where
  "step_ok at_end p y =
     (case y of
        (Some _, w, _) \<Rightarrow> \<not> at_end \<and> running w \<and> path_of w = p
      | (None, w, _) \<Rightarrow> stopped at_end w \<and> path_of w = p)"

lemma step_ok_first_wire:
  "running w \<Longrightarrow>
     step_ok False (path_of w) (let (t, w1) = first_wire node wires w in (t, w1, s))"
  by (cases wires) (simp_all add: first_wire_def step_ok_def stopped_fail)

lemma enter_node_walk:
  assumes "enter_node ex fence vars what input w s = (y, w1, s1)" and "running w"
  shows "running w1 \<and> path_of w1 = path_of w"
  using assms
  by (auto simp: enter_node_def Let_def running_def path_of_def split: prod.splits sum.splits if_splits)

lemma switch_step:
  assumes "running w"
  shows "step_ok False (path_of w) (handle_switch_node ex fence i vars bs wires w s)"
proof -
  obtain y w1 s1 where e: "enter_node ex fence vars (ascii ''Rule cycle'') (ascii ''variables'') w s = (y, w1, s1)"
    by (cases "enter_node ex fence vars (ascii ''Rule cycle'') (ascii ''variables'') w s")
  note w1 = enter_node_walk [OF e assms]
  let ?found = "evaluate_rule_switch_with_details ex bs wires (w_values w1)"
  have m: "running (w1\<lparr>w_result := (w_result w1)\<lparr>res_matched_condition := c\<rparr>\<rparr>)"
    "path_of (w1\<lparr>w_result := (w_result w1)\<lparr>res_matched_condition := c\<rparr>\<rparr>) = path_of w" for c
    using w1 by (simp_all add: running_def path_of_def)
  show ?thesis
    by (cases y; cases ?found)
      (auto simp: handle_switch_node_def e step_ok_def stopped_fail stopped_keep w1 m Let_def)
qed

lemma change_step:
  assumes "running w"
  shows "step_ok False (path_of w) (handle_change_node ex fence i vars as wires w s)"
proof -
  obtain y w1 s1 where e: "enter_node ex fence vars (ascii ''Rule cycle'') (ascii ''variables'') w s = (y, w1, s1)"
    by (cases "enter_node ex fence vars (ascii ''Rule cycle'') (ascii ''variables'') w s")
  note w1 = enter_node_walk [OF e assms]
  obtain acts s2 where a: "execute_assignments ex fence vars as (w_values w1) s1 = (acts, s2)"
    by (cases "execute_assignments ex fence vars as (w_values w1) s1")
  show ?thesis
    by (cases y; cases wires)
      (auto simp: handle_change_node_def e a first_wire_def step_ok_def stopped_fail w1 Let_def)
qed

lemma calculation_step:
  assumes "running w"
  shows "step_ok False (path_of w) (handle_calculation_node ex fence rid i vars cs wires w s)"
proof -
  obtain y w1 s1 where e: "enter_node ex fence vars (ascii ''Calculation'') (ascii ''variables'') w s = (y, w1, s1)"
    by (cases "enter_node ex fence vars (ascii ''Calculation'') (ascii ''variables'') w s")
  note w1 = enter_node_walk [OF e assms]
  obtain err acts vs s2 where
    c: "execute_calculations ex fence (calc_context rid) vars cs (w_values w1) s1 = (err, acts, vs, s2)"
    by (cases "execute_calculations ex fence (calc_context rid) vars cs (w_values w1) s1")
  show ?thesis
    by (cases y; cases err; cases wires)
      (auto simp: handle_calculation_node_def e c first_wire_def step_ok_def stopped_fail w1 Let_def)
qed

lemma period_delta_step:
  assumes "running w"
  shows "step_ok False (path_of w) (handle_period_delta_node ex fence rid i input output period wires w s)"
proof -
  obtain y w1 s1 where e: "enter_node ex fence [input] (ascii ''PeriodDelta'') (ascii ''input variable'') w s = (y, w1, s1)"
    by (cases "enter_node ex fence [input] (ascii ''PeriodDelta'') (ascii ''input variable'') w s")
  note w1 = enter_node_walk [OF e assms]
  show ?thesis
    by (cases wires)
      (auto simp: handle_period_delta_node_def e first_wire_def step_ok_def stopped_fail w1 Let_def
        split: sum.split option.split prod.split)
qed

lemma visit_step:
  assumes "running w"
  shows "step_ok (flow_nodes (rule_flow_topology r) i = Some EndNode) (path_of w @ [i]) (visit ex fence r i w s)"
proof -
  define w1 where "w1 = w\<lparr>w_result := (w_result w)\<lparr>res_execution_path := res_execution_path (w_result w) @ [i]\<rparr>\<rparr>"
  have w1: "running w1" "path_of w @ [i] = path_of w1"
    using assms by (simp_all add: w1_def running_def path_of_def)
  have visit: "visit ex fence r i w s =
      (case flow_nodes (rule_flow_topology r) i of
         None \<Rightarrow> (None, fail_walk (ascii ''Node not found: '' @ i) w1, s)
       | Some node \<Rightarrow> visit_node ex fence (rule_id r) i node w1 s)"
    unfolding visit_def w1_def Let_def ..
  show ?thesis
  proof (cases "flow_nodes (rule_flow_topology r) i")
    case None
    then show ?thesis using w1 by (simp add: visit step_ok_def stopped_fail)
  next
    case (Some node)
    then show ?thesis
      unfolding visit w1(2)
      by (cases node) (simp_all add: visit_node_def switch_step change_step calculation_step period_delta_step
          step_ok_first_wire [unfolded Let_def] w1 step_ok_def [of True] stopped_finish)
  qed
qed

lemma walk_rule_result:
  assumes "running w" and "walk_rule n ex fence r i w s = (w', s')"
  shows "length (path_of w') \<le> length (path_of w) + n \<and>
    stopped (n > 0 \<and> path_of w' \<noteq> [] \<and> flow_nodes (rule_flow_topology r) (last (path_of w')) = Some EndNode) w'"
  using assms
proof (induction n arbitrary: i w s)
  case 0
  then show ?case by (auto simp: stopped_fail)
next
  case (Suc n)
  obtain t w1 s1 where v: "visit ex fence r i w s = (t, w1, s1)" by (cases "visit ex fence r i w s")
  note step = visit_step [OF Suc.prems(1), of r i ex fence s, unfolded v step_ok_def, simplified]
  show ?case
  proof (cases t)
    case None
    then show ?thesis using step Suc.prems(2) v by auto
  next
    case (Some target)
    then have w1: "running w1" "path_of w1 = path_of w @ [i]"
      "flow_nodes (rule_flow_topology r) i \<noteq> Some EndNode"
      using step by auto
    have run: "walk_rule n ex fence r target w1 s1 = (w', s')" using Suc.prems(2) v Some by simp
    show ?thesis
    proof (cases n)
      case 0
      then show ?thesis using run w1 by (auto simp: stopped_fail)
    next
      case (Suc m)
      then show ?thesis using Suc.IH [OF w1(1) run] w1(2) by simp
    qed
  qed
qed

subsection \<open>Well-formed rules\<close>

text \<open>
  A rule as the editor should produce it: base variables name a point, every output leads to
  a node of the rule.
\<close>

definition wf_variable :: "rule_variable \<Rightarrow> bool" where
  "wf_variable v \<longleftrightarrow> rv_formula v \<noteq> [] \<or> rv_instance v \<noteq> None \<and> rv_point v \<noteq> None"

definition wf_wire :: "rule \<Rightarrow> rust_string list \<Rightarrow> bool" where
  "wf_wire r ws = (case ws of [] \<Rightarrow> False | t # _ \<Rightarrow> flow_nodes (rule_flow_topology r) t \<noteq> None)"

definition wf_node :: "rule \<Rightarrow> rule_node \<Rightarrow> bool" where
  "wf_node r node =
     (case node of
        StartNode ws \<Rightarrow> wf_wire r ws
      | EndNode \<Rightarrow> True
      | SwitchNode vars bs wires \<Rightarrow>
          list_all wf_variable vars \<and> (\<forall>p ws. wires p = Some ws \<longrightarrow> wf_wire r ws)
      | ChangeValueNode vars _ ws \<Rightarrow> list_all wf_variable vars \<and> wf_wire r ws
      | CalculationNode vars _ ws \<Rightarrow> list_all wf_variable vars \<and> wf_wire r ws
      | PeriodDeltaNode input _ _ ws \<Rightarrow> wf_variable input \<and> wf_wire r ws)"

definition wf_rule :: "rule \<Rightarrow> bool" where
  "wf_rule r \<longleftrightarrow>
     flow_nodes (rule_flow_topology r) (start_node (rule_flow_topology r)) \<noteq> None \<and>
     (\<forall>i node. flow_nodes (rule_flow_topology r) i = Some node \<longrightarrow> wf_node r node)"

definition starts_with :: "string \<Rightarrow> rust_string \<Rightarrow> bool" where
  "starts_with p e \<longleftrightarrow> take (length p) e = ascii p"

text \<open>The errors that the data can cause, as opposed to the shape of the rule.\<close>

definition data_error :: "rust_string \<Rightarrow> bool" where
  "data_error e \<longleftrightarrow>
     starts_with ''Rule cycle skipped: '' e \<or> starts_with ''Calculation skipped: '' e \<or>
     starts_with ''PeriodDelta skipped: '' e \<or> starts_with ''Calc '' e \<or>
     starts_with ''period_delta error: '' e \<or> e = ascii ''No matching switch rule'' \<or>
     e = ascii ''Execution exceeded maximum iterations'' \<or>
     (\<exists>k n. e = dec_digits k @ ascii '' of '' @ dec_digits n @ ascii '' attempted rule actions failed'')"

definition only_data_errors :: "rule_walk \<Rightarrow> bool" where
  "only_data_errors w = (case res_error (w_result w) of None \<Rightarrow> True | Some e \<Rightarrow> data_error e)"

text \<open>One step of a well-formed rule: it goes on at a node, or it stops for the data.\<close>

definition typed_step :: "rule \<Rightarrow> rust_string option \<times> rule_walk \<times> 's \<Rightarrow> bool" where
  "typed_step r y =
     (case y of
        (Some t, _, _) \<Rightarrow> flow_nodes (rule_flow_topology r) t \<noteq> None
      | (None, w, _) \<Rightarrow> only_data_errors w)"

lemma length_ascii [simp]: "length (ascii p) = length p"
  by (simp add: ascii_def)

lemma starts_with_append [simp]: "starts_with p (ascii p @ e)"
  by (simp add: starts_with_def)

lemma only_data_errors_fail [simp]: "only_data_errors (fail_walk e w) = data_error e"
  by (simp add: only_data_errors_def fail_walk_def)

lemma only_data_errors_keep [simp]: "only_data_errors (keep_readings w) = only_data_errors w"
  by (simp add: only_data_errors_def keep_readings_def)

lemma only_data_errors_finish: "running w \<Longrightarrow> only_data_errors (finish_walk w)"
  by (auto simp: finish_walk_def only_data_errors_def keep_readings_def running_def data_error_def Let_def)

lemma wf_read:
  assumes "list_all wf_variable vars"
  shows "\<exists>out vs s1. read_rule_variables_for_execution ex fence vars values s = (Inr out, vs, s1)"
proof -
  have "\<exists>out vs s1. read_base_variables ex fence vars vo s = (Inr out, vs, s1)" for vo
    using assms
    by (induction ex fence vars vo s rule: read_base_variables.induct)
      (auto simp: wf_variable_def Let_def split: prod.split option.splits)
  then show ?thesis
    unfolding read_rule_variables_for_execution_def
    by (metis (mono_tags, lifting) case_prod_conv old.sum.simps(6) prod.collapse)
qed

lemma enter_node_data_error:
  assumes "enter_node ex fence vars what input w s = (Inl e, w1, s1)" and "list_all wf_variable vars"
  shows "\<exists>m. e = what @ ascii '' skipped: '' @ m"
proof -
  obtain out vs s2 where
    "read_rule_variables_for_execution ex fence vars (w_values w) s = (Inr out, vs, s2)"
    using wf_read [OF assms(2), of ex fence "w_values w" s] by (elim exE)
  then show ?thesis
    using assms(1) by (auto simp: enter_node_def read_failure_def Let_def split: if_splits)
qed

lemma skipped_data_error:
  "data_error (ascii ''Rule cycle'' @ ascii '' skipped: '' @ m)"
  "data_error (ascii ''Calculation'' @ ascii '' skipped: '' @ m)"
  "data_error (ascii ''PeriodDelta'' @ ascii '' skipped: '' @ m)"
  by (simp_all add: data_error_def starts_with_def ascii_def)

lemma enter_typed:
  assumes "enter_node ex fence vars what input w s = (Inl e, w1, s1)" and "list_all wf_variable vars"
    and "what \<in> {ascii ''Rule cycle'', ascii ''Calculation'', ascii ''PeriodDelta''}"
  shows "data_error e"
  using enter_node_data_error [OF assms(1,2)] assms(3) skipped_data_error by auto

lemma first_wire_typed:
  "wf_wire r ws \<Longrightarrow> typed_step r (case first_wire node ws w of (t, w1) \<Rightarrow> (t, w1, s))"
  by (cases ws) (simp_all add: wf_wire_def first_wire_def typed_step_def)

lemma switch_target:
  assumes "evaluate_rule_switch_with_details ex bs wires values = Some (t, p, c)"
  shows "\<exists>q ws. wires q = Some ws \<and> (\<exists>rest. ws = t # rest)"
  using assms
  by (induction bs) (auto split: if_splits option.splits list.splits)

lemma switch_typed:
  assumes "list_all wf_variable vars" and "\<And>p ws. wires p = Some ws \<Longrightarrow> wf_wire r ws"
  shows "typed_step r (handle_switch_node ex fence i vars bs wires w s)"
proof -
  obtain y w1 s1 where e: "enter_node ex fence vars (ascii ''Rule cycle'') (ascii ''variables'') w s = (y, w1, s1)"
    by (cases "enter_node ex fence vars (ascii ''Rule cycle'') (ascii ''variables'') w s")
  show ?thesis
  proof (cases y)
    case (Inl err)
    then show ?thesis
      using enter_typed [OF e [unfolded Inl] assms(1)] by (simp add: handle_switch_node_def e typed_step_def)
  next
    case (Inr snap)
    show ?thesis
    proof (cases "evaluate_rule_switch_with_details ex bs wires (w_values w1)")
      case None
      then show ?thesis
        by (simp add: handle_switch_node_def e Inr typed_step_def Let_def data_error_def)
    next
      case (Some found)
      then obtain t p c where f: "evaluate_rule_switch_with_details ex bs wires (w_values w1) = Some (t, p, c)"
        by (cases found) auto
      then have "flow_nodes (rule_flow_topology r) t \<noteq> None"
        using switch_target [OF f] assms(2) by (fastforce simp: wf_wire_def)
      then show ?thesis
        by (simp add: handle_switch_node_def e Inr f typed_step_def Let_def)
    qed
  qed
qed

lemma change_typed:
  assumes "list_all wf_variable vars" and "wf_wire r wires"
  shows "typed_step r (handle_change_node ex fence i vars as wires w s)"
proof -
  obtain y w1 s1 where e: "enter_node ex fence vars (ascii ''Rule cycle'') (ascii ''variables'') w s = (y, w1, s1)"
    by (cases "enter_node ex fence vars (ascii ''Rule cycle'') (ascii ''variables'') w s")
  obtain acts s2 where a: "execute_assignments ex fence vars as (w_values w1) s1 = (acts, s2)"
    by (cases "execute_assignments ex fence vars as (w_values w1) s1")
  show ?thesis
  proof (cases y)
    case (Inl err)
    then show ?thesis
      using enter_typed [OF e [unfolded Inl] assms(1)] by (simp add: handle_change_node_def e typed_step_def)
  next
    case (Inr snap)
    then show ?thesis by (simp add: handle_change_node_def e a Let_def first_wire_typed assms(2))
  qed
qed

lemma calculations_data_error:
  "execute_calculations ex fence ctx vars cs vals s = (Some e, acts, vs, s1) \<Longrightarrow> data_error e"
  by (induction ex fence ctx vars cs vals s arbitrary: acts vs s1 rule: execute_calculations.induct)
    (auto simp: data_error_def Let_def split: prod.splits sum.splits)

lemma calculation_typed:
  assumes "list_all wf_variable vars" and "wf_wire r wires"
  shows "typed_step r (handle_calculation_node ex fence rid i vars cs wires w s)"
proof -
  obtain y w1 s1 where e: "enter_node ex fence vars (ascii ''Calculation'') (ascii ''variables'') w s = (y, w1, s1)"
    by (cases "enter_node ex fence vars (ascii ''Calculation'') (ascii ''variables'') w s")
  obtain err acts vs s2 where
    c: "execute_calculations ex fence (calc_context rid) vars cs (w_values w1) s1 = (err, acts, vs, s2)"
    by (cases "execute_calculations ex fence (calc_context rid) vars cs (w_values w1) s1")
  show ?thesis
  proof (cases y)
    case (Inl m)
    then show ?thesis
      using enter_typed [OF e [unfolded Inl] assms(1)] by (simp add: handle_calculation_node_def e typed_step_def)
  next
    case (Inr snap)
    show ?thesis
    proof (cases err)
      case None
      then show ?thesis by (simp add: handle_calculation_node_def e Inr c Let_def first_wire_typed assms(2))
    next
      case (Some m)
      then show ?thesis
        using calculations_data_error c by (simp add: handle_calculation_node_def e Inr typed_step_def)
    qed
  qed
qed

lemma delta_data_errors:
  "data_error (delta_skipped n m)" "data_error (ascii ''period_delta error: '' @ m)"
  by (simp_all add: data_error_def delta_skipped_def starts_with_def ascii_def)

lemma period_delta_typed:
  assumes "wf_variable input" and "wf_wire r wires"
  shows "typed_step r (handle_period_delta_node ex fence rid i input output period wires w s)"
proof -
  obtain y w1 s1 where e: "enter_node ex fence [input] (ascii ''PeriodDelta'') (ascii ''input variable'') w s = (y, w1, s1)"
    by (cases "enter_node ex fence [input] (ascii ''PeriodDelta'') (ascii ''input variable'') w s")
  show ?thesis
  proof (cases y)
    case (Inl m)
    then show ?thesis
      using enter_typed [OF e [unfolded Inl]] assms(1) by (simp add: handle_period_delta_node_def e typed_step_def)
  next
    case (Inr snap)
    then show ?thesis
      using assms(2)
      by (cases wires) (auto simp: handle_period_delta_node_def e typed_step_def delta_data_errors Let_def
          wf_wire_def first_wire_def split: option.split sum.split prod.split)
  qed
qed

lemma visit_typed:
  assumes "wf_rule r" and "flow_nodes (rule_flow_topology r) i = Some node" and "running w"
  shows "typed_step r (visit ex fence r i w s)"
proof -
  have "wf_node r node" using assms by (auto simp: wf_rule_def)
  then show ?thesis
    using assms(3)
    by (cases node) (simp_all add: visit_def visit_node_def assms(2) wf_node_def first_wire_typed switch_typed
        change_typed calculation_typed period_delta_typed typed_step_def [of r "(None, _)"]
        only_data_errors_finish running_def Let_def)
qed

lemma walk_typed:
  assumes "wf_rule r" and "flow_nodes (rule_flow_topology r) i \<noteq> None" and "running w"
    and "set (path_of w) \<subseteq> dom (flow_nodes (rule_flow_topology r))"
    and "walk_rule n ex fence r i w s = (w', s')"
  shows "only_data_errors w' \<and> set (path_of w') \<subseteq> dom (flow_nodes (rule_flow_topology r))"
  using assms(2-)
proof (induction n arbitrary: i w s)
  case 0
  then show ?case by (auto simp: data_error_def)
next
  case (Suc n)
  obtain t w1 s1 where v: "visit ex fence r i w s = (t, w1, s1)" by (cases "visit ex fence r i w s")
  obtain node where node: "flow_nodes (rule_flow_topology r) i = Some node" using Suc.prems(1) by blast
  note typed = visit_typed [OF assms(1) node Suc.prems(2), of ex fence s, unfolded v]
  note step = visit_step [OF Suc.prems(2), of r i ex fence s, unfolded v step_ok_def, simplified]
  have path: "path_of w1 = path_of w @ [i]" using step by (cases t) auto
  then have dom: "set (path_of w1) \<subseteq> dom (flow_nodes (rule_flow_topology r))"
    using Suc.prems(3) node by auto
  show ?case
  proof (cases t)
    case None
    then show ?thesis using typed dom Suc.prems(4) v by (simp add: typed_step_def)
  next
    case (Some target)
    then show ?thesis
      using Suc.IH [of target w1 s1] Suc.prems(4) v typed step dom by (simp add: typed_step_def)
  qed
qed

subsection \<open>What a run does to its environment\<close>

text \<open>
  An environment whose invariant survives every read and calculation, and every command that
  carries a finite value, an action target and the fence of the run.  Then it survives the run.
\<close>

locale rule_environment =
  fixes ex :: "'s rule_executor" and fence :: "u64 option" and P :: "'s \<Rightarrow> bool"
  assumes get_keeps: "P s \<Longrightarrow> P (snd (re_get_instance ex fence i k p s))"
    and calc_keeps: "P s \<Longrightarrow> P (snd (re_calc_evaluate ex ctx f vs s))"
    and delta_keeps: "P s \<Longrightarrow> P (snd (re_period_delta ex ctx key v period s))"
    and command_keeps:
      "re_action_commands ex = Some write_action \<Longrightarrow> P s \<Longrightarrow> f64_is_finite (rac_value c) \<Longrightarrow>
        pa_kind (rac_target c) = Action \<Longrightarrow> rac_topology_fence c = fence \<Longrightarrow> P (snd (write_action c s))"
begin

lemma write_action_point_keeps:
  assumes "P s" and "f64_is_finite v"
  shows "P (snd (write_action_point ex fence i p v s))"
proof (cases "re_action_commands ex")
  case None
  then show ?thesis using assms by (simp add: write_action_point_def)
next
  case (Some write_action)
  let ?c = "rule_action_command_new i p v"
  let ?d = "case fence of None \<Rightarrow> ?c | Some f \<Rightarrow> with_topology_fence ?c f"
  have "f64_is_finite (rac_value ?d)" "pa_kind (rac_target ?d) = Action" "rac_topology_fence ?d = fence"
    using assms(2)
    by (simp_all add: rule_action_command_new_def with_topology_fence_def split: option.split)
  from command_keeps [OF Some assms(1) this] show ?thesis
    by (auto simp: write_action_point_def Some Let_def split: prod.split sum.split)
qed

lemma write_validated_keeps:
  assumes "P s"
  shows "P (snd (write_validated ex fence var raw dflt forced s))"
proof (cases "validate_write_target var raw dflt")
  case (Inl a)
  then show ?thesis using assms by (simp add: write_validated_def)
next
  case (Inr y)
  then obtain i p v pt where y: "validate_write_target var raw dflt = Inr (i, p, v, pt)" by (cases y) auto
  then have "f64_is_finite v"
    by (auto simp: validate_write_target_def validate_default_finite Let_def split: sum.splits option.splits)
  from write_action_point_keeps [OF assms this, of i p] show ?thesis
    using assms by (auto simp: write_validated_def y write_to_point_def Let_def split: prod.split)
qed

lemmas write_keeps = write_validated_keeps
  write_validated_keeps [where dflt = "ascii ''M''" and forced = None, folded write_calculation_result_def]
  write_validated_keeps [where dflt = "ascii ''M''" and forced = "Some (ascii ''M'')", folded write_period_delta_result_def]

lemma change_action_keeps: "P s \<Longrightarrow> P (snd (execute_rule_change_for_execution ex fence var a vs s))"
  by (simp add: execute_rule_change_for_execution_def write_validated_keeps split: option.split)

lemma assignments_keep:
  "P s \<Longrightarrow> execute_assignments ex fence vars as vs s = (acts, s1) \<Longrightarrow> P s1"
proof (induction as arbitrary: s acts)
  case (Cons a as)
  have change: "P s2" if "execute_rule_change_for_execution ex fence var a vs s = (x, s2)" for var x s2
    using change_action_keeps [OF Cons.prems(1), of var a vs] that by simp
  from Cons show ?case
    by (auto split: option.splits prod.splits dest: change)
qed simp

lemma calculations_keep:
  "P s \<Longrightarrow> execute_calculations ex fence ctx vars cs vs s = (err, acts, vs1, s1) \<Longrightarrow> P s1"
proof (induction cs arbitrary: s vs err acts)
  case (Cons c cs)
  obtain y s2 where y: "re_calc_evaluate ex ctx (calc_formula c) vs s = (y, s2)"
    by (cases "re_calc_evaluate ex ctx (calc_formula c) vs s")
  have s2: "P s2" using calc_keeps [OF Cons.prems(1), of ctx "calc_formula c" vs] y by simp
  show ?case
  proof (cases y)
    case (Inl e)
    then show ?thesis using Cons.prems y s2 by simp
  next
    case (Inr v)
    show ?thesis
    proof (cases "find_variable vars (calc_output c)")
      case None
      then show ?thesis using Cons y s2 Inr by (auto split: prod.splits)
    next
      case (Some var)
      obtain r s3 where w: "write_calculation_result ex fence var v s2 = (r, s3)"
        by (cases "write_calculation_result ex fence var v s2")
      have "P s3" using write_keeps(2) [OF s2, of var v] w by simp
      then show ?thesis using Cons y Inr Some w by (auto split: prod.splits)
    qed
  qed
qed simp

lemma read_keeps:
  assumes "P s" and "read_rule_variables_for_execution ex fence vars vs s = (y, vs1, s1)"
  shows "P s1"
proof -
  have base: "P s \<Longrightarrow> P (snd (snd (read_base_variables ex fence vars vo s)))" for vo s
  proof (induction vars arbitrary: vo s)
    case (Cons var vars)
    have get: "P s2" if "re_get_instance ex fence i k p s = (x, s2)" for i k p x s2
      using get_keeps [OF Cons.prems, of i k p] that by simp
    show ?case
      using Cons get by (auto simp: Let_def split: option.split prod.split)
  qed simp
  show ?thesis
    using base [OF assms(1), of "(vs, read_outcome_default)"] assms(2)
    by (auto simp: read_rule_variables_for_execution_def split: prod.splits sum.splits)
qed

lemma enter_keeps:
  assumes "P s" and "enter_node ex fence vars what input w s = (y, w1, s1)"
  shows "P s1"
proof -
  obtain z vs s2 where r: "read_rule_variables_for_execution ex fence vars (w_values w) s = (z, vs, s2)"
    by (cases "read_rule_variables_for_execution ex fence vars (w_values w) s")
  from read_keeps [OF assms(1) r] show ?thesis
    using assms(2) by (cases z) (auto simp: enter_node_def r Let_def split: if_splits)
qed

lemma handle_change_keeps:
  assumes "P s"
  shows "P (snd (snd (handle_change_node ex fence i vars as wires w s)))"
proof -
  obtain y w1 s1 where e: "enter_node ex fence vars (ascii ''Rule cycle'') (ascii ''variables'') w s = (y, w1, s1)"
    by (cases "enter_node ex fence vars (ascii ''Rule cycle'') (ascii ''variables'') w s")
  obtain acts s2 where a: "execute_assignments ex fence vars as (w_values w1) s1 = (acts, s2)"
    by (cases "execute_assignments ex fence vars as (w_values w1) s1")
  have "P s1" using enter_keeps [OF assms e] .
  moreover have "P s2" using assignments_keep [OF calculation a] .
  ultimately show ?thesis
    by (cases y) (simp_all add: handle_change_node_def e a Let_def split: prod.split)
qed

lemma handle_calculation_keeps:
  assumes "P s"
  shows "P (snd (snd (handle_calculation_node ex fence rid i vars cs wires w s)))"
proof -
  obtain y w1 s1 where e: "enter_node ex fence vars (ascii ''Calculation'') (ascii ''variables'') w s = (y, w1, s1)"
    by (cases "enter_node ex fence vars (ascii ''Calculation'') (ascii ''variables'') w s")
  obtain err acts vs s2 where
    c: "execute_calculations ex fence (calc_context rid) vars cs (w_values w1) s1 = (err, acts, vs, s2)"
    by (cases "execute_calculations ex fence (calc_context rid) vars cs (w_values w1) s1")
  have "P s1" using enter_keeps [OF assms e] .
  moreover have "P s2" using calculations_keep [OF calculation c] .
  ultimately show ?thesis
    by (cases y; cases err) (simp_all add: handle_calculation_node_def e c Let_def split: prod.split)
qed

lemma handle_period_delta_keeps:
  assumes "P s"
  shows "P (snd (snd (handle_period_delta_node ex fence rid i input out period wires w s)))"
proof -
  obtain y w1 s1 where e: "enter_node ex fence [input] (ascii ''PeriodDelta'') (ascii ''input variable'') w s = (y, w1, s1)"
    by (cases "enter_node ex fence [input] (ascii ''PeriodDelta'') (ascii ''input variable'') w s")
  have s1: "P s1" using enter_keeps [OF assms e] .
  have delta: "P s2" if "re_period_delta ex c k v period s1 = (z, s2)" for c k v z s2
    using delta_keeps [OF s1, of c k v period] that by simp
  have written: "P s3" if "write_period_delta_result ex fence out d s2 = (a, s3)" "P s2" for d s2 a s3
    using write_keeps(3) [OF that(2), of out d] that(1) by simp
  show ?thesis
    using s1 by (auto simp: handle_period_delta_node_def e Let_def dest: delta written
        split: prod.split sum.split option.split)
qed

lemma handle_switch_keeps:
  assumes "P s"
  shows "P (snd (snd (handle_switch_node ex fence i vars bs wires w s)))"
proof -
  obtain y w1 s1 where e: "enter_node ex fence vars (ascii ''Rule cycle'') (ascii ''variables'') w s = (y, w1, s1)"
    by (cases "enter_node ex fence vars (ascii ''Rule cycle'') (ascii ''variables'') w s")
  have "P s1" using enter_keeps [OF assms e] .
  then show ?thesis
    by (cases y) (simp_all add: handle_switch_node_def e Let_def split: prod.split option.split)
qed

lemma visit_keeps:
  assumes "P s"
  shows "P (snd (snd (visit ex fence r i w s)))"
  using assms
  by (simp add: visit_def visit_node_def Let_def handle_switch_keeps handle_change_keeps
      handle_calculation_keeps handle_period_delta_keeps split: option.split rule_node.split prod.split)

lemma walk_keeps: "P s \<Longrightarrow> P (snd (walk_rule n ex fence r i w s))"
proof (induction n arbitrary: i w s)
  case (Suc n)
  obtain t w1 s1 where v: "visit ex fence r i w s = (t, w1, s1)" by (cases "visit ex fence r i w s")
  have "P s1" using visit_keeps [OF Suc.prems, of r i w] v by simp
  then show ?case using Suc.IH v by (cases t) auto
qed simp

end

text \<open>An executor whose command facade logs what it is given, beside any other state.\<close>

definition logged_executor ::
    "'e rule_executor \<Rightarrow> (rule_action_command \<Rightarrow> ('e, command_receipt) port_call) \<Rightarrow>
      ('e \<times> rule_action_command list) rule_executor" where
  "logged_executor ex write_action =
     \<lparr>re_begin_execution = (\<lambda>(e, l). let (f, e1) = re_begin_execution ex e in (f, (e1, l))),
      re_get_instance = (\<lambda>f i k p (e, l). let (x, e1) = re_get_instance ex f i k p e in (x, (e1, l))),
      re_action_commands = Some (\<lambda>c (e, l). let (x, e1) = write_action c e in (x, (e1, l @ [c]))),
      re_evaluate_formula = re_evaluate_formula ex, re_json_display = re_json_display ex,
      re_calc_evaluate = (\<lambda>c f vs (e, l). let (x, e1) = re_calc_evaluate ex c f vs e in (x, (e1, l))),
      re_period_delta = (\<lambda>c k v p (e, l). let (x, e1) = re_period_delta ex c k v p e in (x, (e1, l)))\<rparr>"

definition lawful_command :: "u64 option \<Rightarrow> rule_action_command \<Rightarrow> bool" where
  "lawful_command fence c \<longleftrightarrow>
     f64_is_finite (rac_value c) \<and> pa_kind (rac_target c) = Action \<and> rac_topology_fence c = fence"

interpretation logged: rule_environment
  "logged_executor ex write_action" fence "\<lambda>s. list_all (lawful_command fence) (snd s)"
  for ex write_action fence
  by unfold_locales
    (auto simp: logged_executor_def lawful_command_def Let_def split: prod.split)

subsection \<open>Properties\<close>

lemma running_start [simp]: "running (walk_start r)" "path_of (walk_start r) = []"
  by (simp_all add: running_def path_of_def walk_start_def)

lemma rule_execute_walk:
  obtains fence s1 w where
    "re_begin_execution ex s = (fence, s1)"
    "walk_rule MAX_ITERATIONS ex fence r (start_node (rule_flow_topology r)) (walk_start r) s1
       = (w, snd (rule_execute ex r s))"
    "fst (rule_execute ex r s) = w_result w"
proof -
  obtain fence s1 where b: "re_begin_execution ex s = (fence, s1)" by (cases "re_begin_execution ex s")
  obtain w s2 where
    run: "walk_rule MAX_ITERATIONS ex fence r (start_node (rule_flow_topology r)) (walk_start r) s1 = (w, s2)"
    by (cases "walk_rule MAX_ITERATIONS ex fence r (start_node (rule_flow_topology r)) (walk_start r) s1")
  have e: "rule_execute ex r s = (w_result w, s2)"
    unfolding rule_execute_def b Let_def prod.case run by simp
  show thesis by (rule that [OF b]) (simp_all add: e run)
qed

text \<open>
  C13: Every run returns after at most 100 nodes, and its result is truthful: it reports
  success exactly when it reports no error, and exactly when the last node on its path is an
  end node and every attempted action succeeded.
\<close>

theorem rule_result_is_truthful:
  "let res = fst (rule_execute ex r s); path = res_execution_path res in
   length path \<le> 100 \<and>
   (res_success res \<longleftrightarrow> res_error res = None) \<and>
   (res_success res \<longleftrightarrow>
      path \<noteq> [] \<and> flow_nodes (rule_flow_topology r) (last path) = Some EndNode \<and>
      list_all act_success (res_actions_executed res))"
proof (rule rule_execute_walk [of ex s r])
  fix fence s1 w
  assume run: "walk_rule MAX_ITERATIONS ex fence r (start_node (rule_flow_topology r)) (walk_start r) s1
      = (w, snd (rule_execute ex r s))"
    and res: "fst (rule_execute ex r s) = w_result w"
  from walk_rule_result [OF running_start(1) run] show ?thesis
    unfolding res Let_def stopped_def all_succeeded_def path_of_def MAX_ITERATIONS_def walk_start_def
    by auto
qed


text \<open>
  Data for the two theorems below.  The live state holds 100.0 for measurement 1 of instance 1
  and nothing else; the state of the environment is the list of commands sent.
\<close>

definition sample_environment :: "rule_action_command list rule_executor" where
  "sample_environment =
     \<lparr>re_begin_execution = (\<lambda>s. (None, s)),
      re_get_instance = (\<lambda>_ i k p s. (if i = 1 \<and> k = 0 \<and> p = 1 then Some (0x4059000000000000, 0) else None, s)),
      re_action_commands = Some (\<lambda>c s. (Inr \<lparr>cr_command_id = 0, cr_completed_at = 0\<rparr>, s @ [c])),
      re_evaluate_formula = (\<lambda>_ _. Inr F64_INFINITY), re_json_display = (\<lambda>_. []),
      re_calc_evaluate = (\<lambda>_ _ _ s. (Inl [], s)), re_period_delta = (\<lambda>_ _ _ _ s. (Inl [], s))\<rparr>"

definition bound_variable :: "string \<Rightarrow> u32 \<Rightarrow> string \<Rightarrow> u32 \<Rightarrow> rule_variable" where
  "bound_variable n i k p =
     \<lparr>rv_name = ascii n, rv_instance = Some i, rv_point_type = Some (ascii k), rv_point = Some p, rv_formula = []\<rparr>"

definition formula_variable :: "string \<Rightarrow> json list \<Rightarrow> rule_variable" where
  "formula_variable n tokens =
     \<lparr>rv_name = ascii n, rv_instance = None, rv_point_type = None, rv_point = None, rv_formula = tokens\<rparr>"

definition above_fifty :: flow_condition where
  "above_fifty =
     \<lparr>fc_type = ascii ''variable'', fc_variables = Some (ascii ''X1''), fc_operator = Some (ascii ''>''),
      fc_value = Some (JNumber (Float 0x4049000000000000))\<rparr>"

definition switch_on :: "rule_variable \<Rightarrow> flow_condition list \<Rightarrow> string \<Rightarrow> rule_node" where
  "switch_on var cs target =
     SwitchNode [var] [\<lparr>rsb_name = ascii ''out'', rsb_type = [], rsb_rule = cs\<rparr>] [ascii ''out'' \<mapsto> [ascii target]]"

definition sample_rule :: "(rust_string \<rightharpoonup> rule_node) \<Rightarrow> rule" where
  "sample_rule nodes =
     \<lparr>rule_id = 7, rule_name = [], rule_description = None, rule_enabled = True, rule_priority = 0,
      rule_cooldown_ms = 0, rule_trigger_config = None,
      rule_flow_topology = \<lparr>start_node = ascii ''s'', flow_nodes = nodes\<rparr>\<rparr>"

definition act_and_end :: "rust_string \<rightharpoonup> rule_node" where
  "act_and_end =
     [ascii ''c'' \<mapsto> ChangeValueNode [bound_variable ''Y'' 3 ''action'' 7]
        [\<lparr>rva_variables = ascii ''Y'', rva_value = JNumber (PosInt 1)\<rparr>] [ascii ''e''],
      ascii ''e'' \<mapsto> EndNode]"

definition stale_rule :: rule where
  "stale_rule = sample_rule (act_and_end
     (ascii ''s'' \<mapsto> switch_on (bound_variable ''X1'' 1 ''measurement'' 1) [] ''b'',
      ascii ''b'' \<mapsto> switch_on (bound_variable ''X1'' 2 ''action'' 5) [above_fifty] ''c''))"

definition infinite_rule :: rule where
  "infinite_rule = sample_rule (act_and_end
     (ascii ''s'' \<mapsto> switch_on (formula_variable ''X1'' [JString (ascii ''1/0'')]) [above_fifty] ''c''))"

lemma stale_rule_wf: "wf_rule stale_rule"
  by (auto simp: wf_rule_def stale_rule_def sample_rule_def act_and_end_def switch_on_def wf_node_def
      wf_wire_def wf_variable_def bound_variable_def ascii_def)


text \<open>
  Whatever the ports do, every command a run gives to the command facade has a finite
  value, addresses an action point and carries the topology fence that was captured before the
  first input was read.
\<close>

lemma rule_commands_are_lawful:
  "list_all (lawful_command (fst (re_begin_execution ex e)))
     (snd (snd (rule_execute (logged_executor ex write_action) r (e, []))))"
proof (rule rule_execute_walk [of "logged_executor ex write_action" "(e, [])" r])
  fix fence s1 w
  assume b: "re_begin_execution (logged_executor ex write_action) (e, []) = (fence, s1)"
    and run: "walk_rule MAX_ITERATIONS (logged_executor ex write_action) fence r
      (start_node (rule_flow_topology r)) (walk_start r) s1
      = (w, snd (rule_execute (logged_executor ex write_action) r (e, [])))"
  from b have fence: "fence = fst (re_begin_execution ex e)" and start: "list_all (lawful_command fence) (snd s1)"
    by (auto simp: logged_executor_def Let_def split: prod.splits)
  from logged.walk_keeps [OF start, of MAX_ITERATIONS ex write_action r
      "start_node (rule_flow_topology r)" "walk_start r"]
  show ?thesis by (simp add: run flip: fence)
qed


end
