(* ===== verification/Command_Dispatch.thy ===== *)
theory Command_Dispatch
  imports Runtime_Topology Rule_Runs
begin

section \<open>From a rule action to the device (services/automation/src/infra)\<close>

text \<open>
  The adapters that connect the rule engine to the service: the live state a rule reads
  (rule_live_state.rs), the facade that submits its actions as governed commands, and the
  dispatcher that turns a logical command into a physical one (application_control.rs).
\<close>

subsection \<open>The dispatcher\<close>

text \<open>
  The two configuration queries answer with a row, no row, or the text of a database error.
  The runtime topology is absent until it is configured; pinning it waits at the command gate,
  where other tasks run, and then loads the current generation.
\<close>

record ('r, 's) command_ports =
  dq_planes :: "('r, 's) plane_ports"
  dq_control_point :: "u32 \<Rightarrow> u32 \<Rightarrow> 's \<Rightarrow> (rust_string + unit option) \<times> 's"
  dq_adjustment_point :: "u32 \<Rightarrow> u32 \<Rightarrow> 's \<Rightarrow> (rust_string + (f64 option \<times> f64 option \<times> f64) option) \<times> 's"
  dq_utc_now :: "'s \<Rightarrow> u64 \<times> 's"
  dq_send :: "physical_command \<Rightarrow> ('s, command_receipt) port_call"

record ('r, 's) runtime_topology =
  rt_gate :: "'s \<Rightarrow> 's"
  rt_handle :: "'s \<Rightarrow> 'r topology_handle"

definition refuse :: "port_error \<Rightarrow> rust_string \<Rightarrow> ('s, 'a) port_call" where
  "refuse kind message s = (Inl \<lparr>pf_kind = kind, pf_message = message\<rparr>, s)"

definition database_port_error :: "rust_string \<Rightarrow> port_fault" where
  "database_port_error e =
     \<lparr>pf_kind = Unavailable, pf_message = ascii ''command configuration database unavailable: '' @ e\<rparr>"

definition validate_command_topology_fence :: "u64 option \<Rightarrow> u64 option \<Rightarrow> port_fault + unit" where
  "validate_command_topology_fence fence current_sequence =
     (case fence of
        None \<Rightarrow> Inr ()
      | Some f \<Rightarrow>
          (case current_sequence of
             None \<Rightarrow>
               Inl \<lparr>pf_kind = Unavailable,
                    pf_message = ascii ''topology-fenced command cannot verify a runtime generation''\<rparr>
           | Some sequence \<Rightarrow>
               if sequence \<noteq> f then
                 Inl \<lparr>pf_kind = Conflict,
                      pf_message = ascii ''rule command topology changed: expected sequence '' @ show_unsigned f @
                        ascii '', current sequence '' @ show_unsigned sequence\<rparr>
               else Inr ()))"

definition point_address_debug :: "point_address \<Rightarrow> rust_string" where
  "point_address_debug a =
     ascii ''PointAddress { instance_id: InstanceId('' @ show_unsigned (pa_instance a) @
     ascii ''), kind: '' @ point_kind_debug (pa_kind a) @
     ascii '', point_id: PointId('' @ show_unsigned (pa_point a) @ ascii '') }''"

definition timestamp_millis :: "u64 \<Rightarrow> u64" where
  "timestamp_millis t = (if sint t < 0 then 0 else t)"

definition route_label :: "string \<Rightarrow> physical_point_address \<Rightarrow> rust_string" where
  "route_label kind routed =
     ascii kind @ ascii '':'' @ show_unsigned (ppa_channel routed) @ ascii '':'' @ show_unsigned (ppa_point routed)"

definition READ_ONLY_ROUTE :: rust_string where
  "READ_ONLY_ROUTE = ascii ''logical command route resolved to a read-only physical point''"

definition route_constraints ::
    "('r, 's) command_ports \<Rightarrow> physical_point_address \<Rightarrow> ('s, command_constraints) port_call" where
  "route_constraints D routed s =
     (case ppa_kind routed of
        Command \<Rightarrow>
          (case dq_control_point D (ppa_channel routed) (ppa_point routed) s of
             (Inl e, s') \<Rightarrow> (Inl (database_port_error e), s')
           | (Inr None, s') \<Rightarrow>
               refuse Rejected (ascii ''route target '' @ route_label ''C'' routed @
                 ascii '' has no configured command point'') s'
           | (Inr (Some _), s') \<Rightarrow> (Inr command_constraints_unbounded, s'))
      | Action \<Rightarrow>
          (case dq_adjustment_point D (ppa_channel routed) (ppa_point routed) s of
             (Inl e, s') \<Rightarrow> (Inl (database_port_error e), s')
           | (Inr None, s') \<Rightarrow>
               refuse Rejected (ascii ''route target '' @ route_label ''A'' routed @
                 ascii '' has no configured action point'') s'
           | (Inr (Some (lo, hi, st)), s') \<Rightarrow>
               (case command_constraints_new lo hi (Some st) of
                  Inl e \<Rightarrow>
                    refuse Rejected (ascii ''invalid limits for '' @ route_label ''A'' routed @ ascii '': '' @
                      domain_error_display e) s'
                | Inr cs \<Rightarrow> (Inr cs, s')))
      | _ \<Rightarrow> refuse Rejected READ_ONLY_ROUTE s)"

definition require_online ::
    "('r, 's) command_ports \<Rightarrow> 'r automation_generation \<Rightarrow> u32 \<Rightarrow> ('s, unit) port_call" where
  "require_online D g c s =
     (case channel_health (dq_planes D) g c s of
        (Inl e, s') \<Rightarrow> (Inl e, s')
      | (Inr (Some sample), s') \<Rightarrow>
          if cho_online sample then (Inr (), s')
          else refuse Unavailable (ascii ''channel '' @ show_unsigned c @ ascii '' is offline'') s'
      | (Inr None, s') \<Rightarrow>
          refuse Unavailable (ascii ''channel '' @ show_unsigned c @ ascii '' has no health sample'') s')"

text \<open>The last part of \<open>dispatch_inner\<close>, once a writable route has been found.\<close>

definition send_routed ::
    "('r, 's) command_ports \<Rightarrow> 'r automation_generation \<Rightarrow> control_command \<Rightarrow> physical_point_address \<Rightarrow>
      ('s, command_receipt) port_call" where
  "send_routed D g cmd routed =
     try_bind (route_constraints D routed) (\<lambda>constraints s.
       let (now, s') = dq_utc_now D s in
       case control_validate_at cmd (timestamp_millis now) constraints of
         Inl e \<Rightarrow> refuse Rejected (domain_error_display e) s'
       | Inr _ \<Rightarrow>
           try_bind (require_online D g (ppa_channel routed)) (\<lambda>_.
             case channel_command_address_new (ppa_channel routed) (ppa_kind routed) (ppa_point routed) of
               Inl e \<Rightarrow> refuse Rejected (domain_error_display e)
             | Inr physical_target \<Rightarrow>
                 (case physical_command_new (cc_id cmd) physical_target (cc_value cmd) (cc_issued_at cmd)
                         (cc_expires_at cmd) of
                    Inl e \<Rightarrow> refuse Rejected (domain_error_display e)
                  | Inr physical \<Rightarrow> dq_send D physical)) s')"

definition dispatch_inner ::
    "('r, 's) runtime_topology option \<Rightarrow> ('r, 's) command_ports \<Rightarrow> control_command \<Rightarrow> u64 option \<Rightarrow>
      ('s, command_receipt) port_call" where
  "dispatch_inner T D cmd fence s =
     (let logical = cc_target cmd in
      if \<not> is_writable (pa_kind logical) then
        refuse Rejected (ascii ''automation dispatcher accepts only writable instance points'') s
      else case T of
        None \<Rightarrow> refuse Unavailable (ascii ''coherent command topology is not configured'') s
      | Some topology \<Rightarrow>
          let s1 = rt_gate topology s; g = load_generation (rt_handle topology s1) in
          case validate_command_topology_fence fence (Some (ag_sequence g)) of
            Inl e \<Rightarrow> (Inl e, s1)
          | Inr _ \<Rightarrow>
              (case generation_action_route g (pa_instance logical) (pa_point logical) of
                 None \<Rightarrow>
                   refuse Rejected (ascii ''no enabled physical route for logical target '' @
                     point_address_debug logical) s1
               | Some routed \<Rightarrow>
                   if \<not> is_writable (ppa_kind routed) then refuse Rejected READ_ONLY_ROUTE s1
                   else send_routed D g cmd routed s1))"

definition automation_command_dispatcher ::
    "('r, 's) runtime_topology option \<Rightarrow> ('r, 's) command_ports \<Rightarrow> 's command_dispatcher" where
  "automation_command_dispatcher T D =
     \<lparr>dispatch = (\<lambda>c. dispatch_inner T D c None), dispatch_fenced = (\<lambda>c f. dispatch_inner T D c (Some f))\<rparr>"

subsection \<open>The facade of the rule engine\<close>

record 's rule_action_application =
  raa_application :: "'s control_application"
  raa_new_uuid :: "'s \<Rightarrow> command_id \<times> 's"
  raa_uuid_text :: "command_id \<Rightarrow> rust_string"
  raa_utc_now :: "'s \<Rightarrow> u64 \<times> 's"

definition COMMISSIONED_RULE_ACTOR_ID :: rust_string where
  "COMMISSIONED_RULE_ACTOR_ID = ascii ''local:aether-automation-rule-engine''"

definition rule_action_port_error :: "application_error \<Rightarrow> port_fault" where
  "rule_action_port_error e =
     (case e of
        AuditUnavailable f \<Rightarrow> f
      | PortFailure f \<Rightarrow> f
      | InvalidCommand d \<Rightarrow> \<lparr>pf_kind = InvalidData, pf_message = domain_error_display d\<rparr>
      | PermissionDenied _ _ \<Rightarrow> \<lparr>pf_kind = Rejected, pf_message = application_error_display e\<rparr>
      | ConfirmationRequired _ \<Rightarrow> \<lparr>pf_kind = Rejected, pf_message = application_error_display e\<rparr>)"

definition rule_write_action ::
    "'s rule_action_application \<Rightarrow> rule_action_command \<Rightarrow> ('s, command_receipt) port_call" where
  "rule_write_action ra c s =
     (let (request_uuid, s1) = raa_new_uuid ra s;
          (now, s2) = raa_utc_now ra s1;
          rule_actor = with_permission (actor_new COMMISSIONED_RULE_ACTOR_ID) (ascii ''device.control'');
          ctx = \<lparr>rc_request_id = raa_uuid_text ra request_uuid, rc_actor = rule_actor, rc_confirmed = True,
                 rc_timestamp = timestamp_millis now\<rparr>;
          (acceptance, s3) =
            (case rac_topology_fence c of
               Some fence \<Rightarrow>
                 write_point_fenced (raa_application ra) ctx request_uuid (rac_target c) (rac_value c) fence s2
             | None \<Rightarrow> write_point (raa_application ra) ctx request_uuid (rac_target c) (rac_value c) s2)
      in (map_sum rule_action_port_error ao_receipt acceptance, s3))"

subsection \<open>The live state of a rule (rule_live_state.rs)\<close>

definition shm_begin_execution :: "('s \<Rightarrow> 'r topology_handle) \<Rightarrow> 's \<Rightarrow> u64 option \<times> 's" where
  "shm_begin_execution handle s = (Some (ag_sequence (load_generation (handle s))), s)"

definition shm_get_instance_for_execution ::
    "('r, 's) plane_ports \<Rightarrow> ('s \<Rightarrow> 'r topology_handle) \<Rightarrow> u64 option \<Rightarrow> u32 \<Rightarrow> u8 \<Rightarrow> u32 \<Rightarrow> 's \<Rightarrow>
      (f64 \<times> u64) option \<times> 's" where
  "shm_get_instance_for_execution L handle execution i instance_type p s =
     (case execution of
        None \<Rightarrow> (None, s)
      | Some fence \<Rightarrow>
          let generation = load_generation (handle s) in
          if ag_sequence generation \<noteq> fence then (None, s)
          else case read_instance_point L generation i (instance_type \<noteq> 0) p s of
              (Inr r, s') \<Rightarrow> (r, s')
            | (Inl _, s') \<Rightarrow> (None, s'))"

end
