(* ===== verification/Rule_Commands.thy ===== *)
theory Rule_Commands
  imports Command_Dispatch
begin

section \<open>A rule run inside the service\<close>

text \<open>
  The executor, the governed facade, the dispatcher and the topology composed as the service
  composes them, over an environment of type \<open>'e\<close>.  Other tasks run where the code awaits: at
  the command gate and at the audit sink.  There the scheduler, a parameter, may perform any
  operations on the topology.  While a command holds the gate, publication is locked out, and
  the remaining ports only change the environment.  Every interaction that matters is appended
  to a log.
\<close>

subsection \<open>The composed service\<close>

type_synonym ('r, 'e) world = "nat \<times> 'r topology_handle \<times> lease_state \<times> 'e"

datatype 'r service_event =
    AuditEvent audit_record "port_fault + unit"
  | PinEvent "'r automation_generation"
  | ControlPointEvent u32 u32 "rust_string + unit option"
  | AdjustmentPointEvent u32 u32 "rust_string + (f64 option \<times> f64 option \<times> f64) option"
  | ClockEvent u64
  | HealthEvent u32 "port_fault + channel_health_observation option"
  | SendEvent physical_command

type_synonym ('r, 'e) observed = "('r, 'e) world \<times> 'r service_event list"

definition on_world :: "('e \<Rightarrow> 'a \<times> 'e) \<Rightarrow> ('r, 'e) observed \<Rightarrow> 'a \<times> ('r, 'e) observed" where
  "on_world f \<sigma> = (let ((n, h, l, e), evlog) = \<sigma>; (x, e') = f e in (x, ((n, h, l, e'), evlog)))"

definition noted ::
    "('a \<Rightarrow> 'r service_event) \<Rightarrow> ('e \<Rightarrow> 'a \<times> 'e) \<Rightarrow> ('r, 'e) observed \<Rightarrow> 'a \<times> ('r, 'e) observed" where
  "noted ev f \<sigma> = (let (x, (w, evlog)) = on_world f \<sigma> in (x, (w, evlog @ [ev x])))"

definition observed_ports :: "('r, 'e) command_ports \<Rightarrow> ('r, ('r, 'e) observed) command_ports" where
  "observed_ports D =
     \<lparr>dq_planes =
        \<lparr>pl_read_slot = (\<lambda>r i. on_world (pl_read_slot (dq_planes D) r i)),
         pl_read_channel = (\<lambda>r c. noted (HealthEvent c) (pl_read_channel (dq_planes D) r c))\<rparr>,
      dq_control_point = (\<lambda>c p. noted (ControlPointEvent c p) (dq_control_point D c p)),
      dq_adjustment_point = (\<lambda>c p. noted (AdjustmentPointEvent c p) (dq_adjustment_point D c p)),
      dq_utc_now = noted ClockEvent (dq_utc_now D),
      dq_send = (\<lambda>pc. noted (\<lambda>_. SendEvent pc) (dq_send D pc))\<rparr>"

definition observed_handle :: "('r, 'e) observed \<Rightarrow> 'r topology_handle" where
  "observed_handle \<sigma> = fst (snd (fst \<sigma>))"

definition observed_topology ::
    "(('r, 'e) world \<Rightarrow> ('r, 'e) world) \<Rightarrow> ('r, ('r, 'e) observed) runtime_topology" where
  "observed_topology sched =
     \<lparr>rt_gate = (\<lambda>(w, evlog). let w' = sched w in (w', evlog @ [PinEvent (load_generation (fst (snd w')))])),
      rt_handle = observed_handle\<rparr>"

definition observed_audit ::
    "(('r, 'e) world \<Rightarrow> ('r, 'e) world) \<Rightarrow> 'e audit_sink \<Rightarrow> ('r, 'e) observed audit_sink" where
  "observed_audit sched sink r \<sigma> = noted (AuditEvent r) (sink r) (sched (fst \<sigma>), snd \<sigma>)"

record ('r, 'e) service_environment =
  se_commands :: "('r, 'e) command_ports"
  se_audit :: "'e audit_sink"
  se_new_uuid :: "'e \<Rightarrow> command_id \<times> 'e"
  se_uuid_text :: "command_id \<Rightarrow> rust_string"
  se_evaluate_formula :: "rust_string \<Rightarrow> rule_values \<Rightarrow> rust_string + f64"
  se_json_display :: "json \<Rightarrow> rust_string"
  se_calc_evaluate :: "rust_string \<Rightarrow> rust_string \<Rightarrow> rule_values \<Rightarrow> 'e \<Rightarrow> (rust_string + f64) \<times> 'e"
  se_period_delta :: "rust_string \<Rightarrow> rust_string \<Rightarrow> f64 \<Rightarrow> rust_string \<Rightarrow> 'e \<Rightarrow> (rust_string + f64) \<times> 'e"

definition observed_application ::
    "(('r, 'e) world \<Rightarrow> ('r, 'e) world) \<Rightarrow> ('r, 'e) service_environment \<Rightarrow>
      ('r, 'e) observed rule_action_application" where
  "observed_application sched E =
     \<lparr>raa_application =
        \<lparr>ca_dispatcher =
           automation_command_dispatcher (Some (observed_topology sched)) (observed_ports (se_commands E)),
         ca_audit = observed_audit sched (se_audit E)\<rparr>,
      raa_new_uuid = on_world (se_new_uuid E), raa_uuid_text = se_uuid_text E,
      raa_utc_now = on_world (dq_utc_now (se_commands E))\<rparr>"

definition service_executor ::
    "(('r, 'e) world \<Rightarrow> ('r, 'e) world) \<Rightarrow> ('r, 'e) service_environment \<Rightarrow> ('r, 'e) observed rule_executor" where
  "service_executor sched E =
     \<lparr>re_begin_execution = shm_begin_execution observed_handle,
      re_get_instance = shm_get_instance_for_execution (dq_planes (observed_ports (se_commands E))) observed_handle,
      re_action_commands = Some (rule_write_action (observed_application sched E)),
      re_evaluate_formula = se_evaluate_formula E, re_json_display = se_json_display E,
      re_calc_evaluate = (\<lambda>c f vs. on_world (se_calc_evaluate E c f vs)),
      re_period_delta = (\<lambda>c k v p. on_world (se_period_delta E c k v p))\<rparr>"

subsection \<open>What a sent command presupposes\<close>

definition is_send :: "'r service_event \<Rightarrow> bool" where
  "is_send ev = (case ev of SendEvent _ \<Rightarrow> True | _ \<Rightarrow> False)"

definition sent_to :: "physical_command \<Rightarrow> physical_point_address" where
  "sent_to pc =
     \<lparr>ppa_channel = cca_channel (pc_target pc), ppa_kind = cca_kind (pc_target pc),
      ppa_point = cca_point (pc_target pc)\<rparr>"

text \<open>The configuration row that was read permits the value.\<close>

definition row_permits :: "'r service_event \<Rightarrow> physical_command \<Rightarrow> bool" where
  "row_permits q pc =
     (case q of
        ControlPointEvent c p (Inr (Some _)) \<Rightarrow>
          sent_to pc = \<lparr>ppa_channel = c, ppa_kind = Command, ppa_point = p\<rparr>
      | AdjustmentPointEvent c p (Inr (Some (lo, hi, st))) \<Rightarrow>
          sent_to pc = \<lparr>ppa_channel = c, ppa_kind = Action, ppa_point = p\<rparr> \<and>
          (\<forall>a. lo = Some a \<longrightarrow> f64_le a (pc_value pc)) \<and> (\<forall>b. hi = Some b \<longrightarrow> f64_le (pc_value pc) b) \<and>
          (let offset = f64_sub (pc_value pc) (case lo of Some a \<Rightarrow> a | None \<Rightarrow> 0)
           in \<not> f64_lt (step_tolerance offset st) (step_distance offset st))
      | _ \<Rightarrow> False)"

text \<open>
  The observations that lead to a send, in order: a generation out of \<open>A\<close> is pinned, the
  configuration row, the clock and the health of the channel are read.
\<close>

definition admitted ::
    "'r automation_generation set \<Rightarrow> u64 option \<Rightarrow> u32 \<Rightarrow> u32 \<Rightarrow> 'r service_event list \<Rightarrow> physical_command \<Rightarrow> bool" where
  "admitted A fence i p evs pc \<longleftrightarrow>
     (\<exists>g q now sample.
        evs = [PinEvent g, q, ClockEvent now, HealthEvent (cca_channel (pc_target pc)) (Inr (Some sample))] \<and>
        g \<in> A \<and> (\<forall>f. fence = Some f \<longrightarrow> ag_sequence g = f) \<and> generation_action_route g i p = Some (sent_to pc) \<and>
        row_permits q pc \<and> f64_is_finite (pc_value pc) \<and> timestamp_millis now < pc_expires_at pc \<and>
        cho_online sample)"

text \<open>The audit record that names the command, its logical target and its value.\<close>

definition announces_command :: "u64 option \<Rightarrow> point_address \<Rightarrow> physical_command \<Rightarrow> audit_record \<Rightarrow> bool" where
  "announces_command fence target pc r \<longleftrightarrow>
     ar_actor_id r = COMMISSIONED_RULE_ACTOR_ID \<and> ar_outcome r = AuditAttempted \<and>
     ar_detail r = Some (control_detail (pc_id pc) target (pc_value pc) fence None)"

text \<open>A log in which every send is announced by a recorded attempt and admitted.\<close>

inductive lawful_log ::
    "'r automation_generation set \<Rightarrow> u64 option \<Rightarrow> 'r service_event list \<Rightarrow> bool"
  for A fence where
  Empty: "lawful_log A fence []"
| Quiet: "lawful_log A fence evlog \<Longrightarrow> \<not> is_send ev \<Longrightarrow> lawful_log A fence (evlog @ [ev])"
| Sent:
    "lawful_log A fence evlog \<Longrightarrow> announces_command fence target pc r \<Longrightarrow>
       admitted A fence (pa_instance target) (pa_point target) evs pc \<Longrightarrow>
       lawful_log A fence (evlog @ AuditEvent r (Inr ()) # evs @ [SendEvent pc])"

lemma lawful_quiet: "lawful_log A fence evlog \<Longrightarrow> list_all (\<lambda>ev. \<not> is_send ev) evs \<Longrightarrow> lawful_log A fence (evlog @ evs)"
proof (induction evs arbitrary: evlog)
  case (Cons ev evs)
  then show ?case using Cons.IH [OF lawful_log.Quiet [OF Cons.prems(1)]] by simp
qed simp

lemma lawful_send:
  assumes "lawful_log A fence evlog" and "evlog = pre @ SendEvent pc # post"
  shows "\<exists>pre' r target evs. pre = pre' @ AuditEvent r (Inr ()) # evs \<and> announces_command fence target pc r \<and>
    admitted A fence (pa_instance target) (pa_point target) evs pc"
  using assms
proof (induction arbitrary: post rule: lawful_log.induct)
  case (Quiet evlog ev)
  then show ?case by (cases post rule: rev_cases) (auto simp: is_send_def)
next
  case (Sent evlog target pc' r evs)
  have quiet: "SendEvent x \<notin> set evs" for x
    using Sent.hyps(3) by (auto simp: admitted_def row_permits_def)
  show ?case
  proof (cases post rule: rev_cases)
    case Nil
    then have "pre = evlog @ AuditEvent r (Inr ()) # evs" "pc' = pc" using Sent.prems by simp_all
    then show ?thesis using Sent.hyps by blast
  next
    case (snoc post' x)
    then have "evlog @ AuditEvent r (Inr ()) # evs = pre @ SendEvent pc # post'" using Sent.prems by simp
    then obtain us where
      "evlog = pre @ us \<and> us @ AuditEvent r (Inr ()) # evs = SendEvent pc # post' \<or>
       evlog @ us = pre \<and> AuditEvent r (Inr ()) # evs = us @ SendEvent pc # post'"
      by (auto simp: append_eq_append_conv2)
    moreover have "\<not> (AuditEvent r (Inr ()) # evs = us @ SendEvent pc # post')"
      using quiet [of pc] by (auto simp: Cons_eq_append_conv)
    moreover have "\<exists>p'. evlog = pre @ SendEvent pc # p'"
      if "evlog = pre @ us" "us @ AuditEvent r (Inr ()) # evs = SendEvent pc # post'"
      using that by (cases us) auto
    ultimately show ?thesis using Sent.IH by blast
  qed
qed simp

subsection \<open>The blocks of the log\<close>

definition topo :: "('r, 'e) observed \<Rightarrow> nat \<times> 'r topology_handle \<times> lease_state" where
  "topo \<sigma> = (case fst \<sigma> of (n, h, l, e) \<Rightarrow> (n, h, l))"

abbreviation silent :: "'r service_event list \<Rightarrow> bool" where
  "silent \<equiv> list_all (\<lambda>ev. \<not> is_send ev)"

lemma on_world_log: "on_world f \<sigma> = (x, \<sigma>') \<Longrightarrow> snd \<sigma>' = snd \<sigma> \<and> topo \<sigma>' = topo \<sigma>"
  by (auto simp: on_world_def topo_def split: prod.splits)

lemma noted_log: "noted ev f \<sigma> = (x, \<sigma>') \<Longrightarrow> snd \<sigma>' = snd \<sigma> @ [ev x] \<and> topo \<sigma>' = topo \<sigma>"
  by (auto simp: noted_def on_world_def topo_def split: prod.splits)

lemma is_send_simps [simp]:
  "\<not> is_send (AuditEvent r x)" "\<not> is_send (PinEvent g)" "\<not> is_send (ControlPointEvent c p y)"
  "\<not> is_send (AdjustmentPointEvent c p z)" "\<not> is_send (ClockEvent n)" "\<not> is_send (HealthEvent c o')"
  "is_send (SendEvent pc)"
  by (simp_all add: is_send_def)

lemma route_constraints_log:
  assumes run: "route_constraints (observed_ports D) routed \<sigma> = (res, \<sigma>')" and w: "is_writable (ppa_kind routed)"
  shows "topo \<sigma>' = topo \<sigma> \<and>
    (\<exists>q. snd \<sigma>' = snd \<sigma> @ [q] \<and> \<not> is_send q \<and>
      (\<forall>cs pc. res = Inr cs \<longrightarrow> sent_to pc = routed \<longrightarrow> validate_value cs (pc_value pc) = Inr () \<longrightarrow> row_permits q pc))"
proof (cases "ppa_kind routed")
  case Command
  obtain x \<sigma>1 where x: "noted (ControlPointEvent (ppa_channel routed) (ppa_point routed))
      (dq_control_point D (ppa_channel routed) (ppa_point routed)) \<sigma> = (x, \<sigma>1)"
    by (cases "noted (ControlPointEvent (ppa_channel routed) (ppa_point routed))
      (dq_control_point D (ppa_channel routed) (ppa_point routed)) \<sigma>")
  have "\<sigma>' = \<sigma>1" "res = Inr cs \<Longrightarrow> x = Inr (Some ())" for cs
    using run Command by (auto simp: route_constraints_def observed_ports_def x refuse_def split: sum.splits option.splits)
  then show ?thesis using noted_log [OF x] Command by (auto simp: row_permits_def)
next
  case Action
  obtain x \<sigma>1 where x: "noted (AdjustmentPointEvent (ppa_channel routed) (ppa_point routed))
      (dq_adjustment_point D (ppa_channel routed) (ppa_point routed)) \<sigma> = (x, \<sigma>1)"
    by (cases "noted (AdjustmentPointEvent (ppa_channel routed) (ppa_point routed))
      (dq_adjustment_point D (ppa_channel routed) (ppa_point routed)) \<sigma>")
  have "\<sigma>' = \<sigma>1" "res = Inr cs \<Longrightarrow> \<exists>lo hi st. x = Inr (Some (lo, hi, st)) \<and> command_constraints_new lo hi (Some st) = Inr cs"
    for cs
    using run Action by (auto simp: route_constraints_def observed_ports_def x refuse_def split: sum.splits option.splits)
  then show ?thesis
    using noted_log [OF x] Action accepted_value_in_range by (fastforce simp: row_permits_def Let_def)
qed (use w in \<open>simp_all add: is_writable_def\<close>)

lemma require_online_log:
  assumes "require_online (observed_ports D) g c \<sigma> = (res, \<sigma>')"
  shows "topo \<sigma>' = topo \<sigma> \<and>
    (\<exists>x. snd \<sigma>' = snd \<sigma> @ [HealthEvent c x] \<and> (res = Inr () \<longrightarrow> (\<exists>sample. x = Inr (Some sample) \<and> cho_online sample)))"
proof -
  obtain x \<sigma>1 where x: "noted (HealthEvent c) (pl_read_channel (dq_planes D) (rg_planes (ag_read g)) c) \<sigma> = (x, \<sigma>1)"
    by (cases "noted (HealthEvent c) (pl_read_channel (dq_planes D) (rg_planes (ag_read g)) c) \<sigma>")
  have "\<sigma>' = \<sigma>1" "res = Inr () \<Longrightarrow> \<exists>sample. x = Inr (Some sample) \<and> cho_online sample"
    using assms by (auto simp: require_online_def channel_health_def observed_ports_def x refuse_def
        split: sum.splits option.splits if_splits)
  then show ?thesis using noted_log [OF x] by auto
qed

text \<open>The last three steps of a dispatch, from the health check on.\<close>

lemma checked_send_log:
  fixes D :: "('r, 'e) command_ports"
  defines "DD \<equiv> observed_ports D"
  assumes run: "try_bind (require_online DD g (ppa_channel routed)) (\<lambda>_.
      case channel_command_address_new (ppa_channel routed) (ppa_kind routed) (ppa_point routed) of
        Inl e \<Rightarrow> refuse Rejected (domain_error_display e)
      | Inr t \<Rightarrow>
          (case physical_command_new (cc_id cmd) t (cc_value cmd) (cc_issued_at cmd) (cc_expires_at cmd) of
             Inl e \<Rightarrow> refuse Rejected (domain_error_display e) | Inr pc \<Rightarrow> dq_send DD pc)) \<sigma> = (res, \<sigma>')"
    and w: "is_writable (ppa_kind routed)"
  shows "topo \<sigma>' = topo \<sigma> \<and>
    ((\<exists>x. snd \<sigma>' = snd \<sigma> @ [HealthEvent (ppa_channel routed) x]) \<or>
     (\<exists>sample pc. snd \<sigma>' = snd \<sigma> @ [HealthEvent (ppa_channel routed) (Inr (Some sample)), SendEvent pc] \<and>
        cho_online sample \<and> sent_to pc = routed \<and> pc_id pc = cc_id cmd \<and> pc_value pc = cc_value cmd \<and>
        pc_expires_at pc = cc_expires_at cmd \<and> f64_is_finite (pc_value pc)))"
proof -
  obtain on \<sigma>1 where o: "require_online DD g (ppa_channel routed) \<sigma> = (on, \<sigma>1)"
    by (cases "require_online DD g (ppa_channel routed) \<sigma>")
  from require_online_log [OF o [unfolded DD_def]] obtain x where
    l: "snd \<sigma>1 = snd \<sigma> @ [HealthEvent (ppa_channel routed) x]" "topo \<sigma>1 = topo \<sigma>"
      "on = Inr () \<Longrightarrow> \<exists>sample. x = Inr (Some sample) \<and> cho_online sample" by auto
  let ?t = "\<lparr>cca_channel = ppa_channel routed, cca_kind = ppa_kind routed, cca_point = ppa_point routed\<rparr>"
  let ?pc = "physical_command_new (cc_id cmd) ?t (cc_value cmd) (cc_issued_at cmd) (cc_expires_at cmd)"
  have t: "channel_command_address_new (ppa_channel routed) (ppa_kind routed) (ppa_point routed) = Inr ?t"
    using w by (simp add: channel_command_address_new_def)
  show ?thesis
  proof (cases "isl on \<or> isl ?pc")
    case True
    then have "\<sigma>' = \<sigma>1"
      using run by (auto simp: try_bind_def o t refuse_def split: sum.splits)
    then show ?thesis using l by auto
  next
    case False
    then obtain pc where ok: "on = Inr ()" and pc: "?pc = Inr pc" by (cases on; cases ?pc) auto
    have pc': "sent_to pc = routed" "pc_id pc = cc_id cmd" "pc_value pc = cc_value cmd" "pc_expires_at pc = cc_expires_at cmd"
      "f64_is_finite (pc_value pc)"
      using pc by (auto simp: physical_command_new_def sent_to_def split: if_splits)
    have "noted (\<lambda>_. SendEvent pc) (dq_send D pc) \<sigma>1 = (res, \<sigma>')"
      using run by (simp add: try_bind_def o t ok pc) (simp add: DD_def observed_ports_def)
    from noted_log [OF this] l(1,2) l(3) [OF ok] pc' show ?thesis by auto
  qed
qed

lemma send_routed_log:
  assumes run: "send_routed (observed_ports D) g cmd routed \<sigma> = (res, \<sigma>')" and w: "is_writable (ppa_kind routed)"
    and fence: "\<forall>f. fence = Some f \<longrightarrow> ag_sequence g = f" and route: "generation_action_route g i p = Some routed"
    and g: "g \<in> A"
  shows "topo \<sigma>' = topo \<sigma> \<and>
    (\<exists>evs. snd \<sigma>' = snd \<sigma> @ evs \<and>
      (silent evs \<or>
       (\<exists>rest pc. evs = rest @ [SendEvent pc] \<and> pc_id pc = cc_id cmd \<and> pc_value pc = cc_value cmd \<and>
          admitted A fence i p (PinEvent g # rest) pc)))"
proof -
  let ?D = "observed_ports D"
  obtain cs1 \<sigma>1 where c: "route_constraints ?D routed \<sigma> = (cs1, \<sigma>1)" by (cases "route_constraints ?D routed \<sigma>")
  from route_constraints_log [OF c w] obtain q where
    q: "topo \<sigma>1 = topo \<sigma>" "snd \<sigma>1 = snd \<sigma> @ [q]" "\<not> is_send q"
      "\<And>cs pc. cs1 = Inr cs \<Longrightarrow> sent_to pc = routed \<Longrightarrow> validate_value cs (pc_value pc) = Inr () \<Longrightarrow> row_permits q pc"
    by blast
  obtain now \<sigma>2 where n: "noted ClockEvent (dq_utc_now D) \<sigma>1 = (now, \<sigma>2)"
    by (cases "noted ClockEvent (dq_utc_now D) \<sigma>1")
  have n': "dq_utc_now ?D \<sigma>1 = (now, \<sigma>2)" using n by (simp add: observed_ports_def)
  have l2: "snd \<sigma>2 = snd \<sigma> @ [q, ClockEvent now]" "topo \<sigma>2 = topo \<sigma>" using noted_log [OF n] q by simp_all
  show ?thesis
  proof (cases "\<exists>cs. cs1 = Inr cs \<and> control_validate_at cmd (timestamp_millis now) cs = Inr ()")
    case False
    then have "\<sigma>' = \<sigma>1 \<or> \<sigma>' = \<sigma>2"
      using run by (auto simp: send_routed_def try_bind_def c n' refuse_def split: sum.splits)
    then have "(\<exists>evs\<in>{[q], [q, ClockEvent now]}. snd \<sigma>' = snd \<sigma> @ evs) \<and> topo \<sigma>' = topo \<sigma>" using q l2 by auto
    then show ?thesis using q(3) by fastforce
  next
    case True
    then obtain cs where cs: "cs1 = Inr cs" and valid: "control_validate_at cmd (timestamp_millis now) cs = Inr ()"
      by blast
    have v: "timestamp_millis now < cc_expires_at cmd" "validate_value cs (cc_value cmd) = Inr ()"
      using valid by (auto simp: control_validate_at_def split: if_splits)
    note tail = checked_send_log [OF _ w]
    from tail [of D g cmd \<sigma>2 res \<sigma>'] run consider
      (no) x where "topo \<sigma>' = topo \<sigma>" "snd \<sigma>' = snd \<sigma> @ [q, ClockEvent now, HealthEvent (ppa_channel routed) x]"
    | (yes) sample pc where "topo \<sigma>' = topo \<sigma>"
        "snd \<sigma>' = snd \<sigma> @ [q, ClockEvent now, HealthEvent (ppa_channel routed) (Inr (Some sample))] @ [SendEvent pc]"
        "cho_online sample" "sent_to pc = routed" "pc_id pc = cc_id cmd" "pc_value pc = cc_value cmd"
        "pc_expires_at pc = cc_expires_at cmd" "f64_is_finite (pc_value pc)"
      by (auto simp: send_routed_def try_bind_def [of "route_constraints ?D routed"] c cs n' valid l2)
    then show ?thesis
    proof cases
      case no
      then show ?thesis
        using q(3) by (auto intro!: exI [of _ "[q, ClockEvent now, HealthEvent (ppa_channel routed) x]"])
    next
      case yes
      have "admitted A fence i p (PinEvent g # [q, ClockEvent now, HealthEvent (ppa_channel routed) (Inr (Some sample))]) pc"
        using q(4) [OF cs yes(4)] fence route g v yes by (auto simp: admitted_def sent_to_def)
      then show ?thesis using yes(1,2,5,6) by blast
    qed
  qed
qed

lemma admitted_mono: "admitted A fence i p evs pc \<Longrightarrow> A \<subseteq> B \<Longrightarrow> admitted B fence i p evs pc"
  by (fastforce simp: admitted_def)

lemma lawful_mono: "lawful_log A fence evlog \<Longrightarrow> A \<subseteq> B \<Longrightarrow> lawful_log B fence evlog"
  by (induction rule: lawful_log.induct) (auto intro: lawful_log.intros admitted_mono)

subsection \<open>The invariant of a run\<close>

definition service_ok ::
    "'h fx_hasher \<Rightarrow> ('r, 'e) topology_ports \<Rightarrow> u64 option \<Rightarrow> 'r automation_generation \<Rightarrow> ('r, 'e) observed \<Rightarrow> bool" where
  "service_ok H P fence g0 \<sigma> \<longleftrightarrow>
     topology_run H P (fst (fst \<sigma>)) (snd (fst \<sigma>)) \<and>
     (fst (fst \<sigma>) < 2 ^ 63 \<longrightarrow> g0 \<in> set (th_arena (observed_handle \<sigma>)) \<and>
        lawful_log (set (th_arena (observed_handle \<sigma>))) fence (snd \<sigma>))"

lemma topo_eq:
  assumes "topo \<sigma>' = topo \<sigma>"
  obtains n h l e e' where "fst \<sigma> = (n, h, l, e)" "fst \<sigma>' = (n, h, l, e')"
  using assms by (cases "fst \<sigma>"; cases "fst \<sigma>'") (auto simp: topo_def)

lemma ok_extend:
  assumes "service_ok H P fence g0 \<sigma>" and "topo \<sigma>' = topo \<sigma>"
    and "\<And>A. A = set (th_arena (observed_handle \<sigma>)) \<Longrightarrow> fst (fst \<sigma>) < 2 ^ 63 \<Longrightarrow>
      lawful_log A fence (snd \<sigma>) \<Longrightarrow> lawful_log A fence (snd \<sigma>')"
  shows "service_ok H P fence g0 \<sigma>'"
  using assms(2)
proof (rule topo_eq)
  fix n h l e e'
  assume "fst \<sigma> = (n, h, l, e)" "fst \<sigma>' = (n, h, l, e')"
  then show ?thesis
    using assms(1,3) by (auto simp: service_ok_def observed_handle_def intro: topology_run.Idle)
qed

lemma ok_quiet:
  assumes "service_ok H P fence g0 \<sigma>" and "topo \<sigma>' = topo \<sigma>" and "snd \<sigma>' = snd \<sigma> @ evs" and "silent evs"
  shows "service_ok H P fence g0 \<sigma>'"
  using assms(1,2) by (rule ok_extend) (simp add: assms(3,4) lawful_quiet)

lemma ok_on_world: "service_ok H P fence g0 \<sigma> \<Longrightarrow> service_ok H P fence g0 (snd (on_world f \<sigma>))"
  using on_world_log [of f \<sigma>] ok_quiet [of H P fence g0 \<sigma> _ "[]"] by (cases "on_world f \<sigma>") auto

lemma moves_count: "topology_moves H P w w' \<Longrightarrow> fst w \<le> fst w'"
  by (induction rule: topology_moves.induct) auto

lemma ok_moves:
  assumes "service_ok H P fence g0 (w, evlog)" and "topology_moves H P w w'"
  shows "service_ok H P fence g0 (w', evlog)"
proof -
  obtain ext where "th_arena (fst (snd w')) = th_arena (fst (snd w)) @ ext" using moves_extend [OF assms(2)] by blast
  then show ?thesis
    using assms(1) moves_run [OF assms(2)] moves_count [OF assms(2)]
    by (auto simp: service_ok_def observed_handle_def intro: lawful_mono)
qed

lemma audit_log:
  assumes "observed_audit sched sink r \<sigma> = (x, \<sigma>')"
  shows "snd \<sigma>' = snd \<sigma> @ [AuditEvent r x] \<and> topo \<sigma>' = topo (sched (fst \<sigma>), snd \<sigma>)"
  using noted_log [OF assms [unfolded observed_audit_def]] by simp

lemma ok_audit:
  assumes "service_ok H P fence g0 \<sigma>" and "\<And>w. topology_moves H P w (sched w)"
    and "observed_audit sched sink r \<sigma> = (x, \<sigma>')"
  shows "service_ok H P fence g0 \<sigma>'"
proof -
  have "service_ok H P fence g0 (sched (fst \<sigma>), snd \<sigma>)" using ok_moves [OF _ assms(2)] assms(1) by (cases \<sigma>) auto
  then show ?thesis using audit_log [OF assms(3)] by (auto intro: ok_quiet [of _ _ _ _ _ _ "[AuditEvent r x]"])
qed

lemma dispatch_log:
  assumes run: "dispatch_inner (Some (observed_topology sched)) (observed_ports D) cmd fence (w, evlog) = (res, \<sigma>')"
    and wr: "is_writable (pa_kind (cc_target cmd))"
  shows "topo \<sigma>' = topo (sched w, evlog) \<and>
    (\<exists>evs. snd \<sigma>' = evlog @ evs \<and>
      (silent evs \<or>
       (\<exists>rest pc. evs = rest @ [SendEvent pc] \<and> pc_id pc = cc_id cmd \<and> pc_value pc = cc_value cmd \<and>
          admitted {load_generation (fst (snd (sched w)))} fence (pa_instance (cc_target cmd))
            (pa_point (cc_target cmd)) rest pc)))"
proof -
  let ?g = "load_generation (fst (snd (sched w)))" and ?t = "cc_target cmd"
  let ?\<sigma>1 = "(sched w, evlog @ [PinEvent ?g])"
  have gate: "rt_gate (observed_topology sched) (w, evlog) = ?\<sigma>1" "rt_handle (observed_topology sched) = observed_handle"
    by (simp_all add: observed_topology_def Let_def)
  have t1: "topo ?\<sigma>1 = topo (sched w, evlog)" by (simp add: topo_def)
  have eq: "dispatch_inner (Some (observed_topology sched)) (observed_ports D) cmd fence (w, evlog) =
      (case validate_command_topology_fence fence (Some (ag_sequence ?g)) of
         Inl e \<Rightarrow> (Inl e, ?\<sigma>1)
       | Inr _ \<Rightarrow>
           (case generation_action_route ?g (pa_instance ?t) (pa_point ?t) of
              None \<Rightarrow> refuse Rejected (ascii ''no enabled physical route for logical target '' @
                point_address_debug ?t) ?\<sigma>1
            | Some routed \<Rightarrow>
                if \<not> is_writable (ppa_kind routed) then refuse Rejected READ_ONLY_ROUTE ?\<sigma>1
                else send_routed (observed_ports D) ?g cmd routed ?\<sigma>1))"
    unfolding dispatch_inner_def gate observed_handle_def Let_def option.case fst_conv using wr by simp
  show ?thesis
  proof (cases "\<exists>routed. validate_command_topology_fence fence (Some (ag_sequence ?g)) = Inr () \<and>
      generation_action_route ?g (pa_instance ?t) (pa_point ?t) = Some routed \<and> is_writable (ppa_kind routed)")
    case False
    then have "\<sigma>' = ?\<sigma>1"
      using run unfolding eq
      by (cases "validate_command_topology_fence fence (Some (ag_sequence ?g))";
          cases "generation_action_route ?g (pa_instance ?t) (pa_point ?t)") (auto simp: refuse_def)
    then show ?thesis using t1 by (auto intro!: exI [of _ "[PinEvent ?g]"])
  next
    case True
    then obtain routed where f: "validate_command_topology_fence fence (Some (ag_sequence ?g)) = Inr ()"
      and r: "generation_action_route ?g (pa_instance ?t) (pa_point ?t) = Some routed" "is_writable (ppa_kind routed)" by blast
    have fence: "\<forall>x. fence = Some x \<longrightarrow> ag_sequence ?g = x"
      using f by (auto simp: validate_command_topology_fence_def split: if_splits)
    have "send_routed (observed_ports D) ?g cmd routed ?\<sigma>1 = (res, \<sigma>')"
      using run unfolding eq by (simp add: f r)
    from send_routed_log [OF this r(2) fence r(1), of "{?g}"] obtain evs where
      "topo \<sigma>' = topo ?\<sigma>1" "snd \<sigma>' = evlog @ PinEvent ?g # evs"
      "silent evs \<or> (\<exists>rest pc. evs = rest @ [SendEvent pc] \<and> pc_id pc = cc_id cmd \<and> pc_value pc = cc_value cmd \<and>
         admitted {?g} fence (pa_instance ?t) (pa_point ?t) (PinEvent ?g # rest) pc)" by auto
    then show ?thesis
      using t1 by (intro conjI exI [of _ "PinEvent ?g # evs"]) (simp_all, metis append_Cons)
  qed
qed

lemma attempt_dispatch_ok:
  assumes d: "digest_identifies H P" and ok: "service_ok H P fence g0 \<sigma>"
    and sched: "\<And>w. topology_moves H P w (sched w)"
    and audit: "observed_audit sched sink r \<sigma> = (Inr (), \<sigma>1)"
    and rec: "ar_actor_id r = COMMISSIONED_RULE_ACTOR_ID" "ar_outcome r = AuditAttempted"
      "ar_detail r = Some (control_detail (cc_id cmd) (cc_target cmd) (cc_value cmd) fence None)"
    and run: "dispatch_inner (Some (observed_topology sched)) (observed_ports D) cmd fence \<sigma>1 = (res, \<sigma>2)"
    and wr: "is_writable (pa_kind (cc_target cmd))"
  shows "service_ok H P fence g0 \<sigma>2"
proof -
  have w0: "service_ok H P fence g0 (sched (fst \<sigma>), snd \<sigma>)" using ok_moves [OF _ sched] ok by (cases \<sigma>) auto
  obtain w1 where s1: "\<sigma>1 = (w1, snd \<sigma> @ [AuditEvent r (Inr ())])" and t1: "topo (w1, snd \<sigma>) = topo (sched (fst \<sigma>), snd \<sigma>)"
    using audit_log [OF audit] by (cases \<sigma>1) (auto simp: topo_def)
  have "service_ok H P fence g0 (w1, snd \<sigma>)" using w0 t1 by (rule ok_extend) simp
  then have w2: "service_ok H P fence g0 (sched w1, snd \<sigma>)" by (rule ok_moves) (rule sched)
  from dispatch_log [OF run [unfolded s1] wr] obtain evs where
    t: "topo \<sigma>2 = topo (sched w1, snd \<sigma> @ [AuditEvent r (Inr ())])"
      "snd \<sigma>2 = (snd \<sigma> @ [AuditEvent r (Inr ())]) @ evs"
    and evs: "silent evs \<or> (\<exists>rest pc. evs = rest @ [SendEvent pc] \<and> pc_id pc = cc_id cmd \<and> pc_value pc = cc_value cmd \<and>
      admitted {load_generation (fst (snd (sched w1)))} fence (pa_instance (cc_target cmd))
        (pa_point (cc_target cmd)) rest pc)"
    by blast
  have t2: "topo \<sigma>2 = topo (sched w1, snd \<sigma>)" and l2: "snd \<sigma>2 = snd \<sigma> @ AuditEvent r (Inr ()) # evs"
    using t by (simp_all add: topo_def)
  from w2 t2 show ?thesis
  proof (rule ok_extend)
    fix A
    assume A: "A = set (th_arena (observed_handle (sched w1, snd \<sigma>)))" "fst (fst (sched w1, snd \<sigma>)) < 2 ^ 63"
      and lawful: "lawful_log A fence (snd (sched w1, snd \<sigma>))"
    have "topology_run H P (fst (sched w1)) (snd (sched w1))" using w2 by (simp add: service_ok_def)
    from run_ok [OF d this] have "arena_ok H P (fst (snd (sched w1)))" using A(2) by simp
    then have "{load_generation (fst (snd (sched w1)))} \<subseteq> A"
      using load_in_arena by (auto simp: A(1) observed_handle_def)
    then have sent: "lawful_log A fence (snd \<sigma> @ AuditEvent r (Inr ()) # rest @ [SendEvent pc])"
      if "admitted {load_generation (fst (snd (sched w1)))} fence (pa_instance (cc_target cmd))
        (pa_point (cc_target cmd)) rest pc" "pc_id pc = cc_id cmd" "pc_value pc = cc_value cmd" for rest pc
      using lawful that rec by (intro lawful_log.Sent [of _ _ _ "cc_target cmd"])
        (auto simp: announces_command_def dest: admitted_mono)
    from evs show "lawful_log A fence (snd \<sigma>2)"
      unfolding l2
    proof (elim disjE exE conjE)
      assume "silent evs"
      then show "lawful_log A fence (snd \<sigma> @ AuditEvent r (Inr ()) # evs)" using lawful by (intro lawful_quiet) auto
    qed (simp add: sent)
  qed
qed

lemma dispatch_command_inner:
  "dispatch_command (automation_command_dispatcher T D) (cmd, fence) = dispatch_inner T D cmd fence"
  by (cases fence) (simp_all add: dispatch_command_def automation_command_dispatcher_def)

lemma governed_ok:
  fixes D sink sched
  defines "audit \<equiv> observed_audit sched sink"
    and "exec \<equiv> dispatch_command (automation_command_dispatcher (Some (observed_topology sched)) (observed_ports D))"
  assumes d: "digest_identifies H P" and sched: "\<And>w. topology_moves H P w (sched w)"
    and ok: "service_ok H P fence g0 \<sigma>"
    and rec: "ar_actor_id (ae_attempted A) = COMMISSIONED_RULE_ACTOR_ID" "ar_outcome (ae_attempted A) = AuditAttempted"
    and dec: "\<And>cmd f. decision = Inr (cmd, f) \<Longrightarrow> f = fence \<and> is_writable (pa_kind (cc_target cmd)) \<and>
      ar_detail (ae_attempted A) = Some (control_detail (cc_id cmd) (cc_target cmd) (cc_value cmd) fence None)"
  shows "service_ok H P fence g0 (snd (governed_run audit exec A q decision \<sigma>))"
proof -
  note audit_ok = ok_audit [OF _ sched, of fence g0]
  have last: "service_ok H P fence g0 (snd (conclude audit A q result \<sigma>1))" if "service_ok H P fence g0 \<sigma>1" for result \<sigma>1
    using audit_ok [OF that] by (cases result) (auto simp: conclude_def audit_def split: prod.split sum.split)
  show ?thesis
  proof (cases decision)
    case (Inl e)
    then show ?thesis
      using audit_ok [OF ok] by (auto simp: governed_run_def audit_def split: prod.split sum.split)
  next
    case (Inr cf)
    obtain cmd f where cf: "cf = (cmd, f)" by (cases cf)
    note wr = dec [OF Inr [unfolded cf]]
    obtain x \<sigma>1 where a: "audit (ae_attempted A) \<sigma> = (x, \<sigma>1)" by (cases "audit (ae_attempted A) \<sigma>")
    obtain res \<sigma>2 where e: "exec cf \<sigma>1 = (res, \<sigma>2)" by (cases "exec cf \<sigma>1")
    show ?thesis
    proof (cases x)
      case (Inl fault)
      then show ?thesis
        using audit_ok [OF ok a [unfolded audit_def]] Inr a by (simp add: governed_run_def)
    next
      case ok': (Inr u)
      have "service_ok H P fence g0 \<sigma>2"
        using a ok' e wr
        by (intro attempt_dispatch_ok [OF d ok sched _ rec]) (auto simp: audit_def exec_def cf dispatch_command_inner)
      then show ?thesis using last Inr a ok' e by (simp add: governed_run_def)
    qed
  qed
qed

lemma write_action_ok:
  assumes d: "digest_identifies H P" and sched: "\<And>w. topology_moves H P w (sched w)"
    and ok: "service_ok H P fence g0 \<sigma>" and c: "rac_topology_fence c = fence"
  shows "service_ok H P fence g0 (snd (rule_write_action (observed_application sched E) c \<sigma>))"
proof -
  let ?ra = "observed_application sched E"
  obtain u \<sigma>1 where u: "raa_new_uuid ?ra \<sigma> = (u, \<sigma>1)" by (cases "raa_new_uuid ?ra \<sigma>")
  obtain t \<sigma>2 where t: "raa_utc_now ?ra \<sigma>1 = (t, \<sigma>2)" by (cases "raa_utc_now ?ra \<sigma>1")
  have "service_ok H P fence g0 \<sigma>1" using ok_on_world [OF ok, of "se_new_uuid E"] u by (simp add: observed_application_def)
  then have ok2: "service_ok H P fence g0 \<sigma>2"
    using ok_on_world [of H P fence g0 \<sigma>1 "dq_utc_now (se_commands E)"] t by (simp add: observed_application_def)
  let ?ctx = "\<lparr>rc_request_id = raa_uuid_text ?ra u,
    rc_actor = with_permission (actor_new COMMISSIONED_RULE_ACTOR_ID) (ascii ''device.control''),
    rc_confirmed = True, rc_timestamp = timestamp_millis t\<rparr>"
  have run: "snd (rule_write_action ?ra c \<sigma>) =
      snd (write_point_inner (raa_application ?ra) ?ctx u (rac_target c) (rac_value c) fence \<sigma>2)"
    unfolding rule_write_action_def u t c Let_def prod.case
    by (cases fence) (simp_all add: write_point_fenced_def write_point_def split: prod.split)
  show ?thesis
    unfolding run write_point_inner_governed
    unfolding observed_application_def rule_action_application.select_convs control_application.select_convs
    by (rule governed_ok [OF d sched ok2])
      (auto simp: control_entries_def audit_entry_def with_permission_def actor_new_def control_decide_ok
        control_command_new_Inr)
qed

lemma read_point_topo:
  assumes "read_instance_point (dq_planes (observed_ports D)) g i a p \<sigma> = (x, \<sigma>')"
  shows "snd \<sigma>' = snd \<sigma> \<and> topo \<sigma>' = topo \<sigma>"
proof (cases "case (if a then generation_action_route g i p else generation_measurement_route g i p) of
    None \<Rightarrow> None | Some target \<Rightarrow> slot_for (rg_point_manifest (ag_read g)) target")
  case None
  then show ?thesis using assms by (auto simp: read_instance_point_def split: option.splits if_splits)
next
  case (Some slot)
  obtain y \<sigma>1 where y: "on_world (pl_read_slot (dq_planes D) (rg_planes (ag_read g)) slot) \<sigma> = (y, \<sigma>1)"
    by (cases "on_world (pl_read_slot (dq_planes D) (rg_planes (ag_read g)) slot) \<sigma>")
  have "\<sigma>' = \<sigma>1"
    using assms Some y
    by (auto simp: read_instance_point_def observed_ports_def split: option.splits sum.splits if_splits)
  then show ?thesis using on_world_log [OF y] by simp
qed

lemma get_instance_ok:
  assumes "service_ok H P fence g0 \<sigma>"
  shows "service_ok H P fence g0
    (snd (shm_get_instance_for_execution (dq_planes (observed_ports D)) observed_handle f i k p \<sigma>))"
proof -
  let ?g = "load_generation (observed_handle \<sigma>)"
  obtain x \<sigma>1 where x: "read_instance_point (dq_planes (observed_ports D)) ?g i (k \<noteq> 0) p \<sigma> = (x, \<sigma>1)"
    by (cases "read_instance_point (dq_planes (observed_ports D)) ?g i (k \<noteq> 0) p \<sigma>")
  have "service_ok H P fence g0 \<sigma>1"
    using read_point_topo [OF x] by (intro ok_quiet [OF assms, of _ "[]"]) auto
  moreover have "snd (shm_get_instance_for_execution (dq_planes (observed_ports D)) observed_handle f i k p \<sigma>) \<in> {\<sigma>, \<sigma>1}"
    by (cases f; cases x) (auto simp: shm_get_instance_for_execution_def x Let_def)
  ultimately show ?thesis using assms by auto
qed

text \<open>The service is an environment of the rule executor.\<close>

lemma service_environment:
  assumes "digest_identifies H P" and "\<And>w. topology_moves H P w (sched w)"
  shows "rule_environment (service_executor sched E) fence (service_ok H P fence g0)"
  by (rule rule_environment.intro)
    (auto simp: service_executor_def intro: get_instance_ok ok_on_world write_action_ok [OF assms])

lemma service_run:
  assumes d: "digest_identifies H P" and sched: "\<And>w. topology_moves H P w (sched w)"
    and start: "topology_run H P n (h, l, e)"
    and run: "rule_execute (service_executor sched E) r ((n, h, l, e), []) = (res, \<sigma>)"
  shows "service_ok H P (Some (ag_sequence (load_generation h))) (load_generation h) \<sigma>"
proof (rule rule_execute_walk [of "service_executor sched E" "((n, h, l, e), [])" r])
  fix fence \<sigma>1 w
  assume b: "re_begin_execution (service_executor sched E) ((n, h, l, e), []) = (fence, \<sigma>1)"
    and walk: "walk_rule MAX_ITERATIONS (service_executor sched E) fence r (start_node (rule_flow_topology r))
      (walk_start r) \<sigma>1 = (w, snd (rule_execute (service_executor sched E) r ((n, h, l, e), [])))"
  have f: "fence = Some (ag_sequence (load_generation h))" "\<sigma>1 = ((n, h, l, e), [])"
    using b by (simp_all add: service_executor_def shm_begin_execution_def observed_handle_def)
  have "service_ok H P fence (load_generation h) \<sigma>1"
    using start run_ok [OF d start] load_in_arena
    by (auto simp: f(2) service_ok_def observed_handle_def intro: lawful_log.Empty)
  from rule_environment.walk_keeps [OF service_environment [OF d sched] this] walk run f(1) show ?thesis
    by (metis snd_conv)
qed

text \<open>
  A service over the sample topology whose ports all answer, and a rule that writes 1.0 to the
  logical action point 9 of instance 1.
\<close>

definition sample_service :: "(unit, unit) service_environment" where
  "sample_service =
     \<lparr>se_commands =
        \<lparr>dq_planes = \<lparr>pl_read_slot = (\<lambda>_ _ s. (Inr None, s)),
           pl_read_channel = (\<lambda>_ c s. (Inr (Some \<lparr>cho_channel_id = c, cho_online = True, cho_observed_at = 0\<rparr>), s))\<rparr>,
         dq_control_point = (\<lambda>_ _ s. (Inr (Some ()), s)), dq_adjustment_point = (\<lambda>_ _ s. (Inr None, s)),
         dq_utc_now = (\<lambda>s. (1000, s)), dq_send = (\<lambda>pc s. (Inr \<lparr>cr_command_id = pc_id pc, cr_completed_at = 1000\<rparr>, s))\<rparr>,
      se_audit = (\<lambda>_ s. (Inr (), s)), se_new_uuid = (\<lambda>s. (42, s)), se_uuid_text = (\<lambda>_. ascii ''u''),
      se_evaluate_formula = (\<lambda>_ _. Inl []), se_json_display = (\<lambda>_. []),
      se_calc_evaluate = (\<lambda>_ _ _ s. (Inl [], s)), se_period_delta = (\<lambda>_ _ _ _ s. (Inl [], s))\<rparr>"

definition write_one_rule :: rule where
  "write_one_rule = sample_rule
     [ascii ''s'' \<mapsto> ChangeValueNode [bound_variable ''Y'' 1 ''action'' 9]
        [\<lparr>rva_variables = ascii ''Y'', rva_value = JNumber (PosInt 1)\<rparr>] [ascii ''e''],
      ascii ''e'' \<mapsto> EndNode]"

definition sample_execution :: "rule_execution_result \<times> (unit, unit) observed" where
  "sample_execution =
     rule_execute (service_executor id sample_service) write_one_rule ((2, sample_handle, NoLease, ()), [])"

text \<open>Saturating addition on binary integers, for evaluation.\<close>

lemma usize_saturating_add_int [code]:
  "usize_saturating_add a b = nat (min (int a + int b) 0xFFFFFFFFFFFFFFFF)"
  by (simp add: usize_saturating_add_def min_def nat_int_add)

lemma u32_saturating_add_int [code]:
  "u32_saturating_add a b = (if uint a + uint b < 0x100000000 then a + b else - 1)"
proof -
  have "int (unat a + unat b) < int (2 ^ 32) \<longleftrightarrow> unat a + unat b < 2 ^ 32" by (rule of_nat_less_iff)
  then show ?thesis by (simp add: u32_saturating_add_def)
qed

definition sends_one_command :: "(unit, unit) observed \<Rightarrow> bool" where
  "sends_one_command \<sigma> \<longleftrightarrow>
     fst (fst \<sigma>) = 2 \<and> length (snd \<sigma>) = 7 \<and>
     (case snd \<sigma> ! 5 of
        SendEvent pc \<Rightarrow> sent_to pc = \<lparr>ppa_channel = 7, ppa_kind = Command, ppa_point = 1\<rparr> \<and>
          pc_value pc = 0x3FF0000000000000
      | _ \<Rightarrow> False)"

lemma sample_execution_sends: "sends_one_command (snd sample_execution)"
  by code_simp

lemmas sample_execution_log =
  sample_execution_sends [unfolded sends_one_command_def, THEN conjunct1]
  sample_execution_sends [unfolded sends_one_command_def, THEN conjunct2, THEN conjunct1]
  sample_execution_sends [unfolded sends_one_command_def, THEN conjunct2, THEN conjunct2]

subsection \<open>Properties\<close>



end
