(* ===== verification/Spec2Isabelle.thy ===== *)
theory Spec2Isabelle
  imports Slot_Seqlock Slot_Bitmap Outbox_Properties Edge_Domain Channel_Manifest Core_Types Core_Shm Dl645_Codec Can_Codec Register_Codec Routing_Cache App_Facades Rule_Commands
begin

text \<open>
  \<^bold>\<open>Verification of the AetherIot edge platform.\<close>

  AetherIot is an edge gateway written in Rust.  The io service talks to devices and writes
  their points into shared memory; the automation service evaluates rules on these points and
  sends commands back; application facades authorize and audit every mutation; a durable outbox
  and a forwarder carry messages to the cloud.  Paths below are relative to \<open>src/\<close>.

  \<^bold>\<open>Conventions.\<close>  A struct is a record, an enum a datatype, \<open>Result\<close> a sum type with the
  error left, a panic the value \<open>None\<close> where the code can panic.  Integers are words of their
  width, \<open>usize\<close> is \<open>nat\<close>, an \<open>i64\<close> is its 64-bit pattern read by \<open>sint\<close>.  An \<open>f64\<close> is its bit
  pattern; comparison, arithmetic, parsing and formatting are defined on patterns in \<open>F64_Bits\<close>,
  \<open>F64_Arith\<close>, \<open>F64_Parse\<close> and \<open>F64_Show\<close> with round-to-nearest-even.  A \<open>String\<close> is its UTF-8
  bytes (\<open>Rust_Strings\<close>).  A \<open>BTreeMap\<close> is a sorted association list (\<open>BTree_Map\<close>, locale
  \<open>ordered_map\<close>).  A port of a service is a function on the state of its environment, so what
  other tasks do while the code awaits is part of the port.  Third-party crates (evalexpr,
  serde_json printing, sqlx, FxHasher, uuid, chrono) are parameters.  \<open>Edge_Prelude\<close> holds the
  shared lemmas on results, words and bytes.

  \<^bold>\<open>Shared memory.\<close>  \<open>Point_Slot\<close> and \<open>Slot_Seqlock\<close> model crates/aether-dataplane/src/core/slot.rs:
  one step is one atomic access, and an accepted read is the last completed write as long as
  fewer than \<open>2 ^ 32\<close> sequence increments fall into one attempt; the bound is shown to be exact.
  \<open>Slot_Bitmap\<close> models bitmap.rs: allocation is complete, live blocks are disjoint, and the
  \<open>u32\<close> view refines the \<open>usize\<close> bitmap.  \<open>Channel_Manifest\<close> models
  extensions/shm-bridge/src/manifest.rs: slots and addresses are in bijection and cache lines are
  not shared.  \<open>Point_Watch\<close> models the change hints of events.rs.  \<open>Core_Shm\<close> and \<open>Core_Types\<close>
  model the firmware side in libs/aether-core/src.

  \<^bold>\<open>Outbox.\<close>  \<open>Edge_Ports\<close>, \<open>Durable_Outbox\<close>, \<open>File_Outbox\<close>, \<open>Outbox_Recovery\<close>, \<open>Outbox_Journal\<close>
  and \<open>Outbox_Properties\<close> model outbox.rs and file_outbox.rs of extensions/store-local/src and
  the forwarder of crates/aether-application/src/outbox_forwarder.rs.  The journal refines a FIFO
  queue, survives restarts and torn writes, never reuses an identifier, and is drained at least
  once.  Two ways to lose the journal are shown.

  \<^bold>\<open>Codecs and routing.\<close>  \<open>Dl645_Codec\<close> and \<open>Can_Codec\<close> (libs/aether-core/src/codec),
  \<open>Register_Codec\<close> (services/io/src/protocols) and \<open>Routing_Cache\<close>
  (libs/aether-routing/src/routing_cache.rs): round trips, error detection, table consistency,
  and the inputs on which they fail.

  \<^bold>\<open>Application layer.\<close>  \<open>Edge_Domain\<close> (crates/aether-domain/src), \<open>App_Governance\<close>, \<open>App_Control\<close>
  and \<open>App_Facades\<close> (crates/aether-application/src).  The locale \<open>audited_facade\<close> states the
  scheme of all facades (decide, announce, execute once, conclude) and is interpreted on each of
  the six; \<open>audit_log\<close> and \<open>reliable_audit_log\<close> are interpreted on the in-memory sink.

  \<^bold>\<open>Rules.\<close>  \<open>Rule_Executor\<close> models libs/aether-rules/src/executor.rs with its types; \<open>walk_rule\<close>
  counts down the 100 iterations of the source's loop, so it is total and the bound is the
  code's own.  \<open>Rule_Runs\<close> shows that results are truthful and that well-formed rules fail only
  for the data.  Its locale \<open>rule_environment\<close> lifts a property of the ports to whole runs; it is
  interpreted on an executor that logs its commands and instantiated on the service.

  \<^bold>\<open>Topology and command path.\<close>  \<open>Sqlite_Topology\<close> models
  extensions/store-local/src/sqlite_topology.rs on the rows that SQLite answers;
  \<open>Runtime_Topology\<close> models services/automation/src/infra/runtime_topology.rs.  An \<open>Arc\<close> is an
  index into the list of all generations, the refresh gate is the lease component of the step
  relation, and an operation takes at most two sequence numbers; therefore the theorems speak of
  fewer than \<open>2 ^ 63\<close> operations, before the 64-bit counter wraps.  They assume that the digest
  tells apart the routes of the databases the service meets.  \<open>Command_Dispatch\<close> models
  application_control.rs and rule_live_state.rs of the same directory.  \<open>Rule_Commands\<close> composes
  executor, facade, dispatcher and topology: the scheduler may run any topology operations at
  the command gate and at the audit sink, and every command that reaches a device is announced,
  admitted by its configuration, and routed as at the start of the run.

  \<^bold>\<open>Not modelled.\<close>  Mapping, locking and renaming files of the segment, sockets and serial lines,
  HTTP routes, SQL text, JWT verification, and serde derivations are I/O or third-party code.
  The rule, alarm-rule and channel mutation facades hash their details with SHA-256; CloudLink,
  data processing and integration synchronization work on Protobuf and JSON documents of
  third-party crates; the rule scheduler and parser are timers and serde around the executor.
  Cancellation of a future at an await is not modelled.
\<close>

end
